(* ===== verification/Prelude.thy ===== *)
theory Prelude
  imports Main "HOL-Library.Word"
begin

text \<open>
  Shared vocabulary of the AirClip development: the machine integer types of the Rust
  sources, byte vectors, Rust strings as sequences of Unicode scalar values, the
  \<open>Result\<close> plumbing (an error on the left, a value on the right), the integer
  operations of the standard library that the sources call
  (\<open>to_le_bytes\<close>, \<open>from_le_bytes\<close>, \<open>checked_add\<close>, \<open>saturating_sub\<close>,
  \<open>abs_diff\<close>) and the generic lemmas the component theories share.

  A Rust \<open>usize\<close> is a \<^typ>\<open>nat\<close>: every one that occurs is the length of a buffer
  in memory. A fixed array \<open>[u8; N]\<close> is a byte list, with its width stated where a
  property needs it.
\<close>

section \<open>Types\<close>

type_synonym u8 = "8 word"
type_synonym u16 = "16 word"
type_synonym u32 = "32 word"
type_synonym u64 = "64 word"
type_synonym byte = "8 word"
type_synonym bytes = "8 word list"

text \<open>A Rust \<open>char\<close> is a Unicode scalar value; a \<open>String\<close> is a sequence of them.\<close>

type_synonym rchar = nat
type_synonym rstr = "nat list"

text \<open>Collections of simplification rules: wire constants, and the accessors of the model.\<close>

named_theorems wire_consts
named_theorems len_simps

section \<open>Results and options\<close>

text \<open>Rust's \<open>?\<close> on a \<open>Result\<close>, and \<open>Result::ok\<close>.\<close>

definition try_r :: "'e + 'a \<Rightarrow> ('a \<Rightarrow> 'e + 'b) \<Rightarrow> 'e + 'b" where
  "try_r r f = (case r of Inl e \<Rightarrow> Inl e | Inr v \<Rightarrow> f v)"

definition ok_r :: "'e + 'a \<Rightarrow> 'a option" where
  "ok_r r = (case r of Inl e \<Rightarrow> None | Inr v \<Rightarrow> Some v)"

definition unwrap_or :: "'e + 'a \<Rightarrow> 'a \<Rightarrow> 'a" where
  "unwrap_or r x = (case r of Inl e \<Rightarrow> x | Inr v \<Rightarrow> v)"

definition ok_or :: "'a option \<Rightarrow> 'e \<Rightarrow> 'e + 'a" where
  "ok_or opt e = (case opt of None \<Rightarrow> Inl e | Some v \<Rightarrow> Inr v)"

definition is_ok :: "'e + 'a \<Rightarrow> bool" where
  "is_ok r = (case r of Inl e \<Rightarrow> False | Inr v \<Rightarrow> True)"

lemma try_r_simps [simp]:
  "try_r (Inl e) f = Inl e"
  "try_r (Inr v) f = f v"
  by (simp_all add: try_r_def)

lemma try_r_eq_Inr: "try_r r f = Inr y \<longleftrightarrow> (\<exists>v. r = Inr v \<and> f v = Inr y)"
  by (cases r) auto

lemma ok_r_simps [simp]: "ok_r (Inl e) = None" "ok_r (Inr v) = Some v"
  by (simp_all add: ok_r_def)

lemma ok_r_eq_Some [simp]: "ok_r r = Some v \<longleftrightarrow> r = Inr v"
  by (cases r) auto

lemma unwrap_or_simps [simp]: "unwrap_or (Inl e) x = x" "unwrap_or (Inr v) x = v"
  by (simp_all add: unwrap_or_def)

lemma ok_or_simps [simp]: "ok_or None e = Inl e" "ok_or (Some v) e = Inr v"
  by (simp_all add: ok_or_def)

lemma ok_or_eq_Inr [simp]: "ok_or opt e = Inr v \<longleftrightarrow> opt = Some v"
  by (cases opt) auto

lemma is_ok_simps [simp]: "is_ok (Inl e) = False" "is_ok (Inr v) = True"
  by (simp_all add: is_ok_def)

section \<open>Integer operations of the standard library\<close>

definition saturating_sub :: "'a::len word \<Rightarrow> 'a word \<Rightarrow> 'a word" where
  "saturating_sub a b = (if a < b then 0 else a - b)"

definition abs_diff :: "'a::len word \<Rightarrow> 'a word \<Rightarrow> 'a word" where
  "abs_diff a b = (if a < b then b - a else a - b)"

definition checked_add :: "'a::len word \<Rightarrow> 'a word \<Rightarrow> 'a word option" where
  "checked_add a b = (if unat a + unat b < 2 ^ LENGTH('a) then Some (a + b) else None)"

lemma unat_bound: "unat (w :: 'a::len word) < 2 ^ LENGTH('a)"
  by (rule unsigned_less)

lemma unat_saturating_sub: "unat (saturating_sub a b) = unat a - unat b"
  by (auto simp: saturating_sub_def word_less_nat_alt unat_sub word_le_nat_alt not_less)

lemma unat_abs_diff:
  "unat (abs_diff a b) = (if unat a < unat b then unat b - unat a else unat a - unat b)"
  by (auto simp: abs_diff_def word_less_nat_alt unat_sub word_le_nat_alt not_less)

lemma abs_diff_commute: "abs_diff a b = abs_diff b a"
  by (rule word_unat_eq_iff [THEN iffD2]) (auto simp: unat_abs_diff)

lemma abs_diff_self [simp]: "abs_diff a a = 0"
  by (simp add: abs_diff_def)

lemma checked_add_Some:
  fixes a b :: "'a::len word"
  shows "checked_add a b = Some c \<longleftrightarrow>
    unat a + unat b < 2 ^ LENGTH('a) \<and> c = a + b \<and> unat c = unat a + unat b"
  by (auto simp: checked_add_def unat_word_ariths)

lemma checked_add_one_u64:
  fixes a :: u64
  shows "checked_add a 1 = (if unat a + 1 < 2 ^ 64 then Some (a + 1) else None)"
  by (simp add: checked_add_def)

section \<open>Little-endian byte strings\<close>

fun le_bytes :: "nat \<Rightarrow> nat \<Rightarrow> bytes" where
  "le_bytes 0 x = []"
| "le_bytes (Suc n) x = of_nat x # le_bytes n (x div 256)"

fun le_nat :: "bytes \<Rightarrow> nat" where
  "le_nat [] = 0"
| "le_nat (b # bs) = unat b + 256 * le_nat bs"

definition u32_to_le_bytes :: "u32 \<Rightarrow> bytes" where
  "u32_to_le_bytes w = le_bytes 4 (unat w)"

definition u32_from_le_bytes :: "bytes \<Rightarrow> u32" where
  "u32_from_le_bytes bs = of_nat (le_nat bs)"

definition u64_to_le_bytes :: "u64 \<Rightarrow> bytes" where
  "u64_to_le_bytes w = le_bytes 8 (unat w)"

definition u64_from_le_bytes :: "bytes \<Rightarrow> u64" where
  "u64_from_le_bytes bs = of_nat (le_nat bs)"

definition u32_from_be_bytes :: "bytes \<Rightarrow> u32" where
  "u32_from_be_bytes bs = of_nat (le_nat (rev bs))"

lemma length_le_bytes [simp]: "length (le_bytes n x) = n"
  by (induction n arbitrary: x) auto

lemma le_nat_le_bytes: "le_nat (le_bytes n x) = x mod 256 ^ n"
proof (induction n arbitrary: x)
  case 0
  then show ?case by simp
next
  case (Suc n)
  have "x mod 256 ^ Suc n = x mod 256 + 256 * (x div 256 mod 256 ^ n)"
    by (simp add: mod_mult2_eq)
  then show ?case by (simp add: Suc.IH unat_of_nat)
qed

lemma le_bytes_le_nat: "length bs = n \<Longrightarrow> le_bytes n (le_nat bs) = bs"
proof (induction bs arbitrary: n)
  case Nil
  then show ?case by simp
next
  case (Cons b bs)
  then obtain m where n: "n = Suc m" and m: "length bs = m" by auto
  have "(unat b + 256 * le_nat bs) div 256 = le_nat bs"
    using unat_bound [of b] by simp
  moreover have "(of_nat (unat b + 256 * le_nat bs) :: byte) = b"
  proof -
    have "(256 :: byte) = 0" by simp
    then show ?thesis by (simp only: of_nat_add of_nat_mult of_nat_numeral) simp
  qed
  ultimately show ?case
    by (simp add: n Cons.IH [OF m])
qed

lemma le_nat_less: "le_nat bs < 256 ^ length bs"
proof (induction bs)
  case Nil
  then show ?case by simp
next
  case (Cons b bs)
  have "unat b < 256" using unat_bound [of b] by simp
  with Cons show ?case by simp
qed

lemma length_u32_to_le_bytes [simp]: "length (u32_to_le_bytes w) = 4"
  by (simp add: u32_to_le_bytes_def)

lemma length_u64_to_le_bytes [simp]: "length (u64_to_le_bytes w) = 8"
  by (simp add: u64_to_le_bytes_def)

lemma u32_to_le_bytes_4: "u32_to_le_bytes w =
    [of_nat (unat w), of_nat (unat w div 256), of_nat (unat w div 256 div 256),
     of_nat (unat w div 256 div 256 div 256)]"
proof -
  have four: "(4::nat) = Suc (Suc (Suc (Suc 0)))" by simp
  show ?thesis unfolding u32_to_le_bytes_def four by (simp only: le_bytes.simps)
qed

lemma u64_to_le_bytes_8: "u64_to_le_bytes w =
    [of_nat (unat w), of_nat (unat w div 256), of_nat (unat w div 256 div 256),
     of_nat (unat w div 256 div 256 div 256), of_nat (unat w div 256 div 256 div 256 div 256),
     of_nat (unat w div 256 div 256 div 256 div 256 div 256),
     of_nat (unat w div 256 div 256 div 256 div 256 div 256 div 256),
     of_nat (unat w div 256 div 256 div 256 div 256 div 256 div 256 div 256)]"
proof -
  have eight: "(8::nat) = Suc (Suc (Suc (Suc (Suc (Suc (Suc (Suc 0)))))))" by simp
  show ?thesis unfolding u64_to_le_bytes_def eight by (simp only: le_bytes.simps)
qed

lemma u32_le_roundtrip [simp]: "u32_from_le_bytes (u32_to_le_bytes w) = w"
proof -
  have "unat w mod 256 ^ 4 = unat w" using unat_bound [of w] by simp
  then show ?thesis
    by (simp add: u32_from_le_bytes_def u32_to_le_bytes_def le_nat_le_bytes)
qed

lemma u64_le_roundtrip [simp]: "u64_from_le_bytes (u64_to_le_bytes w) = w"
proof -
  have "unat w mod 256 ^ 8 = unat w" using unat_bound [of w] by simp
  then show ?thesis
    by (simp add: u64_from_le_bytes_def u64_to_le_bytes_def le_nat_le_bytes)
qed

lemma unat_u32_from_le_bytes: "length bs = 4 \<Longrightarrow> unat (u32_from_le_bytes bs) = le_nat bs"
  using le_nat_less [of bs] by (simp add: u32_from_le_bytes_def unat_of_nat)

lemma unat_u64_from_le_bytes: "length bs = 8 \<Longrightarrow> unat (u64_from_le_bytes bs) = le_nat bs"
  using le_nat_less [of bs] by (simp add: u64_from_le_bytes_def unat_of_nat)

lemma u32_to_from_le_bytes: "length bs = 4 \<Longrightarrow> u32_to_le_bytes (u32_from_le_bytes bs) = bs"
  by (simp add: u32_to_le_bytes_def unat_u32_from_le_bytes le_bytes_le_nat)

lemma u64_to_from_le_bytes: "length bs = 8 \<Longrightarrow> u64_to_le_bytes (u64_from_le_bytes bs) = bs"
  by (simp add: u64_to_le_bytes_def unat_u64_from_le_bytes le_bytes_le_nat)

lemma u64_to_le_bytes_inject [simp]: "u64_to_le_bytes v = u64_to_le_bytes w \<longleftrightarrow> v = w"
  by (metis u64_le_roundtrip)

section \<open>Lists\<close>

text \<open>\<open>last_n n xs\<close> is the suffix of the last \<open>n\<close> elements: the specification of a ring.\<close>

definition last_n :: "nat \<Rightarrow> 'a list \<Rightarrow> 'a list" where
  "last_n n xs = drop (length xs - n) xs"

lemma length_last_n [simp]: "length (last_n n xs) = min n (length xs)"
  by (simp add: last_n_def)

lemma last_n_all: "length xs \<le> n \<Longrightarrow> last_n n xs = xs"
  by (simp add: last_n_def)

lemma set_last_n: "set (last_n n xs) \<subseteq> set xs"
  by (simp add: last_n_def set_drop_subset)

lemma last_n_snoc:
  assumes "0 < n"
  shows "last_n n (xs @ [x]) =
    (if length xs < n then xs @ [x] else tl (last_n n xs) @ [x])"
proof (cases "length xs < n")
  case True
  then show ?thesis by (simp add: last_n_def)
next
  case False
  then have "length xs + 1 - n = Suc (length xs - n)" by simp
  with False assms show ?thesis
    by (simp add: last_n_def drop_Suc tl_drop)
qed

lemma last_n_last_n: "last_n n (last_n n xs @ ys) = last_n n (xs @ ys)"
proof (cases "length xs \<le> n")
  case True
  then show ?thesis by (simp add: last_n_all)
next
  case False
  then have "length xs + length ys - n = (length xs - n) + length ys" by simp
  with False show ?thesis by (simp add: last_n_def min_def add.commute)
qed

lemma take_append_le: "n \<le> length xs \<Longrightarrow> take n (xs @ ys) = take n xs"
  by simp

section \<open>Row-major indices\<close>

lemma row_major_eq:
  fixes n :: nat
  assumes "x < n" "x' < n"
  shows "y * n + x = y' * n + x' \<longleftrightarrow> y = y' \<and> x = x'"
proof
  assume e: "y * n + x = y' * n + x'"
  have "(y * n + x) div n = y" "(y' * n + x') div n = y'" using assms by simp_all
  then show "y = y' \<and> x = x'" using e by simp
qed simp

lemma row_major_less:
  fixes n :: nat
  assumes "x < n" "y < m"
  shows "y * n + x < m * n"
proof -
  have "y * n + x < Suc y * n" using assms(1) by simp
  also have "\<dots> \<le> m * n" using assms(2) by (intro mult_right_mono) simp_all
  finally show ?thesis .
qed

end
