(* ===== verification/RustStd.thy ===== *)
theory RustStd
  imports Prelude
begin

text \<open>
  The parts of the Rust standard library the sources use on text: UTF-8 encoding of a
  string (\<open>as_bytes\<close>), the lossy decoder \<open>String::from_utf8_lossy\<close> with its maximal
  subpart replacement, decimal and hexadecimal formatting, \<open>str::parse\<close> for \<open>u8\<close>,
  \<open>trim\<close>, \<open>split\<close>, \<open>join\<close> and the character classes. The lemmas give the round
  trips the components rely on: decoding an encoded string returns it, and every decoded
  string is well formed.
\<close>

section \<open>Characters and strings\<close>

definition lit :: "string \<Rightarrow> rstr" where
  "lit s = map of_char s"

definition valid_char :: "rchar \<Rightarrow> bool" where
  "valid_char c \<longleftrightarrow> c < 0x110000 \<and> \<not> (0xD800 \<le> c \<and> c \<le> 0xDFFF)"

definition valid_str :: "rstr \<Rightarrow> bool" where
  "valid_str s \<longleftrightarrow> list_all valid_char s"

lemma valid_str_simps [simp]:
  "valid_str []"
  "valid_str (c # s) \<longleftrightarrow> valid_char c \<and> valid_str s"
  "valid_str (s @ t) \<longleftrightarrow> valid_str s \<and> valid_str t"
  by (simp_all add: valid_str_def)

lemma valid_str_take: "valid_str s \<Longrightarrow> valid_str (take n s)"
  by (metis append_take_drop_id valid_str_simps(3))

lemma valid_str_map: "valid_str s \<Longrightarrow> (\<And>c. valid_char c \<Longrightarrow> valid_char (f c)) \<Longrightarrow> valid_str (map f s)"
  by (induction s) auto

definition utf8_char :: "rchar \<Rightarrow> bytes" where
  "utf8_char c =
     (if c < 0x80 then [of_nat c]
      else if c < 0x800 then [of_nat (0xC0 + c div 0x40), of_nat (0x80 + c mod 0x40)]
      else if c < 0x10000 then
        [of_nat (0xE0 + c div 0x1000), of_nat (0x80 + c div 0x40 mod 0x40),
         of_nat (0x80 + c mod 0x40)]
      else
        [of_nat (0xF0 + c div 0x40000), of_nat (0x80 + c div 0x1000 mod 0x40),
         of_nat (0x80 + c div 0x40 mod 0x40), of_nat (0x80 + c mod 0x40)])"

text \<open>\<open>str::as_bytes\<close> and \<open>str::len\<close> (which counts bytes).\<close>

definition as_bytes :: "rstr \<Rightarrow> bytes" where
  "as_bytes s = concat (map utf8_char s)"

definition str_len :: "rstr \<Rightarrow> nat" where
  "str_len s = length (as_bytes s)"

section \<open>Lossy UTF-8 decoding\<close>

text \<open>
  One step of the decoder on the leading byte \<open>a\<close> and the bytes after it: the character
  produced and the number of further bytes consumed. A byte read past the end counts as 0,
  an ill-formed sequence is replaced by U+FFFD once per maximal ill-formed prefix.
\<close>

definition byte_at :: "nat list \<Rightarrow> nat \<Rightarrow> nat" where
  "byte_at r i = (if i < length r then r ! i else 0)"

definition is_cont :: "nat \<Rightarrow> bool" where
  "is_cont b \<longleftrightarrow> 0x80 \<le> b \<and> b \<le> 0xBF"

definition second3 :: "nat \<Rightarrow> nat \<Rightarrow> bool" where
  "second3 a b \<longleftrightarrow>
     (a = 0xE0 \<and> 0xA0 \<le> b \<and> b \<le> 0xBF) \<or>
     (0xE1 \<le> a \<and> a \<le> 0xEC \<and> is_cont b) \<or>
     (a = 0xED \<and> 0x80 \<le> b \<and> b \<le> 0x9F) \<or>
     (0xEE \<le> a \<and> a \<le> 0xEF \<and> is_cont b)"

definition second4 :: "nat \<Rightarrow> nat \<Rightarrow> bool" where
  "second4 a b \<longleftrightarrow>
     (a = 0xF0 \<and> 0x90 \<le> b \<and> b \<le> 0xBF) \<or>
     (0xF1 \<le> a \<and> a \<le> 0xF3 \<and> is_cont b) \<or>
     (a = 0xF4 \<and> 0x80 \<le> b \<and> b \<le> 0x8F)"

definition lossy_step :: "nat \<Rightarrow> nat list \<Rightarrow> rchar \<times> nat" where
  "lossy_step a r =
     (let b1 = byte_at r 0; b2 = byte_at r 1; b3 = byte_at r 2 in
      if a < 0x80 then (a, 0)
      else if 0xC2 \<le> a \<and> a \<le> 0xDF then
        (if is_cont b1 then ((a - 0xC0) * 0x40 + (b1 - 0x80), 1) else (0xFFFD, 0))
      else if 0xE0 \<le> a \<and> a \<le> 0xEF then
        (if \<not> second3 a b1 then (0xFFFD, 0)
         else if \<not> is_cont b2 then (0xFFFD, 1)
         else ((a - 0xE0) * 0x1000 + (b1 - 0x80) * 0x40 + (b2 - 0x80), 2))
      else if 0xF0 \<le> a \<and> a \<le> 0xF4 then
        (if \<not> second4 a b1 then (0xFFFD, 0)
         else if \<not> is_cont b2 then (0xFFFD, 1)
         else if \<not> is_cont b3 then (0xFFFD, 2)
         else ((a - 0xF0) * 0x40000 + (b1 - 0x80) * 0x1000 + (b2 - 0x80) * 0x40 + (b3 - 0x80), 3))
      else (0xFFFD, 0))"

function lossy_nats :: "nat list \<Rightarrow> rstr" where
  "lossy_nats [] = []"
| "lossy_nats (a # r) = fst (lossy_step a r) # lossy_nats (drop (snd (lossy_step a r)) r)"
  by pat_completeness auto
termination
  by (relation "measure length") auto

definition from_utf8_lossy :: "bytes \<Rightarrow> rstr" where
  "from_utf8_lossy bs = lossy_nats (map unat bs)"

lemma second3_bounds: "second3 a b \<Longrightarrow> 0x80 \<le> b \<and> b \<le> 0xBF \<and> 0xE0 \<le> a \<and> a \<le> 0xEF"
  by (auto simp: second3_def is_cont_def)

lemma second4_bounds: "second4 a b \<Longrightarrow> 0x80 \<le> b \<and> b \<le> 0xBF \<and> 0xF0 \<le> a \<and> a \<le> 0xF4"
  by (auto simp: second4_def is_cont_def)

lemma valid_char_3:
  assumes "second3 a b" "is_cont c"
  shows "valid_char ((a - 0xE0) * 0x1000 + (b - 0x80) * 0x40 + (c - 0x80))"
  using assms unfolding second3_def is_cont_def valid_char_def
  by (elim disjE conjE) linarith+

lemma valid_char_4:
  assumes "second4 a b" "is_cont c" "is_cont e"
  shows "valid_char ((a - 0xF0) * 0x40000 + (b - 0x80) * 0x1000 + (c - 0x80) * 0x40 + (e - 0x80))"
  using assms unfolding second4_def is_cont_def valid_char_def
  by (elim disjE conjE) linarith+

lemma valid_lossy_step: "valid_char (fst (lossy_step a r))"
proof -
  have "valid_char 0xFFFD" by (simp add: valid_char_def)
  moreover have "valid_char ((a - 0xC0) * 0x40 + (b - 0x80))"
    if "a \<le> 0xDF" "is_cont b" for b
    using that by (auto simp: valid_char_def is_cont_def)
  moreover have "valid_char a" if "a < 0x80" using that by (simp add: valid_char_def)
  ultimately show ?thesis
    by (simp add: lossy_step_def Let_def valid_char_3 valid_char_4)
qed

lemma valid_from_utf8_lossy [simp]: "valid_str (from_utf8_lossy bs)"
proof -
  have "valid_str (lossy_nats xs)" for xs
    by (induction xs rule: lossy_nats.induct) (auto simp: valid_lossy_step)
  then show ?thesis by (simp add: from_utf8_lossy_def)
qed

subsection \<open>Decoding an encoded string returns it\<close>

lemma unat_byte: "n < 256 \<Longrightarrow> unat (of_nat n :: byte) = n"
  by (simp add: unat_of_nat)

lemma byte_at_simps [simp]:
  "byte_at (x # r) 0 = x"
  "byte_at (x # y # r) (Suc 0) = y"
  "byte_at (x # y # z # r) 2 = z"
  by (simp_all add: byte_at_def)

lemma split64: "(n::nat) = n div 0x40 * 0x40 + n mod 0x40"
  by simp

lemma div_shift:
  "(n::nat) div 0x40 div 0x40 = n div 0x1000" "n div 0x1000 div 0x40 = n div 0x40000"
  by (simp_all add: div_mult2_eq [symmetric])

lemma lossy_char2:
  assumes "0x80 \<le> c" "c < 0x800"
  shows "lossy_step (0xC0 + c div 0x40) ((0x80 + c mod 0x40) # r) = (c, 1)"
proof -
  have "2 \<le> c div 0x40" "c div 0x40 \<le> 31" using assms by auto
  then show ?thesis
    by (simp add: lossy_step_def is_cont_def Let_def less_Suc_eq_le [symmetric])
qed

lemma lossy_char3:
  assumes "0x800 \<le> c" "c < 0x10000" "valid_char c"
  shows "lossy_step (0xE0 + c div 0x1000)
    ((0x80 + c div 0x40 mod 0x40) # (0x80 + c mod 0x40) # r) = (c, 2)"
proof -
  define x y z where "x = c div 0x1000" and "y = c div 0x40 mod 0x40" and "z = c mod 0x40"
  have c: "c = x * 0x1000 + y * 0x40 + z"
    unfolding x_def y_def z_def using split64 [of c] split64 [of "c div 0x40"] div_shift [of c]
    by linarith
  have b: "x \<le> 15" "y \<le> 63" "z \<le> 63"
    using assms unfolding x_def y_def z_def by auto
  have "second3 (0xE0 + x) (0x80 + y)"
  proof -
    have lo: "0x800 \<le> x * 0x1000 + y * 0x40 + z" using assms(1) c by simp
    have sur: "\<not> (0xD800 \<le> x * 0x1000 + y * 0x40 + z \<and> x * 0x1000 + y * 0x40 + z \<le> 0xDFFF)"
      using assms(3) c by (simp add: valid_char_def)
    consider "x = 0" | "1 \<le> x" "x \<le> 12" | "x = 13" | "14 \<le> x" by linarith
    then show ?thesis
      using b lo sur unfolding second3_def is_cont_def by cases linarith+
  qed
  then show ?thesis
    unfolding x_def [symmetric] y_def [symmetric] z_def [symmetric]
    using b by (simp add: lossy_step_def is_cont_def Let_def c)
qed

lemma lossy_char4:
  assumes "0x10000 \<le> c" "c < 0x110000"
  shows "lossy_step (0xF0 + c div 0x40000)
    ((0x80 + c div 0x1000 mod 0x40) # (0x80 + c div 0x40 mod 0x40) # (0x80 + c mod 0x40) # r) = (c, 3)"
proof -
  define x y z w where "x = c div 0x40000" and "y = c div 0x1000 mod 0x40"
    and "z = c div 0x40 mod 0x40" and "w = c mod 0x40"
  have c: "c = x * 0x40000 + y * 0x1000 + z * 0x40 + w"
    unfolding x_def y_def z_def w_def
    using split64 [of c] split64 [of "c div 0x40"] split64 [of "c div 0x1000"]
      div_shift [of c]
    by linarith
  have b: "x \<le> 4" "y \<le> 63" "z \<le> 63" "w \<le> 63"
    using assms unfolding x_def y_def z_def w_def by auto
  have "second4 (0xF0 + x) (0x80 + y)"
  proof -
    have lo: "0x10000 \<le> x * 0x40000 + y * 0x1000 + z * 0x40 + w" using assms(1) c by simp
    have hi: "x * 0x40000 + y * 0x1000 + z * 0x40 + w < 0x110000" using assms(2) c by simp
    consider "x = 0" | "1 \<le> x" "x \<le> 3" | "x = 4" using b by linarith
    then show ?thesis
      using b lo hi unfolding second4_def is_cont_def by cases linarith+
  qed
  then show ?thesis
    unfolding x_def [symmetric] y_def [symmetric] z_def [symmetric] w_def [symmetric]
    using b by (simp add: lossy_step_def is_cont_def Let_def c)
qed

lemma lossy_utf8_char:
  assumes "valid_char c"
  shows "lossy_nats (map unat (utf8_char c) @ r) = c # lossy_nats r"
proof -
  have c: "c < 0x110000" using assms by (simp add: valid_char_def)
  consider "c < 0x80" | "0x80 \<le> c" "c < 0x800" | "0x800 \<le> c" "c < 0x10000" | "0x10000 \<le> c"
    by linarith
  then show ?thesis
  proof cases
    case 1
    then show ?thesis by (simp add: utf8_char_def unat_byte lossy_step_def)
  next
    case 2
    then have "0xC0 + c div 0x40 < 256" by linarith
    with 2 show ?thesis
      by (simp add: utf8_char_def unat_byte lossy_char2 del: of_nat_add)
  next
    case 3
    then have "0xE0 + c div 0x1000 < 256" by linarith
    with 3 show ?thesis
      by (simp add: utf8_char_def unat_byte lossy_char3 assms numeral_2_eq_2 del: of_nat_add)
  next
    case 4
    then have "0xF0 + c div 0x40000 < 256" using c by linarith
    with 4 c show ?thesis
      by (simp add: utf8_char_def unat_byte lossy_char4 numeral_3_eq_3 del: of_nat_add)
  qed
qed

theorem from_utf8_lossy_as_bytes [simp]: "valid_str s \<Longrightarrow> from_utf8_lossy (as_bytes s) = s"
proof -
  have "valid_str s \<Longrightarrow> lossy_nats (map unat (as_bytes s)) = s" for s
    by (induction s) (auto simp: as_bytes_def lossy_utf8_char)
  then show "valid_str s \<Longrightarrow> from_utf8_lossy (as_bytes s) = s"
    by (simp add: from_utf8_lossy_def)
qed

section \<open>Formatting and parsing\<close>

text \<open>\<open>{}\<close> of an unsigned integer: its decimal digits.\<close>

fun show_nat :: "nat \<Rightarrow> rstr" where
  "show_nat n = (if n < 10 then [48 + n] else show_nat (n div 10) @ [48 + n mod 10])"

declare show_nat.simps [simp del]

text \<open>\<open>str::parse::<u8>\<close>: an optional plus sign, then at least one digit, in range.\<close>

definition is_digit :: "rchar \<Rightarrow> bool" where
  "is_digit c \<longleftrightarrow> 48 \<le> c \<and> c \<le> 57"

definition digits_value :: "rstr \<Rightarrow> nat" where
  "digits_value s = foldl (\<lambda>acc c. 10 * acc + (c - 48)) 0 s"

definition parse_u8 :: "rstr \<Rightarrow> u8 option" where
  "parse_u8 s =
     (let t = (case s of c # r \<Rightarrow> if c = 43 then r else s | [] \<Rightarrow> s) in
      if t \<noteq> [] \<and> list_all is_digit t \<and> digits_value t < 256
      then Some (of_nat (digits_value t)) else None)"

text \<open>\<open>{:02x}\<close> and \<open>{:02X}\<close> of a byte.\<close>

definition hex_digit :: "nat \<Rightarrow> rchar" where
  "hex_digit n = (if n < 10 then 48 + n else 87 + n)"

definition hex_digit_upper :: "nat \<Rightarrow> rchar" where
  "hex_digit_upper n = (if n < 10 then 48 + n else 55 + n)"

definition fmt_02x :: "byte \<Rightarrow> rstr" where
  "fmt_02x b = [hex_digit (unat b div 16), hex_digit (unat b mod 16)]"

definition fmt_02X :: "byte \<Rightarrow> rstr" where
  "fmt_02X b = [hex_digit_upper (unat b div 16), hex_digit_upper (unat b mod 16)]"

lemma foldl_digits: "foldl (\<lambda>acc c. 10 * acc + (c - 48)) a (s @ [c]) =
    10 * foldl (\<lambda>acc c. 10 * acc + (c - 48)) a s + (c - (48::nat))"
  by simp

lemma show_nat_digits: "list_all is_digit (show_nat n)"
proof (induction n rule: show_nat.induct)
  case (1 n)
  show ?case
    using 1 by (subst show_nat.simps) (cases "n < 10"; simp add: is_digit_def [of "_ + _"])
qed

lemma digits_value_show_nat [simp]: "digits_value (show_nat n) = n"
proof (induction n rule: show_nat.induct)
  case (1 n)
  show ?case
    using 1 by (subst show_nat.simps) (auto simp: digits_value_def)
qed

lemma show_nat_nonempty [simp]: "show_nat n \<noteq> []"
  by (subst show_nat.simps) simp

lemma show_nat_no_plus: "hd (show_nat n) \<noteq> 43"
  using show_nat_digits [of n] show_nat_nonempty [of n]
  by (cases "show_nat n") (auto simp: is_digit_def)

lemma parse_u8_show [simp]: "parse_u8 (show_nat (unat b)) = Some b"
proof -
  have "unat b < 256" using unat_bound [of b] by simp
  moreover obtain c r where cr: "show_nat (unat b) = c # r"
    by (metis list.exhaust show_nat_nonempty)
  moreover have "digits_value (c # r) = unat b" by (metis cr digits_value_show_nat)
  ultimately show ?thesis
    using show_nat_no_plus [of "unat b"] show_nat_digits [of "unat b"]
    by (simp add: parse_u8_def)
qed

lemma hex_digit_inject: "m < 16 \<Longrightarrow> n < 16 \<Longrightarrow> hex_digit m = hex_digit n \<longleftrightarrow> m = n"
  by (auto simp: hex_digit_def split: if_splits)

lemma fmt_02x_inject: "fmt_02x a = fmt_02x b \<longleftrightarrow> a = b"
proof -
  have "unat a < 256" "unat b < 256" using unat_bound [of a] unat_bound [of b] by simp_all
  then have "unat a div 16 < 16" "unat b div 16 < 16" by linarith+
  then have "fmt_02x a = fmt_02x b \<longleftrightarrow> unat a div 16 = unat b div 16 \<and> unat a mod 16 = unat b mod 16"
    by (simp add: fmt_02x_def hex_digit_inject)
  also have "\<dots> \<longleftrightarrow> unat a = unat b" by (metis div_mod_decomp)
  finally show ?thesis by (simp add: word_unat_eq_iff)
qed

section \<open>Searching and splitting\<close>

text \<open>\<open>char::is_whitespace\<close>: the Unicode property White\_Space.\<close>

definition is_whitespace :: "rchar \<Rightarrow> bool" where
  "is_whitespace c \<longleftrightarrow>
     (9 \<le> c \<and> c \<le> 13) \<or> c = 0x20 \<or> c = 0x85 \<or> c = 0xA0 \<or> c = 0x1680 \<or>
     (0x2000 \<le> c \<and> c \<le> 0x200A) \<or> c = 0x2028 \<or> c = 0x2029 \<or> c = 0x202F \<or>
     c = 0x205F \<or> c = 0x3000"

definition trim :: "rstr \<Rightarrow> rstr" where
  "trim s = rev (dropWhile is_whitespace (rev (dropWhile is_whitespace s)))"

definition starts_with :: "rstr \<Rightarrow> rstr \<Rightarrow> bool" where
  "starts_with s p \<longleftrightarrow> take (length p) s = p"

text \<open>\<open>str::split\<close> on one character, and \<open>[String]::join\<close>.\<close>

fun split_on :: "rchar \<Rightarrow> rstr \<Rightarrow> rstr list" where
  "split_on d [] = [[]]"
| "split_on d (c # s) =
     (if c = d then [] # split_on d s
      else (case split_on d s of [] \<Rightarrow> [[c]] | w # ws \<Rightarrow> (c # w) # ws))"

fun join_with :: "rchar \<Rightarrow> rstr list \<Rightarrow> rstr" where
  "join_with d [] = []"
| "join_with d [w] = w"
| "join_with d (w # ws) = w @ d # join_with d ws"

lemma split_on_nonempty [simp]: "split_on d s \<noteq> []"
  by (cases s) (auto split: list.split)

lemma split_on_plain: "d \<notin> set w \<Longrightarrow> split_on d w = [w]"
  by (induction w) auto

lemma split_on_append: "d \<notin> set w \<Longrightarrow> split_on d (w @ d # s) = w # split_on d s"
  by (induction w) (auto split: list.split)

lemma split_join: "ws \<noteq> [] \<Longrightarrow> \<forall>w \<in> set ws. d \<notin> set w \<Longrightarrow> split_on d (join_with d ws) = ws"
  by (induction d ws rule: join_with.induct) (auto simp: split_on_plain split_on_append)

end
