(* ===== verification/Deps.thy ===== *)
theory Deps
  imports RustStd
begin

text \<open>
  The third-party crates AirClip calls are parameters of the model: the record
  \<open>deps\<close> has one field per library function the sources use (x25519-dalek, blake3, hkdf,
  chacha20poly1305, ciborium, base64, hex), and every operation that reaches one takes the
  record as its first argument. What the code relies on is stated as named predicates on
  that record, each a documented property of the library; a theorem that needs one has it
  as a hypothesis.

  \<open>Value\<close> is ciborium's data model, which the sources build and match on.
\<close>

section \<open>The CBOR data model\<close>

datatype Value =
    VInteger int
  | VBytes bytes
  | VFloat u64
  | VText rstr
  | VBool bool
  | VNull
  | VTag u64 Value
  | VArray "Value list"
  | VMap "(Value \<times> Value) list"

text \<open>
  The values a writer and a reader are documented to carry faithfully: integers in CBOR's
  range, well-formed text, lengths that fit the 64-bit head, and nesting far below the
  reader's recursion limit. Floats, tags and the simple values do not occur in AirClip
  payloads and are left out.
\<close>

fun cbor_plain :: "Value \<Rightarrow> bool" where
  "cbor_plain (VInteger i) \<longleftrightarrow> - (2 ^ 64) \<le> i \<and> i < 2 ^ 64"
| "cbor_plain (VBytes b) \<longleftrightarrow> length b < 2 ^ 64"
| "cbor_plain (VText s) \<longleftrightarrow> valid_str s \<and> str_len s < 2 ^ 64"
| "cbor_plain (VArray vs) \<longleftrightarrow> length vs < 2 ^ 64 \<and> list_all cbor_plain vs"
| "cbor_plain (VMap kvs) \<longleftrightarrow>
     length kvs < 2 ^ 64 \<and> list_all (\<lambda>(k, v). cbor_plain k \<and> cbor_plain v) kvs"
| "cbor_plain (VFloat x) \<longleftrightarrow> False"
| "cbor_plain (VBool b) \<longleftrightarrow> False"
| "cbor_plain VNull \<longleftrightarrow> False"
| "cbor_plain (VTag t v) \<longleftrightarrow> False"

fun value_depth :: "Value \<Rightarrow> nat" where
  "value_depth (VArray vs) = Suc (foldr (\<lambda>v n. max (value_depth v) n) vs 0)"
| "value_depth (VMap kvs) =
     Suc (foldr (\<lambda>(k, v) n. max (max (value_depth k) (value_depth v)) n) kvs 0)"
| "value_depth (VTag t v) = Suc (value_depth v)"
| "value_depth v = 0"

text \<open>
  An upper bound for the encoded size: a head is at most nine bytes, followed by the
  contents (RFC 8949, section 3).
\<close>

fun cbor_bound :: "Value \<Rightarrow> nat" where
  "cbor_bound (VBytes b) = 9 + length b"
| "cbor_bound (VText s) = 9 + str_len s"
| "cbor_bound (VArray vs) = 9 + sum_list (map cbor_bound vs)"
| "cbor_bound (VMap kvs) = 9 + sum_list (map (\<lambda>(k, v). cbor_bound k + cbor_bound v) kvs)"
| "cbor_bound (VTag t v) = 9 + cbor_bound v"
| "cbor_bound v = 9"

definition max_payload_depth :: nat where
  "max_payload_depth = 8"

section \<open>URLs\<close>

text \<open>What the sources read of a parsed URL, and the form decoding of its query values.\<close>

record UrlParts =
  url_scheme :: rstr
  url_host :: "rstr option"
  url_query_pairs :: "(rstr \<times> rstr) list"

definition hex_val :: "rchar \<Rightarrow> nat option" where
  "hex_val c = (if 48 \<le> c \<and> c \<le> 57 then Some (c - 48)
     else if 97 \<le> c \<and> c \<le> 102 then Some (c - 87)
     else if 65 \<le> c \<and> c \<le> 70 then Some (c - 55) else None)"

fun percent_decode :: "rstr \<Rightarrow> bytes" where
  "percent_decode [] = []"
| "percent_decode (c # cs) =
     (if c = 43 then 32 # percent_decode cs
      else if c = 37 then
        (case cs of
           h # l # r \<Rightarrow>
             (case (hex_val h, hex_val l) of
                (Some x, Some y) \<Rightarrow> of_nat (16 * x + y) # percent_decode r
              | _ \<Rightarrow> 37 # percent_decode cs)
         | _ \<Rightarrow> 37 # percent_decode cs)
      else utf8_char c @ percent_decode cs)"

definition form_decode :: "rstr \<Rightarrow> rstr" where
  "form_decode s = from_utf8_lossy (percent_decode s)"

text \<open>Characters that stand for themselves in a query, and those of an encoded value.\<close>

definition unreserved :: "rchar \<Rightarrow> bool" where
  "unreserved c \<longleftrightarrow> 65 \<le> c \<and> c \<le> 90 \<or> 97 \<le> c \<and> c \<le> 122 \<or> 48 \<le> c \<and> c \<le> 57 \<or>
     c = 45 \<or> c = 95 \<or> c = 46 \<or> c = 126"

definition query_char :: "rchar \<Rightarrow> bool" where
  "query_char c \<longleftrightarrow> unreserved c \<or> c = 37"

lemma unreserved_hex: "list_all unreserved (concat (map fmt_02x b))"
proof -
  have "unreserved (hex_digit n)" if "n < 16" for n
    using that by (simp add: unreserved_def hex_digit_def)
  moreover have "unat x div 16 < 16" for x :: byte using unat_bound [of x] by simp
  ultimately show ?thesis by (induction b) (simp_all add: fmt_02x_def)
qed

section \<open>The parameter record\<close>

record deps =
  x25519_public :: "bytes \<Rightarrow> bytes"
  x25519_dh :: "bytes \<Rightarrow> bytes \<Rightarrow> bytes"
  blake3_hash :: "bytes \<Rightarrow> bytes"
  blake3_keyed_hash :: "bytes \<Rightarrow> bytes \<Rightarrow> bytes"
  hkdf_sha256 :: "bytes \<Rightarrow> bytes \<Rightarrow> bytes \<Rightarrow> nat \<Rightarrow> bytes option"
  chacha_encrypt :: "bytes \<Rightarrow> bytes \<Rightarrow> bytes \<Rightarrow> bytes \<Rightarrow> bytes option"
  chacha_decrypt :: "bytes \<Rightarrow> bytes \<Rightarrow> bytes \<Rightarrow> bytes \<Rightarrow> bytes option"
  cbor_into_writer :: "Value \<Rightarrow> rstr + bytes"
  cbor_from_reader :: "bytes \<Rightarrow> rstr + Value"
  base64url_encode :: "bytes \<Rightarrow> rstr"
  base64url_decode :: "rstr \<Rightarrow> bytes option"
  hex_decode :: "rstr \<Rightarrow> bytes option"
  url_parse :: "rstr \<Rightarrow> rstr + UrlParts"

section \<open>Documented behaviour, as named hypotheses\<close>

text \<open>X25519 agrees: both parties compute the same secret from the other's public key.\<close>

definition dh_agrees :: "deps \<Rightarrow> bool" where
  "dh_agrees d \<longleftrightarrow>
     (\<forall>a b. length a = 32 \<and> length b = 32 \<longrightarrow>
        x25519_dh d a (x25519_public d b) = x25519_dh d b (x25519_public d a))"

text \<open>Output widths: keys, shared secrets and BLAKE3 digests are 32 bytes.\<close>

definition fixed_widths :: "deps \<Rightarrow> bool" where
  "fixed_widths d \<longleftrightarrow>
     (\<forall>a. length (x25519_public d a) = 32) \<and>
     (\<forall>a b. length (x25519_dh d a b) = 32) \<and>
     (\<forall>m. length (blake3_hash d m) = 32) \<and>
     (\<forall>k m. length (blake3_keyed_hash d k m) = 32)"

text \<open>HKDF-SHA256 expansion succeeds up to 255 hash blocks (RFC 5869).\<close>

definition hkdf_expands :: "deps \<Rightarrow> bool" where
  "hkdf_expands d \<longleftrightarrow>
     (\<forall>salt ikm info n. n \<le> 255 * 32 \<longrightarrow>
        (\<exists>okm. hkdf_sha256 d salt ikm info n = Some okm \<and> length okm = n))"

text \<open>AEAD correctness: what was encrypted under a key, nonce and associated data decrypts.\<close>

definition aead_correct :: "deps \<Rightarrow> bool" where
  "aead_correct d \<longleftrightarrow>
     (\<forall>k n a m c. chacha_encrypt d k n a m = Some c \<longrightarrow> chacha_decrypt d k n a c = Some m)"

text \<open>
  ChaCha20-Poly1305 encrypts every message up to its length limit (far above what occurs
  here) and appends a 16-byte tag (RFC 8439).
\<close>

definition aead_seals :: "deps \<Rightarrow> bool" where
  "aead_seals d \<longleftrightarrow>
     (\<forall>k n a m. length m \<le> 2 ^ 32 \<longrightarrow>
        (\<exists>c. chacha_encrypt d k n a m = Some c \<and> length c = length m + 16))"

text \<open>
  CBOR fidelity: a plain value can be written, within the size bound, and reading the bytes
  returns it.
\<close>

definition cbor_faithful :: "deps \<Rightarrow> bool" where
  "cbor_faithful d \<longleftrightarrow>
     (\<forall>v. cbor_plain v \<and> value_depth v \<le> max_payload_depth \<longrightarrow>
        (\<exists>b. cbor_into_writer d v = Inr b \<and> length b \<le> cbor_bound v \<and>
           cbor_from_reader d b = Inr v))"

text \<open>The text encodings are inverted by their decoders.\<close>

definition base64_faithful :: "deps \<Rightarrow> bool" where
  "base64_faithful d \<longleftrightarrow>
     (\<forall>b. base64url_decode d (base64url_encode d b) = Some b \<and>
          list_all unreserved (base64url_encode d b))"

definition hex_faithful :: "deps \<Rightarrow> bool" where
  "hex_faithful d \<longleftrightarrow> (\<forall>b. hex_decode d (concat (map fmt_02x b)) = Some b)"

text \<open>
  Parsing a URL with the custom scheme: scheme and host come back as written, and the query
  pairs are the parts between the ampersands, form-decoded (WHATWG URL standard).
\<close>

definition query_string :: "(rstr \<times> rstr) list \<Rightarrow> rstr" where
  "query_string kvs = join_with 38 (map (\<lambda>(k, v). k @ 61 # v) kvs)"

definition url_faithful :: "deps \<Rightarrow> bool" where
  "url_faithful d \<longleftrightarrow>
     (\<forall>host kvs. host \<noteq> [] \<and> list_all (\<lambda>c. 97 \<le> c \<and> c \<le> 122) host \<and> kvs \<noteq> [] \<and>
        list_all (\<lambda>(k, v). k \<noteq> [] \<and> list_all unreserved k \<and> list_all query_char v) kvs \<longrightarrow>
        url_parse d (lit ''airclip://'' @ host @ 63 # query_string kvs) =
          Inr \<lparr> url_scheme = lit ''airclip'', url_host = Some host,
                url_query_pairs = map (\<lambda>(k, v). (k, form_decode v)) kvs \<rparr>)"

lemma dh_agreesD:
  "dh_agrees d \<Longrightarrow> length a = 32 \<Longrightarrow> length b = 32 \<Longrightarrow>
     x25519_dh d a (x25519_public d b) = x25519_dh d b (x25519_public d a)"
  by (simp add: dh_agrees_def)

lemma fixed_widthsD:
  assumes "fixed_widths d"
  shows "length (x25519_public d a) = 32" "length (x25519_dh d a b) = 32"
    "length (blake3_hash d m) = 32" "length (blake3_keyed_hash d a m) = 32"
  using assms by (simp_all add: fixed_widths_def)

lemma hkdf_expandsD:
  "hkdf_expands d \<Longrightarrow> n \<le> 255 * 32 \<Longrightarrow>
     \<exists>okm. hkdf_sha256 d salt ikm info n = Some okm \<and> length okm = n"
  by (simp add: hkdf_expands_def)

lemma aead_correctD:
  "aead_correct d \<Longrightarrow> chacha_encrypt d k n a m = Some c \<Longrightarrow> chacha_decrypt d k n a c = Some m"
  by (simp add: aead_correct_def)

lemma cbor_faithfulD:
  "cbor_faithful d \<Longrightarrow> cbor_plain v \<Longrightarrow> value_depth v \<le> max_payload_depth \<Longrightarrow>
     \<exists>b. cbor_into_writer d v = Inr b \<and> length b \<le> cbor_bound v \<and> cbor_from_reader d b = Inr v"
  by (simp add: cbor_faithful_def)

lemma aead_sealsD:
  "aead_seals d \<Longrightarrow> length m \<le> 2 ^ 32 \<Longrightarrow>
     \<exists>c. chacha_encrypt d k n a m = Some c \<and> length c = length m + 16"
  by (simp add: aead_seals_def)

text \<open>The contracts of the libraries the protocol uses, together.\<close>

definition deps_ok :: "deps \<Rightarrow> bool" where
  "deps_ok d \<longleftrightarrow> dh_agrees d \<and> fixed_widths d \<and> hkdf_expands d \<and> aead_correct d \<and>
     aead_seals d \<and> cbor_faithful d"

lemma deps_okD:
  assumes "deps_ok d"
  shows "dh_agrees d" "fixed_widths d" "hkdf_expands d" "aead_correct d" "aead_seals d"
    "cbor_faithful d"
  using assms by (simp_all add: deps_ok_def)

end
