(* ===== verification/Core.thy ===== *)
theory Core
  imports Deps
begin

text \<open>
  The crate root and the error types (\<open>lib.rs\<close>, \<open>error.rs\<close>): protocol constants, roles,
  device identifiers, clipboard content types, the crate's error enum and the wire error
  codes.
\<close>

section \<open>Constants\<close>

definition PROTOCOL_VERSION :: u8 where "PROTOCOL_VERSION = 1"
definition DEFAULT_PORT :: u16 where "DEFAULT_PORT = 49517"
definition MDNS_SERVICE :: string where "MDNS_SERVICE = ''_airclip._tcp.local.''"
definition MAX_FRAME_LEN :: u32 where "MAX_FRAME_LEN = 1048576"
definition MAX_TEXT_CLIP :: nat where "MAX_TEXT_CLIP = 262144"
definition STAGE_DEPTH :: nat where "STAGE_DEPTH = 5"

lemmas core_consts = PROTOCOL_VERSION_def DEFAULT_PORT_def MAX_FRAME_LEN_def
  MAX_TEXT_CLIP_def STAGE_DEPTH_def

lemma unat_MAX_FRAME_LEN [wire_consts]: "unat MAX_FRAME_LEN = 1048576"
  by (simp add: MAX_FRAME_LEN_def)

lemma MAX_TEXT_CLIP_val [wire_consts]: "MAX_TEXT_CLIP = 262144"
  by (simp add: MAX_TEXT_CLIP_def)

section \<open>Errors\<close>

datatype WireErrorCode =
  UnsupportedVersion | NotPaired | BadToken | WireFrameTooLarge | RateLimited | Internal

fun WireErrorCode_as_u16 :: "WireErrorCode \<Rightarrow> u16" where
  "WireErrorCode_as_u16 UnsupportedVersion = 1"
| "WireErrorCode_as_u16 NotPaired = 2"
| "WireErrorCode_as_u16 BadToken = 3"
| "WireErrorCode_as_u16 WireFrameTooLarge = 4"
| "WireErrorCode_as_u16 RateLimited = 5"
| "WireErrorCode_as_u16 Internal = 6"

datatype Error =
    BadMagic
  | FrameTooLarge u32
  | UnknownFrameType u8
  | UnknownContentType u8
  | Cbor rstr
  | Crypto
  | PeerErr u16 rstr
  | Io rstr

type_synonym 'a result = "Error + 'a"

text \<open>\<open>Display\<close> of the error, as derived by \<open>thiserror\<close>.\<close>

fun Error_to_string :: "Error \<Rightarrow> rstr" where
  "Error_to_string BadMagic = lit ''bad frame magic''"
| "Error_to_string (FrameTooLarge n) =
     lit ''frame length '' @ show_nat (unat n) @ lit '' exceeds MAX_FRAME_LEN''"
| "Error_to_string (UnknownFrameType t) = lit ''unknown frame type 0x'' @ fmt_02x t"
| "Error_to_string (UnknownContentType t) = lit ''unknown content type '' @ show_nat (unat t)"
| "Error_to_string (Cbor e) = lit ''cbor: '' @ e"
| "Error_to_string Crypto = lit ''crypto failure''"
| "Error_to_string (PeerErr code msg) =
     lit ''peer sent wire error '' @ show_nat (unat code) @ lit '': '' @ msg"
| "Error_to_string (Io e) = lit ''io: '' @ e"

section \<open>Roles, device identifiers, content types\<close>

datatype Role = Phone | Pc

datatype DeviceId = DeviceId (device_bytes: bytes)

definition DeviceId_hex :: "DeviceId \<Rightarrow> rstr" where
  "DeviceId_hex i = concat (map fmt_02x (device_bytes i))"

datatype ContentType = Text | Url

fun ContentType_as_u8 :: "ContentType \<Rightarrow> u8" where
  "ContentType_as_u8 Text = 1"
| "ContentType_as_u8 Url = 2"

definition ContentType_try_from :: "u8 \<Rightarrow> ContentType result" where
  "ContentType_try_from v =
     (if v = 1 then Inr Text
      else if v = 2 then Inr Url
      else Inl (UnknownContentType v))"

lemma ContentType_roundtrip [simp]: "ContentType_try_from (ContentType_as_u8 c) = Inr c"
  by (cases c) (simp_all add: ContentType_try_from_def)

lemma ContentType_try_from_Inr:
  "ContentType_try_from v = Inr c \<longleftrightarrow> v = ContentType_as_u8 c"
  by (cases c) (auto simp: ContentType_try_from_def)

lemma DeviceId_hex_length [simp]: "length (DeviceId_hex i) = 2 * length (device_bytes i)"
  by (cases i) (auto simp: DeviceId_hex_def fmt_02x_def length_concat comp_def sum_list_triv)

lemma concat_fmt_02x_inject:
  "concat (map fmt_02x xs) = concat (map fmt_02x ys) \<longleftrightarrow> xs = ys"
proof (induction xs arbitrary: ys)
  case Nil
  then show ?case by (cases ys) (auto simp: fmt_02x_def)
next
  case (Cons x xs)
  show ?case
  proof (cases ys)
    case Nil
    then show ?thesis by (simp add: fmt_02x_def)
  next
    case (Cons y zs)
    have "length (fmt_02x x) = length (fmt_02x y)" by (simp add: fmt_02x_def)
    then show ?thesis
      using Cons.IH [of zs] by (simp add: Cons fmt_02x_inject)
  qed
qed

lemma DeviceId_hex_inject [simp]: "DeviceId_hex i = DeviceId_hex j \<longleftrightarrow> i = j"
  by (cases i; cases j) (simp add: DeviceId_hex_def concat_fmt_02x_inject)

end
