(* ===== verification/Frame.thy ===== *)
theory Frame
  imports Core
begin

text \<open>
  The frame codec (\<open>frame.rs\<close>): frame types with their wire codes, the one-shot
  \<open>Frame::encode\<close>/\<open>Frame::decode\<close> and the streaming \<open>FrameCodec\<close> that works on a
  growing buffer.

  The locale \<open>wire_codec\<close> is the contract between a codec and whoever reads frames off a
  byte stream: what an encoded frame decodes to, when the decoder asks for more bytes, and
  what it consumed. Its lemmas are about the read loop, for every codec that meets the
  contract; both decoders of the file are shown to meet it.
\<close>

section \<open>Frame types\<close>

definition MAGIC :: bytes where "MAGIC = map (of_nat \<circ> of_char) ''ACP1''"
definition HEADER_LEN :: nat where "HEADER_LEN = 9"

datatype FrameType =
    Hello | HelloAck | PairReq | PairAck | PairConfirm
  | ClipPush | ClipAck | StageListReq | StageList | StageGet | StageItem
  | Ping | Pong | ErrorFrame

fun FrameType_as_u8 :: "FrameType \<Rightarrow> u8" where
  "FrameType_as_u8 Hello = 0x01"
| "FrameType_as_u8 HelloAck = 0x02"
| "FrameType_as_u8 PairReq = 0x10"
| "FrameType_as_u8 PairAck = 0x11"
| "FrameType_as_u8 PairConfirm = 0x12"
| "FrameType_as_u8 ClipPush = 0x20"
| "FrameType_as_u8 ClipAck = 0x21"
| "FrameType_as_u8 StageListReq = 0x22"
| "FrameType_as_u8 StageList = 0x23"
| "FrameType_as_u8 StageGet = 0x24"
| "FrameType_as_u8 StageItem = 0x25"
| "FrameType_as_u8 Ping = 0x30"
| "FrameType_as_u8 Pong = 0x31"
| "FrameType_as_u8 ErrorFrame = 0x3F"

definition FrameType_is_encrypted :: "FrameType \<Rightarrow> bool" where
  "FrameType_is_encrypted t \<longleftrightarrow> FrameType_as_u8 t \<ge> 0x20"

definition FrameType_ALL :: "FrameType list" where
  "FrameType_ALL =
     [Hello, HelloAck, PairReq, PairAck, PairConfirm, ClipPush, ClipAck, StageListReq,
      StageList, StageGet, StageItem, Ping, Pong, ErrorFrame]"

definition FrameType_try_from :: "u8 \<Rightarrow> FrameType result" where
  "FrameType_try_from v =
     (if v = 0x01 then Inr Hello
      else if v = 0x02 then Inr HelloAck
      else if v = 0x10 then Inr PairReq
      else if v = 0x11 then Inr PairAck
      else if v = 0x12 then Inr PairConfirm
      else if v = 0x20 then Inr ClipPush
      else if v = 0x21 then Inr ClipAck
      else if v = 0x22 then Inr StageListReq
      else if v = 0x23 then Inr StageList
      else if v = 0x24 then Inr StageGet
      else if v = 0x25 then Inr StageItem
      else if v = 0x30 then Inr Ping
      else if v = 0x31 then Inr Pong
      else if v = 0x3F then Inr ErrorFrame
      else Inl (UnknownFrameType v))"

section \<open>Frames\<close>

record Frame =
  frame_ty :: FrameType
  frame_payload :: bytes

definition Frame_new :: "FrameType \<Rightarrow> bytes \<Rightarrow> Frame" where
  "Frame_new t p = \<lparr>frame_ty = t, frame_payload = p\<rparr>"

definition Frame_encode :: "Frame \<Rightarrow> bytes" where
  "Frame_encode f =
     MAGIC @ [FrameType_as_u8 (frame_ty f)] @
     u32_to_le_bytes (of_nat (length (frame_payload f))) @ frame_payload f"

definition Frame_decode :: "bytes \<Rightarrow> (Frame \<times> nat) option result" where
  "Frame_decode buf =
     (if length buf < HEADER_LEN then Inr None
      else if take 4 buf \<noteq> MAGIC then Inl BadMagic
      else try_r (FrameType_try_from (buf ! 4)) (\<lambda>t.
        let len = u32_from_le_bytes [buf ! 5, buf ! 6, buf ! 7, buf ! 8] in
        if len > MAX_FRAME_LEN then Inl (FrameTooLarge len)
        else
          let total = HEADER_LEN + unat len in
          if length buf < total then Inr None
          else Inr (Some (\<lparr>frame_ty = t, frame_payload = take (total - HEADER_LEN) (drop HEADER_LEN buf)\<rparr>,
                          total))))"

text \<open>
  The codec works on a buffer it owns: the first component of the result is the buffer
  after the call (\<open>advance\<close> and \<open>split_to\<close> drop what was consumed).
\<close>

definition FrameCodec_decode :: "bytes \<Rightarrow> bytes \<times> Frame option result" where
  "FrameCodec_decode src =
     (if length src < HEADER_LEN then (src, Inr None)
      else if take 4 src \<noteq> MAGIC then (src, Inl BadMagic)
      else case FrameType_try_from (src ! 4) of
        Inl e \<Rightarrow> (src, Inl e)
      | Inr t \<Rightarrow>
          let len = u32_from_le_bytes [src ! 5, src ! 6, src ! 7, src ! 8] in
          if len > MAX_FRAME_LEN then (src, Inl (FrameTooLarge len))
          else
            let total = HEADER_LEN + unat len in
            if length src < total then (src, Inr None)
            else
              let src1 = drop HEADER_LEN src;
                  payload = take (unat len) src1
              in (drop (unat len) src1, Inr (Some \<lparr>frame_ty = t, frame_payload = payload\<rparr>)))"

definition FrameCodec_encode :: "Frame \<Rightarrow> bytes \<Rightarrow> bytes \<times> unit result" where
  "FrameCodec_encode item dst =
     (let len = length (frame_payload item) in
      if len > unat MAX_FRAME_LEN then (dst, Inl (FrameTooLarge (of_nat len)))
      else
        (dst @ MAGIC @ [FrameType_as_u8 (frame_ty item)] @ u32_to_le_bytes (of_nat len) @
           frame_payload item,
         Inr ()))"

definition frame_fits :: "Frame \<Rightarrow> bool" where
  "frame_fits f \<longleftrightarrow> length (frame_payload f) \<le> unat MAX_FRAME_LEN"

text \<open>
  The read loop \<open>while let Ok(Some(f)) = codec.decode(&mut buf)\<close>: the frames it yields, the
  buffer it leaves and the error that stopped it, if one did. The fuel bounds the number of
  iterations; one more than the length of the buffer is always enough, because a decoded
  frame consumes at least its header.
\<close>

fun pump :: "(bytes \<Rightarrow> bytes \<times> ('e + 'f option)) \<Rightarrow> nat \<Rightarrow> bytes \<Rightarrow> 'f list \<times> bytes \<times> 'e option" where
  "pump dec 0 buf = ([], buf, None)"
| "pump dec (Suc n) buf =
     (case dec buf of
        (b, Inl e) \<Rightarrow> ([], b, Some e)
      | (b, Inr None) \<Rightarrow> ([], b, None)
      | (b, Inr (Some f)) \<Rightarrow> (case pump dec n b of (fs, r, st) \<Rightarrow> (f # fs, r, st)))"

definition drain_frames :: "bytes \<Rightarrow> Frame list \<times> bytes \<times> Error option" where
  "drain_frames buf = pump FrameCodec_decode (Suc (length buf)) buf"

text \<open>
  A reader on a socket: each chunk that arrives is appended to the buffer and the loop
  drains what is complete.
\<close>

fun feed :: "bytes \<Rightarrow> bytes list \<Rightarrow> Frame list \<times> bytes" where
  "feed buf [] = ([], buf)"
| "feed buf (c # cs) =
     (case drain_frames (buf @ c) of
        (fs, r, Some e) \<Rightarrow> (fs, r)
      | (fs, r, None) \<Rightarrow> (case feed r cs of (gs, r') \<Rightarrow> (fs @ gs, r')))"

section \<open>The contract of a codec\<close>

locale wire_codec =
  fixes enc :: "'f \<Rightarrow> bytes"
    and dec :: "bytes \<Rightarrow> bytes \<times> ('e + 'f option)"
    and fits :: "'f \<Rightarrow> bool"
  assumes dec_enc: "fits f \<Longrightarrow> dec (enc f @ rest) = (rest, Inr (Some f))"
    and dec_short: "fits f \<Longrightarrow> n < length (enc f) \<Longrightarrow> dec (take n (enc f)) = (take n (enc f), Inr None)"
    and dec_some: "dec buf = (r, Inr (Some f)) \<Longrightarrow> fits f \<and> buf = enc f @ r"
    and dec_keep: "dec buf = (r, x) \<Longrightarrow> (\<forall>f. x \<noteq> Inr (Some f)) \<Longrightarrow> r = buf"
    and enc_nonempty: "enc f \<noteq> []"
begin

lemma enc_inj:
  assumes "fits f" "fits g" "enc f @ xs = enc g @ ys"
  shows "f = g \<and> xs = ys"
proof -
  have "(xs, Inr (Some f)) = (ys, Inr (Some g) :: 'e + 'f option)"
    using dec_enc [OF assms(1), of xs] dec_enc [OF assms(2), of ys] unfolding assms(3)
    by (rule trans [OF sym])
  then show ?thesis by simp
qed

lemma dec_shrinks:
  assumes "dec buf = (r, Inr (Some f))"
  shows "length r < length buf"
proof -
  have "buf = enc f @ r" using dec_some [OF assms] by blast
  then show ?thesis using enc_nonempty [of f] by simp
qed

text \<open>Enough fuel: the loop ends with a buffer its guard rejects.\<close>

lemma pump_stops:
  assumes "length buf < n" "pump dec n buf = (fs, r, st)"
  shows "\<exists>x. dec r = (r, x) \<and> (\<forall>f. x \<noteq> Inr (Some f)) \<and>
    (case st of Some e \<Rightarrow> x = Inl e | None \<Rightarrow> x = Inr None)"
  using assms
proof (induction n arbitrary: buf fs)
  case 0
  then show ?case by simp
next
  case (Suc n)
  obtain b x where bx: "dec buf = (b, x)" by fastforce
  show ?case
  proof (cases "\<exists>f. x = Inr (Some f)")
    case True
    then obtain f where f: "x = Inr (Some f)" by blast
    then obtain gs where gs: "pump dec n b = (gs, r, st)"
      using Suc.prems(2) bx by (auto split: prod.splits)
    have "length b < length buf" using bx f by (simp add: dec_shrinks)
    then have "length b < n" using Suc.prems(1) by simp
    then show ?thesis using gs by (rule Suc.IH)
  next
    case False
    then have "b = buf" using dec_keep bx by blast
    then show ?thesis using Suc.prems(2) bx False
      by (auto split: sum.splits option.splits)
  qed
qed

lemma pump_sound:
  "pump dec n buf = (fs, r, st) \<Longrightarrow> list_all fits fs \<and> buf = concat (map enc fs) @ r"
proof (induction n arbitrary: buf fs)
  case 0
  then show ?case by simp
next
  case (Suc n)
  obtain b x where bx: "dec buf = (b, x)" by fastforce
  show ?case
  proof (cases "\<exists>f. x = Inr (Some f)")
    case True
    then obtain f gs where f: "x = Inr (Some f)" and gs: "pump dec n b = (gs, r, st)" "fs = f # gs"
      using Suc.prems bx by (auto split: prod.splits)
    then show ?thesis using Suc.IH [OF gs(1)] dec_some bx f by auto
  next
    case False
    then have "b = buf" using dec_keep bx by blast
    then show ?thesis using Suc.prems bx False
      by (auto split: sum.splits option.splits)
  qed
qed

lemma pump_complete:
  assumes "list_all fits fs" "fits g" "n < length (enc g)" "length fs < m"
  shows "pump dec m (concat (map enc fs) @ take n (enc g)) = (fs, take n (enc g), None)"
  using assms(1,4)
proof (induction fs arbitrary: m)
  case Nil
  then obtain k where "m = Suc k" by (cases m) auto
  then show ?case by (simp add: dec_short assms)
next
  case (Cons f fs)
  then obtain k where "m = Suc k" "length fs < k" by (cases m) auto
  then show ?case using Cons by (simp add: dec_enc)
qed

text \<open>Any cut of a stream of frames falls after some whole frames, inside the next one.\<close>

lemma stream_cut:
  assumes "xs @ ys = concat (map enc fs)"
  shows "\<exists>gs hs p. fs = gs @ hs \<and> xs = concat (map enc gs) @ p \<and> p @ ys = concat (map enc hs) \<and>
    (case hs of [] \<Rightarrow> p = [] | h # _ \<Rightarrow> length p < length (enc h) \<and> p = take (length p) (enc h))"
  using assms
proof (induction fs arbitrary: xs)
  case Nil
  then show ?case by auto
next
  case (Cons f fs)
  show ?case
  proof (cases "length xs < length (enc f)")
    case True
    have "xs = take (length xs) (concat (map enc (f # fs)))"
      by (simp only: Cons.prems [symmetric]) simp
    with True have "xs = take (length xs) (enc f)" by simp
    then show ?thesis
      using True Cons.prems by (intro exI [of _ "[]"] exI [of _ "f # fs"] exI [of _ xs]) auto
  next
    case False
    have "take (length (enc f)) (xs @ ys) = enc f"
      by (simp only: Cons.prems) simp
    with False have "take (length (enc f)) xs = enc f" by simp
    then obtain zs where zs: "xs = enc f @ zs"
      by (metis append_take_drop_id)
    then have "zs @ ys = concat (map enc fs)" using Cons.prems by simp
    from Cons.IH [OF this] obtain gs hs p where
      *: "fs = gs @ hs" "zs = concat (map enc gs) @ p" "p @ ys = concat (map enc hs)"
        "case hs of [] \<Rightarrow> p = [] | h # _ \<Rightarrow> length p < length (enc h) \<and> p = take (length p) (enc h)"
      by blast
    then show ?thesis
      by (intro exI [of _ "f # gs"] exI [of _ hs] exI [of _ p]) (simp add: zs)
  qed
qed

end

section \<open>Frame types: codes and classes\<close>

lemma FrameType_roundtrip [simp]: "FrameType_try_from (FrameType_as_u8 t) = Inr t"
  by (cases t) (simp_all add: FrameType_try_from_def)

lemma FrameType_try_from_Inr: "FrameType_try_from v = Inr t \<longleftrightarrow> v = FrameType_as_u8 t"
proof
  assume "FrameType_try_from v = Inr t"
  then show "v = FrameType_as_u8 t"
    unfolding FrameType_try_from_def by (auto split: if_splits)
qed simp

lemma FrameType_as_u8_inject [simp]: "FrameType_as_u8 s = FrameType_as_u8 t \<longleftrightarrow> s = t"
  by (metis FrameType_roundtrip sum.inject(2))

lemma FrameType_is_encrypted_simps [simp]:
  "FrameType_is_encrypted t \<longleftrightarrow> t \<notin> {Hello, HelloAck, PairReq, PairAck, PairConfirm}"
  by (cases t) (simp_all add: FrameType_is_encrypted_def word_le_nat_alt)

section \<open>The header\<close>

lemma length_MAGIC [simp]: "length MAGIC = 4"
  by (simp add: MAGIC_def)

lemma Frame_new_simps [simp]:
  "frame_ty (Frame_new t p) = t" "frame_payload (Frame_new t p) = p"
  by (simp_all add: Frame_new_def)

lemma header_split:
  assumes "HEADER_LEN \<le> length src" "take 4 src = MAGIC"
  obtains v l body where "src = MAGIC @ [v] @ l @ body" "length l = 4"
proof
  show "src = MAGIC @ [src ! 4] @ take 4 (drop 5 src) @ drop 9 src"
  proof -
    have "src = take 4 src @ drop 4 src" by simp
    also have "drop 4 src = src ! 4 # drop 5 src"
      using assms(1) by (simp add: HEADER_LEN_def Cons_nth_drop_Suc [symmetric])
    also have "drop 5 src = take 4 (drop 5 src) @ drop 9 src"
      using append_take_drop_id [of 4 "drop 5 src"] by simp
    finally show ?thesis using assms(2) by simp
  qed
  show "length (take 4 (drop 5 src)) = 4"
    using assms(1) by (simp add: HEADER_LEN_def)
qed

lemma list4: "length l = 4 \<Longrightarrow> \<exists>a b c e. l = [a, b, c, e]"
  by (auto simp: numeral_eq_Suc length_Suc_conv)

lemma header_nth:
  assumes "length l = 4"
  shows "(MAGIC @ [v] @ l @ body) ! 4 = v"
    "[(MAGIC @ [v] @ l @ body) ! 5, (MAGIC @ [v] @ l @ body) ! 6, (MAGIC @ [v] @ l @ body) ! 7,
      (MAGIC @ [v] @ l @ body) ! 8] = l"
    "take 4 (MAGIC @ [v] @ l @ body) = MAGIC"
    "drop HEADER_LEN (MAGIC @ [v] @ l @ body) = body"
    "length (MAGIC @ [v] @ l @ body) = HEADER_LEN + length body"
  using list4 [OF assms] by (auto simp: HEADER_LEN_def nth_append)

lemma FrameCodec_decode_header:
  assumes "length l = 4"
  shows "FrameCodec_decode (MAGIC @ [v] @ l @ body) =
    (case FrameType_try_from v of
       Inl e \<Rightarrow> (MAGIC @ [v] @ l @ body, Inl e)
     | Inr t \<Rightarrow>
         if u32_from_le_bytes l > MAX_FRAME_LEN
         then (MAGIC @ [v] @ l @ body, Inl (FrameTooLarge (u32_from_le_bytes l)))
         else if length body < unat (u32_from_le_bytes l) then (MAGIC @ [v] @ l @ body, Inr None)
         else (drop (unat (u32_from_le_bytes l)) body,
               Inr (Some \<lparr>frame_ty = t, frame_payload = take (unat (u32_from_le_bytes l)) body\<rparr>)))"
  unfolding FrameCodec_decode_def header_nth [OF assms] Let_def
  by (simp split: sum.split)

section \<open>Both decoders meet the contract\<close>

text \<open>The slice decoder, with the bytes it leaves made explicit.\<close>

definition Frame_decode_rest :: "bytes \<Rightarrow> bytes \<times> Frame option result" where
  "Frame_decode_rest buf =
     (case Frame_decode buf of
        Inl e \<Rightarrow> (buf, Inl e)
      | Inr None \<Rightarrow> (buf, Inr None)
      | Inr (Some (f, used)) \<Rightarrow> (drop used buf, Inr (Some f)))"

lemma Frame_encode_header:
  "Frame_encode f = MAGIC @ [FrameType_as_u8 (frame_ty f)] @
     u32_to_le_bytes (of_nat (length (frame_payload f))) @ frame_payload f"
  by (simp add: Frame_encode_def)

lemma length_Frame_encode [simp]: "length (Frame_encode f) = HEADER_LEN + length (frame_payload f)"
  by (simp add: Frame_encode_def HEADER_LEN_def)

lemma unat_payload_len:
  "n \<le> unat MAX_FRAME_LEN \<Longrightarrow> unat (of_nat n :: u32) = n"
  by (simp add: unat_of_nat wire_consts)

lemma payload_len_ok:
  "n \<le> unat MAX_FRAME_LEN \<Longrightarrow> \<not> (of_nat n :: u32) > MAX_FRAME_LEN"
  by (simp add: word_less_nat_alt unat_payload_len)

lemma codec_decode_encode:
  assumes "frame_fits f"
  shows "FrameCodec_decode (Frame_encode f @ rest) = (rest, Inr (Some f))"
proof -
  let ?n = "length (frame_payload f)"
  have n: "?n \<le> unat MAX_FRAME_LEN" using assms by (simp add: frame_fits_def)
  have "FrameCodec_decode (MAGIC @ [FrameType_as_u8 (frame_ty f)] @ u32_to_le_bytes (of_nat ?n) @
      (frame_payload f @ rest)) = (rest, Inr (Some f))"
    by (subst FrameCodec_decode_header) (simp_all add: payload_len_ok [OF n] unat_payload_len [OF n])
  then show ?thesis by (simp add: Frame_encode_def)
qed

lemma codec_decode_prefix:
  assumes "frame_fits f" "n < length (Frame_encode f)"
  shows "FrameCodec_decode (take n (Frame_encode f)) = (take n (Frame_encode f), Inr None)"
proof (cases "n < HEADER_LEN")
  case True
  then show ?thesis by (simp add: FrameCodec_decode_def)
next
  case False
  let ?p = "frame_payload f"
  define l :: bytes where "l = u32_to_le_bytes (of_nat (length ?p))"
  have p: "length ?p \<le> unat MAX_FRAME_LEN" using assms(1) by (simp add: frame_fits_def)
  have l: "length l = 4" "u32_from_le_bytes l = of_nat (length ?p)" by (simp_all add: l_def)
  have "take n (Frame_encode f) = MAGIC @ [FrameType_as_u8 (frame_ty f)] @ l @ take (n - HEADER_LEN) ?p"
    using False by (simp add: Frame_encode_def HEADER_LEN_def l_def take_Cons')
  moreover have "length (take (n - HEADER_LEN) ?p) < length ?p"
    using False assms(2) by simp
  ultimately show ?thesis
    using FrameCodec_decode_header [OF l(1)] payload_len_ok [OF p] unat_payload_len [OF p] l(2)
    by simp
qed

lemma codec_decode_some:
  assumes "FrameCodec_decode buf = (r, Inr (Some f))"
  shows "frame_fits f \<and> buf = Frame_encode f @ r"
proof -
  have "HEADER_LEN \<le> length buf" "take 4 buf = MAGIC"
    using assms by (auto simp: FrameCodec_decode_def split: if_splits)
  then obtain v l body where buf: "buf = MAGIC @ [v] @ l @ body" and l: "length l = 4"
    by (rule header_split)
  define n where "n = u32_from_le_bytes l"
  have *: "FrameType_try_from v = Inr (frame_ty f)" "\<not> n > MAX_FRAME_LEN" "unat n \<le> length body"
    "r = drop (unat n) body" "frame_payload f = take (unat n) body"
    using assms unfolding buf FrameCodec_decode_header [OF l] n_def
    by (auto split: sum.splits if_splits)
  have len: "length (frame_payload f) = unat n" using * by simp
  have "of_nat (unat n) = n" by simp
  then have "u32_to_le_bytes (of_nat (length (frame_payload f))) = l"
    unfolding len n_def by (simp add: u32_to_from_le_bytes l)
  moreover have "v = FrameType_as_u8 (frame_ty f)" using *(1) by (simp add: FrameType_try_from_Inr)
  moreover have "body = frame_payload f @ r" using * by simp
  ultimately have "buf = Frame_encode f @ r" by (simp add: buf Frame_encode_def)
  moreover have "frame_fits f"
    using *(2) len by (simp add: frame_fits_def word_less_nat_alt not_less)
  ultimately show ?thesis by simp
qed

lemma codec_decode_keep:
  assumes "FrameCodec_decode buf = (r, x)" "\<forall>f. x \<noteq> Inr (Some f)"
  shows "r = buf"
  using assms by (auto simp: FrameCodec_decode_def Let_def split: if_splits sum.splits)

lemma Frame_decode_rest_eq: "Frame_decode_rest buf = FrameCodec_decode buf"
  by (auto simp: Frame_decode_rest_def Frame_decode_def FrameCodec_decode_def Let_def try_r_def
      HEADER_LEN_def add.commute split: sum.split)

interpretation codec: wire_codec Frame_encode FrameCodec_decode frame_fits
proof
  show "FrameCodec_decode (Frame_encode f @ rest) = (rest, Inr (Some f))" if "frame_fits f" for f rest
    using that by (rule codec_decode_encode)
  show "FrameCodec_decode (take n (Frame_encode f)) = (take n (Frame_encode f), Inr None)"
    if "frame_fits f" "n < length (Frame_encode f)" for f n
    using that by (rule codec_decode_prefix)
  show "frame_fits f \<and> buf = Frame_encode f @ r" if "FrameCodec_decode buf = (r, Inr (Some f))" for buf r f
    using that by (rule codec_decode_some)
  show "r = buf" if "FrameCodec_decode buf = (r, x)" "\<forall>f. x \<noteq> Inr (Some f)" for buf r x
    using that by (rule codec_decode_keep)
  show "Frame_encode f \<noteq> []" for f
    by (simp add: Frame_encode_def MAGIC_def)
qed

interpretation slice: wire_codec Frame_encode Frame_decode_rest frame_fits
proof -
  have "Frame_decode_rest = FrameCodec_decode" by (rule ext) (rule Frame_decode_rest_eq)
  then show "wire_codec Frame_encode Frame_decode_rest frame_fits"
    using codec.wire_codec_axioms by simp
qed

section \<open>Properties\<close>

lemma drain_prefix:
  assumes "list_all frame_fits fs" "frame_fits g" "n < length (Frame_encode g)"
  shows "drain_frames (concat (map Frame_encode fs) @ take n (Frame_encode g)) =
    (fs, take n (Frame_encode g), None)"
proof -
  let ?b = "concat (map Frame_encode fs)"
  have "length fs \<le> length ?b"
    by (induction fs) (simp_all add: HEADER_LEN_def)
  then show ?thesis
    using codec.pump_complete [OF assms, of "Suc (length (?b @ take n (Frame_encode g)))"]
    by (simp add: drain_frames_def)
qed

lemma drain_whole:
  assumes "list_all frame_fits fs"
  shows "drain_frames (concat (map Frame_encode fs)) = (fs, [], None)"
  using drain_prefix [OF assms, of "Frame_new Ping []" 0]
  by (simp add: frame_fits_def HEADER_LEN_def)

lemma feed_from_prefix:
  assumes "list_all frame_fits fs" "buf @ concat cs = concat (map Frame_encode fs)"
    "case fs of [] \<Rightarrow> buf = [] | h # _ \<Rightarrow> length buf < length (Frame_encode h)"
  shows "feed buf cs = (fs, [])"
  using assms
proof (induction cs arbitrary: buf fs)
  case Nil
  then have "fs = []"
    by (cases fs) auto
  with Nil show ?case by simp
next
  case (Cons c cs)
  have "(buf @ c) @ concat cs = concat (map Frame_encode fs)" using Cons.prems(2) by simp
  from codec.stream_cut [OF this] obtain gs hs p where
    *: "fs = gs @ hs" "buf @ c = concat (map Frame_encode gs) @ p" "p @ concat cs = concat (map Frame_encode hs)"
      "case hs of [] \<Rightarrow> p = []
       | h # _ \<Rightarrow> length p < length (Frame_encode h) \<and> p = take (length p) (Frame_encode h)"
    by blast
  have fits: "list_all frame_fits gs" "list_all frame_fits hs"
    using Cons.prems(1) *(1) by simp_all
  have "drain_frames (buf @ c) = (gs, p, None)"
  proof (cases hs)
    case Nil
    then show ?thesis using * fits drain_whole by simp
  next
    case (Cons h hs')
    then have "p = take (length p) (Frame_encode h)" "length p < length (Frame_encode h)" "frame_fits h"
      using * fits by auto
    then show ?thesis using drain_prefix [OF fits(1)] *(2) by metis
  qed
  moreover have "feed p cs = (hs, [])"
    using Cons.IH [OF fits(2) *(3)] *(4) by (auto split: list.splits)
  ultimately show ?case using *(1) by simp
qed

text \<open>
  C15: a stream of encoded frames is delivered whole and in order however the transport cuts
  it into chunks, and no byte is left over.
\<close>

theorem frames_survive_chunking:
  assumes "list_all frame_fits fs" "concat chunks = concat (map Frame_encode fs)"
  shows "feed [] chunks = (fs, [])"
proof (rule feed_from_prefix)
  show "case fs of [] \<Rightarrow> [] = ([] :: bytes) | h # _ \<Rightarrow> length ([] :: bytes) < length (Frame_encode h)"
    by (simp add: HEADER_LEN_def split: list.split)
qed (use assms in simp_all)

theorem frames_survive_chunking_witness:
  "feed [] [MAGIC @ [0x30, 0], [0, 0], [0] @ MAGIC @ [0x20, 1, 0, 0, 0], [7]] =
     ([Frame_new Ping [], Frame_new ClipPush [7]], [])"
  by (rule frames_survive_chunking)
    (simp_all add: frame_fits_def wire_consts Frame_encode_def u32_to_le_bytes_4)

text \<open>
  C14: the streaming codec refines the slice decoder: on every buffer both give the same
  frame or error, and the codec drops exactly the bytes the slice decoder reports as used.
\<close>

theorem codec_refines_slice_decoder:
  "FrameCodec_decode buf =
     (case Frame_decode buf of
        Inl e \<Rightarrow> (buf, Inl e)
      | Inr None \<Rightarrow> (buf, Inr None)
      | Inr (Some (f, used)) \<Rightarrow> (drop used buf, Inr (Some f)))"
  using Frame_decode_rest_eq [of buf] by (simp add: Frame_decode_rest_def)

text \<open>
  Decoding is canonical. A frame is accepted only from the bytes that encode it, within
  the size cap, and never from bytes beyond the buffer.
\<close>

theorem decode_accepts_only_encodings:
  assumes "Frame_decode buf = Inr (Some (f, used))"
  shows "used \<le> length buf \<and> take used buf = Frame_encode f \<and> length (frame_payload f) \<le> unat MAX_FRAME_LEN"
proof -
  have r: "Frame_decode_rest buf = (drop used buf, Inr (Some f))"
    using assms by (simp add: Frame_decode_rest_def)
  have fits: "frame_fits f" "buf = Frame_encode f @ drop used buf"
    using slice.dec_some [OF r] by simp_all
  have "used \<le> length buf" "used = HEADER_LEN + length (frame_payload f)"
    using assms by (auto simp: Frame_decode_def Let_def try_r_def min_def split: if_splits sum.splits)
  then have "take used buf = Frame_encode f"
    using fits(2) by (metis append_eq_conv_conj length_Frame_encode)
  then show ?thesis using \<open>used \<le> length buf\<close> fits(1) by (simp add: frame_fits_def)
qed

theorem decode_accepts_only_encodings_witness:
  "take 10 (MAGIC @ [0x20, 1, 0, 0, 0, 7, 9]) = Frame_encode (Frame_new ClipPush [7])"
proof -
  have "Frame_decode (MAGIC @ [0x20, 1, 0, 0, 0, 7, 9]) = Inr (Some (Frame_new ClipPush [7], 10))"
    by (simp add: Frame_decode_def HEADER_LEN_def MAGIC_def FrameType_try_from_def Let_def
        u32_from_le_bytes_def Frame_new_def core_consts)
  from decode_accepts_only_encodings [OF this] show ?thesis by simp
qed

text \<open>
  The read loop is total on arbitrary bytes. It ends with a buffer from which the
  decoder yields no further frame, the reported error is the decoder's, and every input byte
  is accounted for: the encodings of the frames delivered, then the buffer that is left.
\<close>

theorem read_loop_accounts_for_every_byte:
  assumes "drain_frames buf = (fs, rest, st)"
  shows "buf = concat (map Frame_encode fs) @ rest \<and>
    FrameCodec_decode rest = (rest, case st of Some e \<Rightarrow> Inl e | None \<Rightarrow> Inr None)"
proof -
  have p: "pump FrameCodec_decode (Suc (length buf)) buf = (fs, rest, st)"
    using assms by (simp add: drain_frames_def)
  have "buf = concat (map Frame_encode fs) @ rest"
    using codec.pump_sound [OF p] by simp
  moreover have "FrameCodec_decode rest = (rest, case st of Some e \<Rightarrow> Inl e | None \<Rightarrow> Inr None)"
    using codec.pump_stops [OF lessI p] by (auto split: option.splits)
  ultimately show ?thesis by simp
qed

theorem read_loop_accounts_for_every_byte_witness:
  "MAGIC @ [0x30, 0, 0, 0, 0, 0x41] = concat (map Frame_encode [Frame_new Ping []]) @ [0x41]"
proof -
  have *: "MAGIC @ [0x30, 0, 0, 0, 0, 0x41] =
      concat (map Frame_encode [Frame_new Ping []]) @ take 1 (Frame_encode (Frame_new Ping []))"
    by (simp add: Frame_encode_def u32_to_le_bytes_4 MAGIC_def)
  have "drain_frames (MAGIC @ [0x30, 0, 0, 0, 0, 0x41]) = ([Frame_new Ping []], [0x41], None)"
    unfolding *
    by (subst drain_prefix) (simp_all add: frame_fits_def Frame_encode_def HEADER_LEN_def MAGIC_def)
  from read_loop_accounts_for_every_byte [OF this] show ?thesis by simp
qed

text \<open>
  The size cap holds in both directions. The encoder appends the encoding of a payload of
  at most \<open>MAX_FRAME_LEN\<close> bytes and refuses a larger one without touching the buffer; the
  decoder refuses a larger length as soon as the header is there, whatever body bytes have
  arrived.
\<close>

theorem frame_size_cap:
  "FrameCodec_encode f dst =
     (if length (frame_payload f) \<le> 1048576 then (dst @ Frame_encode f, Inr ())
      else (dst, Inl (FrameTooLarge (of_nat (length (frame_payload f)))))) \<and>
   FrameCodec_decode (MAGIC @ [FrameType_as_u8 t] @ u32_to_le_bytes len @ body) =
     (if unat len > 1048576
      then (MAGIC @ [FrameType_as_u8 t] @ u32_to_le_bytes len @ body, Inl (FrameTooLarge len))
      else if length body < unat len
      then (MAGIC @ [FrameType_as_u8 t] @ u32_to_le_bytes len @ body, Inr None)
      else (drop (unat len) body, Inr (Some (Frame_new t (take (unat len) body)))))"
proof
  show "FrameCodec_encode f dst =
     (if length (frame_payload f) \<le> 1048576 then (dst @ Frame_encode f, Inr ())
      else (dst, Inl (FrameTooLarge (of_nat (length (frame_payload f))))))"
    by (simp add: FrameCodec_encode_def Frame_encode_def wire_consts Let_def)
next
  show "FrameCodec_decode (MAGIC @ [FrameType_as_u8 t] @ u32_to_le_bytes len @ body) =
     (if unat len > 1048576
      then (MAGIC @ [FrameType_as_u8 t] @ u32_to_le_bytes len @ body, Inl (FrameTooLarge len))
      else if length body < unat len
      then (MAGIC @ [FrameType_as_u8 t] @ u32_to_le_bytes len @ body, Inr None)
      else (drop (unat len) body, Inr (Some (Frame_new t (take (unat len) body)))))"
    by (subst FrameCodec_decode_header)
      (simp_all add: word_less_nat_alt wire_consts Frame_new_def)
qed

end
