(* ===== verification/Wire.thy ===== *)
theory Wire
  imports Frame
begin

text \<open>
  The framed socket both drivers own (\<open>Framed<TcpStream, FrameCodec>\<close>): what a wait for the
  next frame can return, and writing a frame. The socket is the environment: what a wait
  returned and whether a write failed are inputs of the drivers' definitions.
\<close>

datatype wire_next = NextFrame Frame | NextErr Error | NextClosed | NextTimeout

text \<open>
  \<open>wire.send(f).await\<close>, its error already turned into text: the codec's size check, then the
  socket, which fails with the given message or not.
\<close>

definition wire_send :: "rstr option \<Rightarrow> Frame \<Rightarrow> rstr + unit" where
  "wire_send err f =
     (case snd (FrameCodec_encode f []) of
        Inl e \<Rightarrow> Inl (Error_to_string e)
      | Inr u \<Rightarrow> (case err of Some e \<Rightarrow> Inl e | None \<Rightarrow> Inr ()))"

lemma wire_send_ok:
  "wire_send err f = Inr () \<longleftrightarrow> err = None \<and> length (frame_payload f) \<le> unat MAX_FRAME_LEN"
  by (auto simp: wire_send_def FrameCodec_encode_def Let_def word_le_nat_alt split: sum.splits option.splits)

end
