(* ===== verification/CborMap.thy ===== *)
theory CborMap
  imports Core
begin

text \<open>
  The CBOR map helpers (\<open>cbor.rs\<close>): a builder that appends integer-keyed entries in call
  order, and a reader that rejects anything but a map with distinct integer keys and gives
  typed access to its entries. The encoding itself is ciborium's, a parameter of the model.
\<close>

section \<open>Building\<close>

record MapBuilder =
  mb_entries :: "(Value \<times> Value) list"

definition MapBuilder_new :: MapBuilder where
  "MapBuilder_new = \<lparr>mb_entries = []\<rparr>"

definition MapBuilder_value :: "u64 \<Rightarrow> Value \<Rightarrow> MapBuilder \<Rightarrow> MapBuilder" where
  "MapBuilder_value key v b = b\<lparr>mb_entries := mb_entries b @ [(VInteger (uint key), v)]\<rparr>"

definition MapBuilder_bytes :: "u64 \<Rightarrow> bytes \<Rightarrow> MapBuilder \<Rightarrow> MapBuilder" where
  "MapBuilder_bytes key v b =
     b\<lparr>mb_entries := mb_entries b @ [(VInteger (uint key), VBytes v)]\<rparr>"

definition MapBuilder_text :: "u64 \<Rightarrow> rstr \<Rightarrow> MapBuilder \<Rightarrow> MapBuilder" where
  "MapBuilder_text key v b =
     b\<lparr>mb_entries := mb_entries b @ [(VInteger (uint key), VText v)]\<rparr>"

definition MapBuilder_u64 :: "u64 \<Rightarrow> u64 \<Rightarrow> MapBuilder \<Rightarrow> MapBuilder" where
  "MapBuilder_u64 key v b =
     b\<lparr>mb_entries := mb_entries b @ [(VInteger (uint key), VInteger (uint v))]\<rparr>"

definition MapBuilder_array :: "u64 \<Rightarrow> Value list \<Rightarrow> MapBuilder \<Rightarrow> MapBuilder" where
  "MapBuilder_array key v b =
     b\<lparr>mb_entries := mb_entries b @ [(VInteger (uint key), VArray v)]\<rparr>"

definition MapBuilder_build :: "MapBuilder \<Rightarrow> Value" where
  "MapBuilder_build b = VMap (mb_entries b)"

definition MapBuilder_to_vec :: "deps \<Rightarrow> MapBuilder \<Rightarrow> bytes result" where
  "MapBuilder_to_vec d b =
     (case cbor_into_writer d (MapBuilder_build b) of Inl e \<Rightarrow> Inl (Cbor e) | Inr out \<Rightarrow> Inr out)"

text \<open>A chain of builder calls, in source order, starting from \<open>MapBuilder::new()\<close>.\<close>

definition build_map :: "(MapBuilder \<Rightarrow> MapBuilder) list \<Rightarrow> MapBuilder" where
  "build_map calls = fold (\<lambda>c b. c b) calls MapBuilder_new"

definition cbor_to_vec :: "deps \<Rightarrow> Value \<Rightarrow> bytes result" where
  "cbor_to_vec d v = (case cbor_into_writer d v of Inl e \<Rightarrow> Inl (Cbor e) | Inr out \<Rightarrow> Inr out)"

section \<open>Reading\<close>

record MapReader =
  mr_entries :: "int \<rightharpoonup> Value"

text \<open>The loop of \<open>from_value\<close> over the pairs, inserting into the map built so far.\<close>

fun insert_pairs :: "(Value \<times> Value) list \<Rightarrow> (int \<rightharpoonup> Value) \<Rightarrow> (int \<rightharpoonup> Value) result" where
  "insert_pairs [] m = Inr m"
| "insert_pairs ((k, v) # ps) m =
     (case k of
        VInteger i \<Rightarrow>
          (if m i \<noteq> None then Inl (Cbor (lit ''duplicate map key''))
           else insert_pairs ps (m(i \<mapsto> v)))
      | _ \<Rightarrow> Inl (Cbor (lit ''map keys must be integers'')))"

definition MapReader_from_value :: "Value \<Rightarrow> MapReader result" where
  "MapReader_from_value v =
     (case v of
        VMap pairs \<Rightarrow> try_r (insert_pairs pairs Map.empty) (\<lambda>m. Inr \<lparr>mr_entries = m\<rparr>)
      | _ \<Rightarrow> Inl (Cbor (lit ''expected a CBOR map'')))"

definition MapReader_from_slice :: "deps \<Rightarrow> bytes \<Rightarrow> MapReader result" where
  "MapReader_from_slice d bs =
     (case cbor_from_reader d bs of
        Inl e \<Rightarrow> Inl (Cbor e)
      | Inr v \<Rightarrow> MapReader_from_value v)"

definition MapReader_get :: "MapReader \<Rightarrow> u64 \<Rightarrow> Value result" where
  "MapReader_get r key =
     ok_or (mr_entries r (uint key)) (Cbor (lit ''missing key '' @ show_nat (unat key)))"

definition MapReader_bytes :: "MapReader \<Rightarrow> u64 \<Rightarrow> bytes result" where
  "MapReader_bytes r key = try_r (MapReader_get r key) (\<lambda>v.
     case v of
       VBytes b \<Rightarrow> Inr b
     | _ \<Rightarrow> Inl (Cbor (lit ''key '' @ show_nat (unat key) @ lit '' is not bytes'')))"

definition MapReader_byte_array :: "nat \<Rightarrow> MapReader \<Rightarrow> u64 \<Rightarrow> bytes result" where
  "MapReader_byte_array n r key = try_r (MapReader_bytes r key) (\<lambda>b.
     if length b = n then Inr b
     else Inl (Cbor (lit ''key '' @ show_nat (unat key) @ lit '' must be '' @ show_nat n @
                     lit '' bytes, got '' @ show_nat (length b))))"

definition MapReader_text :: "MapReader \<Rightarrow> u64 \<Rightarrow> rstr result" where
  "MapReader_text r key = try_r (MapReader_get r key) (\<lambda>v.
     case v of
       VText s \<Rightarrow> Inr s
     | _ \<Rightarrow> Inl (Cbor (lit ''key '' @ show_nat (unat key) @ lit '' is not text'')))"

definition MapReader_u64 :: "MapReader \<Rightarrow> u64 \<Rightarrow> u64 result" where
  "MapReader_u64 r key = try_r (MapReader_get r key) (\<lambda>v.
     case v of
       VInteger i \<Rightarrow>
         (if 0 \<le> i \<and> i < 2 ^ 64 then Inr (word_of_int i)
          else Inl (Cbor (lit ''key '' @ show_nat (unat key) @ lit '' out of u64 range'')))
     | _ \<Rightarrow> Inl (Cbor (lit ''key '' @ show_nat (unat key) @ lit '' is not an integer'')))"

definition MapReader_array :: "MapReader \<Rightarrow> u64 \<Rightarrow> Value list result" where
  "MapReader_array r key = try_r (MapReader_get r key) (\<lambda>v.
     case v of
       VArray a \<Rightarrow> Inr a
     | _ \<Rightarrow> Inl (Cbor (lit ''key '' @ show_nat (unat key) @ lit '' is not an array'')))"

definition MapReader_has :: "MapReader \<Rightarrow> u64 \<Rightarrow> bool" where
  "MapReader_has r key \<longleftrightarrow> mr_entries r (uint key) \<noteq> None"

section \<open>Lemmas\<close>

lemmas MapBuilder_defs = MapBuilder_new_def MapBuilder_value_def MapBuilder_bytes_def
  MapBuilder_text_def MapBuilder_u64_def MapBuilder_array_def MapBuilder_build_def build_map_def

lemmas MapReader_defs = MapReader_get_def MapReader_bytes_def MapReader_byte_array_def
  MapReader_text_def MapReader_u64_def MapReader_array_def MapReader_has_def

text \<open>The accessors on a known entry.\<close>

lemma MapReader_hit [simp]:
  "mr_entries r (uint key) = Some v \<Longrightarrow> MapReader_get r key = Inr v"
  "mr_entries r (uint key) = Some (VBytes b) \<Longrightarrow> MapReader_bytes r key = Inr b"
  "mr_entries r (uint key) = Some (VBytes b) \<Longrightarrow> length b = n \<Longrightarrow> MapReader_byte_array n r key = Inr b"
  "mr_entries r (uint key) = Some (VText s) \<Longrightarrow> MapReader_text r key = Inr s"
  "mr_entries r (uint key) = Some (VInteger (uint w)) \<Longrightarrow> MapReader_u64 r key = Inr w"
  "mr_entries r (uint key) = Some (VArray a) \<Longrightarrow> MapReader_array r key = Inr a"
  using uint_bounded [of w] by (simp_all add: MapReader_defs)

lemma word_of_int_u64_eq:
  "0 \<le> i \<Longrightarrow> i < 18446744073709551616 \<Longrightarrow> word_of_int i = (w :: u64) \<longleftrightarrow> i = uint w"
  by (auto simp: uint_word_of_int take_bit_int_eq_self)

lemma MapReader_byte_array_Inr:
  "MapReader_byte_array n r k = Inr b \<longleftrightarrow> mr_entries r (uint k) = Some (VBytes b) \<and> length b = n"
proof (cases "mr_entries r (uint k)")
  case (Some x)
  then show ?thesis by (cases x) (auto simp: MapReader_defs)
qed (simp add: MapReader_defs)

lemma MapReader_bytes_Inr:
  "MapReader_bytes r k = Inr b \<longleftrightarrow> mr_entries r (uint k) = Some (VBytes b)"
proof (cases "mr_entries r (uint k)")
  case (Some x)
  then show ?thesis by (cases x) (auto simp: MapReader_defs)
qed (simp add: MapReader_defs)

lemma MapReader_text_Inr:
  "MapReader_text r k = Inr s \<longleftrightarrow> mr_entries r (uint k) = Some (VText s)"
proof (cases "mr_entries r (uint k)")
  case (Some x)
  then show ?thesis by (cases x) (auto simp: MapReader_defs)
qed (simp add: MapReader_defs)

lemma MapReader_u64_Inr:
  "MapReader_u64 r k = Inr w \<longleftrightarrow> mr_entries r (uint k) = Some (VInteger (uint w))"
proof (cases "mr_entries r (uint k)")
  case (Some x)
  have b: "0 \<le> uint w" "uint w < 18446744073709551616" using uint_bounded [of w] by simp_all
  show ?thesis
  proof (cases x)
    case (VInteger i)
    show ?thesis
    proof (cases "0 \<le> i \<and> i < 18446744073709551616")
      case True
      then show ?thesis by (simp add: MapReader_defs Some VInteger word_of_int_u64_eq)
    next
      case False
      then have "i \<noteq> uint w" using b by blast
      with False show ?thesis by (auto simp: MapReader_defs Some VInteger)
    qed
  qed (simp_all add: MapReader_defs Some)
qed (simp add: MapReader_defs)

lemma MapReader_array_Inr:
  "MapReader_array r k = Inr a \<longleftrightarrow> mr_entries r (uint k) = Some (VArray a)"
proof (cases "mr_entries r (uint k)")
  case (Some x)
  then show ?thesis by (cases x) (auto simp: MapReader_defs)
qed (simp add: MapReader_defs)

lemmas MapReader_exact = MapReader_byte_array_Inr MapReader_bytes_Inr MapReader_text_Inr
  MapReader_u64_Inr MapReader_array_Inr

text \<open>The reader accepts exactly the pair lists with distinct integer keys.\<close>

lemma map_add_fresh:
  "i \<notin> fst ` set ivs \<Longrightarrow> m(i \<mapsto> v) ++ map_of ivs = (m ++ map_of ivs)(i \<mapsto> v)"
  by (simp add: map_add_upd_left dom_map_of_conv_image_fst)

lemma insert_pairs_Inr:
  "insert_pairs ps m = Inr m' \<longleftrightarrow>
     (\<exists>ivs. ps = map (\<lambda>(i, v). (VInteger i, v)) ivs \<and> distinct (map fst ivs) \<and>
        (\<forall>i \<in> set (map fst ivs). m i = None) \<and> m' = m ++ map_of ivs)"
proof (induction ps arbitrary: m)
  case Nil
  then show ?case by auto
next
  case (Cons p ps)
  obtain k v where p: "p = (k, v)" by fastforce
  show ?case
  proof (cases k)
    case (VInteger i)
    have "insert_pairs (p # ps) m = Inr m' \<longleftrightarrow> m i = None \<and> insert_pairs ps (m(i \<mapsto> v)) = Inr m'"
      by (simp add: p VInteger)
    also have "\<dots> \<longleftrightarrow> (\<exists>ivs. ps = map (\<lambda>(i, v). (VInteger i, v)) ivs \<and> m i = None \<and>
        distinct (map fst ((i, v) # ivs)) \<and> (\<forall>j \<in> set (map fst ivs). m j = None) \<and>
        m' = m ++ map_of ((i, v) # ivs))"
      unfolding Cons.IH by (intro iffI; elim exE conjE; intro exI conjI)
        (auto simp: map_add_fresh image_iff split: if_splits intro!: map_add_fresh)
    also have "\<dots> \<longleftrightarrow> (\<exists>ivs. p # ps = map (\<lambda>(i, v). (VInteger i, v)) ivs \<and> distinct (map fst ivs) \<and>
        (\<forall>i \<in> set (map fst ivs). m i = None) \<and> m' = m ++ map_of ivs)"
      (is "?L \<longleftrightarrow> ?R")
    proof
      assume ?L
      then obtain ivs where "ps = map (\<lambda>(i, v). (VInteger i, v)) ivs" "m i = None"
        "distinct (map fst ((i, v) # ivs))" "\<forall>j \<in> set (map fst ivs). m j = None"
        "m' = m ++ map_of ((i, v) # ivs)" by blast
      then show ?R by (intro exI [of _ "(i, v) # ivs"]) (simp add: p VInteger)
    qed (auto simp: p VInteger Cons_eq_map_conv)
    finally show ?thesis .
  qed (auto simp: p Cons_eq_map_conv)
qed

lemma from_value_Inr:
  "MapReader_from_value v = Inr r \<longleftrightarrow>
     (\<exists>ivs. v = VMap (map (\<lambda>(i, v). (VInteger i, v)) ivs) \<and> distinct (map fst ivs) \<and>
        mr_entries r = map_of ivs)"
  by (cases v; cases r) (auto simp: MapReader_from_value_def try_r_eq_Inr insert_pairs_Inr)

text \<open>What the builder wrote, the reader reads back.\<close>

lemma to_vec_from_slice:
  assumes "cbor_faithful d" "cbor_plain (MapBuilder_build b)"
    "value_depth (MapBuilder_build b) \<le> max_payload_depth"
  obtains out where "MapBuilder_to_vec d b = Inr out"
    "length out \<le> cbor_bound (MapBuilder_build b)"
    "MapReader_from_slice d out = MapReader_from_value (MapBuilder_build b)"
proof -
  obtain out where "cbor_into_writer d (MapBuilder_build b) = Inr out"
    "length out \<le> cbor_bound (MapBuilder_build b)"
    "cbor_from_reader d out = Inr (MapBuilder_build b)"
    using cbor_faithfulD [OF assms] by blast
  then show ?thesis
    by (intro that [of out]) (simp_all add: MapBuilder_to_vec_def MapReader_from_slice_def)
qed


text \<open>Every field a payload carries is plain and shallow.\<close>

lemma cbor_plain_uint [simp]: "cbor_plain (VInteger (uint (w :: u64)))"
proof -
  have "- (2 ^ 64) \<le> (0 :: int)" by simp
  also have "0 \<le> uint w" by simp
  finally show ?thesis using uint_bounded [of w] by simp
qed

text \<open>
  Encoding and decoding a payload whose fields are plain: the reader holds exactly the
  fields, and the size is bounded. The session and pairing messages are instances.
\<close>

definition field_map :: "(u64 \<times> Value) list \<Rightarrow> MapReader" where
  "field_map kvs = \<lparr> mr_entries = map_of (map (\<lambda>(k, v). (uint k, v)) kvs) \<rparr>"

definition field_ok :: "Value \<Rightarrow> bool" where
  "field_ok v \<longleftrightarrow> cbor_plain v \<and> value_depth v < max_payload_depth"

lemma field_map_get: "mr_entries (field_map kvs) (uint k) = map_of kvs k"
  unfolding field_map_def by (induction kvs) (auto simp: word_uint_eq_iff)

lemma entries_build:
  "MapBuilder_build b = VMap (map (\<lambda>(k, v). (VInteger (uint k), v)) kvs) \<longleftrightarrow>
   mb_entries b = map (\<lambda>(k, v). (VInteger (uint k), v)) kvs"
  by (simp add: MapBuilder_build_def)

lemma foldr_depth:
  "list_all (\<lambda>(k, v). field_ok v) kvs \<Longrightarrow>
   foldr (\<lambda>(k, v) n. max (max (value_depth k) (value_depth v)) n)
      (map (\<lambda>(k, v). (VInteger (uint k), v)) kvs) 0 < max_payload_depth"
  by (induction kvs) (auto simp: max_payload_depth_def field_ok_def)

lemma from_value_fields:
  assumes "mb_entries b = map (\<lambda>(k, v). (VInteger (uint k), v)) kvs" "distinct (map fst kvs)"
  shows "MapReader_from_value (MapBuilder_build b) = Inr (field_map kvs)"
proof -
  have b: "MapBuilder_build b = VMap (map (\<lambda>(k, v). (VInteger (uint k), v)) kvs)"
    using assms(1) by (simp add: entries_build)
  have "distinct (map fst (map (\<lambda>(k, v). (uint k, v)) kvs))"
    using assms(2) by (simp add: distinct_map comp_def case_prod_unfold inj_on_def word_uint_eq_iff)
  then show ?thesis
    unfolding b from_value_Inr field_map_def
    by (intro exI [of _ "map (\<lambda>(k, v). (uint k, v)) kvs"] conjI) (simp_all add: comp_def case_prod_unfold)
qed

lemma payload_roundtrip:
  assumes "cbor_faithful d" "mb_entries b = map (\<lambda>(k, v). (VInteger (uint k), v)) kvs"
    "distinct (map fst kvs)" "length kvs < 2 ^ 64" "list_all (\<lambda>(k, v). field_ok v) kvs"
  obtains out where "MapBuilder_to_vec d b = Inr out"
    "MapReader_from_slice d out = Inr (field_map kvs)"
    "length out \<le> 9 + sum_list (map (\<lambda>(k, v). 9 + cbor_bound v) kvs)"
proof -
  have b: "MapBuilder_build b = VMap (map (\<lambda>(k, v). (VInteger (uint k), v)) kvs)"
    using assms(2) by (simp add: entries_build)
  have plain: "cbor_plain (MapBuilder_build b)"
    unfolding b using assms(4,5)
    by (auto simp: list_all_iff field_ok_def simp del: cbor_plain.simps(1))
  have depth: "value_depth (MapBuilder_build b) \<le> max_payload_depth"
    unfolding b using foldr_depth [OF assms(5)] by (simp add: Suc_le_eq)
  note read = from_value_fields [OF assms(2,3)]
  have size: "cbor_bound (MapBuilder_build b) = 9 + sum_list (map (\<lambda>(k, v). 9 + cbor_bound v) kvs)"
    by (simp add: b comp_def case_prod_unfold)
  show ?thesis
    by (rule to_vec_from_slice [OF assms(1) plain depth]) (simp add: that read size)
qed

lemma MapReader_field:
  "map_of kvs k = Some (VBytes b) \<Longrightarrow> MapReader_bytes (field_map kvs) k = Inr b"
  "map_of kvs k = Some (VBytes b) \<Longrightarrow> length b = n \<Longrightarrow> MapReader_byte_array n (field_map kvs) k = Inr b"
  "map_of kvs k = Some (VText s) \<Longrightarrow> MapReader_text (field_map kvs) k = Inr s"
  "map_of kvs k = Some (VInteger (uint w)) \<Longrightarrow> MapReader_u64 (field_map kvs) k = Inr w"
  "map_of kvs k = Some (VArray a) \<Longrightarrow> MapReader_array (field_map kvs) k = Inr a"
  by (simp_all add: MapReader_exact field_map_get)

lemma field_ok_simps [simp]:
  "field_ok (VInteger (uint (w :: u64)))"
  "field_ok (VBytes b) \<longleftrightarrow> length b < 2 ^ 64"
  "field_ok (VText s) \<longleftrightarrow> valid_str s \<and> str_len s < 2 ^ 64"
  by (simp_all add: field_ok_def max_payload_depth_def del: cbor_plain.simps(1))

section \<open>Properties\<close>

text \<open>
  C30: a map built field by field is read back field by field. With distinct keys and values
  CBOR carries faithfully, encoding succeeds, decoding the bytes succeeds, and a lookup finds
  exactly the value stored under the key, or the missing-key error.
\<close>

theorem map_fields_roundtrip:
  assumes "cbor_faithful d" "distinct (map fst kvs)" "length kvs < 2 ^ 64"
    "list_all (\<lambda>(k, v). cbor_plain v \<and> value_depth v < max_payload_depth) kvs"
  shows "\<exists>out r. MapBuilder_to_vec d (build_map (map (\<lambda>(k, v). MapBuilder_value k v) kvs)) = Inr out \<and>
    MapReader_from_slice d out = Inr r \<and>
    (\<forall>k. MapReader_get r k =
       (case map_of kvs k of
          Some v \<Rightarrow> Inr v
        | None \<Rightarrow> Inl (Cbor (lit ''missing key '' @ show_nat (unat k)))))"
proof -
  let ?b = "build_map (map (\<lambda>(k, v). MapBuilder_value k v) kvs)"
  have "mb_entries (fold (\<lambda>c b. c b) (map (\<lambda>(k, v). MapBuilder_value k v) fs) b) =
      mb_entries b @ map (\<lambda>(k, v). (VInteger (uint k), v)) fs" for fs b
    by (induction fs arbitrary: b) (auto simp: MapBuilder_value_def)
  then have b: "mb_entries ?b = map (\<lambda>(k, v). (VInteger (uint k), v)) kvs"
    by (simp add: build_map_def MapBuilder_new_def)
  have "list_all (\<lambda>(k, v). field_ok v) kvs"
    using assms(4) by (simp add: field_ok_def)
  then obtain out where "MapBuilder_to_vec d ?b = Inr out"
      "MapReader_from_slice d out = Inr (field_map kvs)"
    by (rule payload_roundtrip [OF assms(1) b assms(2,3)])
  then show ?thesis
    by (intro exI [of _ out] exI [of _ "field_map kvs"])
      (simp add: MapReader_get_def field_map_get ok_or_def)
qed

text \<open>
  C32: the reader is strict. It accepts exactly the maps whose keys are distinct integers, and
  each typed accessor succeeds exactly on an entry of its type (of the requested width, in
  the unsigned 64-bit range): a wrong type is an error and never a default.
\<close>

theorem map_reader_is_strict:
  "(is_ok (MapReader_from_value v) \<longleftrightarrow>
      (\<exists>ivs. v = VMap (map (\<lambda>(i, v). (VInteger i, v)) ivs) \<and> distinct (map fst ivs))) \<and>
   (MapReader_byte_array n r k = Inr b \<longleftrightarrow> mr_entries r (uint k) = Some (VBytes b) \<and> length b = n) \<and>
   (MapReader_text r k = Inr s \<longleftrightarrow> mr_entries r (uint k) = Some (VText s)) \<and>
   (MapReader_u64 r k = Inr w \<longleftrightarrow> mr_entries r (uint k) = Some (VInteger (uint w))) \<and>
   (MapReader_array r k = Inr a \<longleftrightarrow> mr_entries r (uint k) = Some (VArray a))"
proof (intro conjI)
  show "is_ok (MapReader_from_value v) \<longleftrightarrow>
      (\<exists>ivs. v = VMap (map (\<lambda>(i, v). (VInteger i, v)) ivs) \<and> distinct (map fst ivs))"
  proof -
    have "is_ok (MapReader_from_value v) \<longleftrightarrow> (\<exists>r. MapReader_from_value v = Inr r)"
      by (cases "MapReader_from_value v") auto
    then show ?thesis unfolding from_value_Inr by (metis MapReader.select_convs(1))
  qed
qed (simp_all add: MapReader_exact)

end
