(* ===== verification/Instance.thy ===== *)
theory Instance
  imports CborMap
begin

text \<open>
  A concrete instance of the library parameters, used to show that the hypotheses of the
  theorems can be met together and to run the model on concrete inputs. The ciphers are
  stand-ins with the documented interface behaviour (agreement, widths, tags that are checked)
  and no strength; the CBOR codec is a complete prefix code for the plain values, with a
  fixed nine-byte head. Nothing outside the examples depends on this instance.
\<close>

section \<open>Cipher stand-ins\<close>

definition pad :: "nat \<Rightarrow> bytes \<Rightarrow> bytes" where
  "pad n b = take n (b @ replicate n 0)"

definition mix :: "nat \<Rightarrow> bytes \<Rightarrow> bytes \<Rightarrow> bytes" where
  "mix n a b = map2 (+) (pad n a) (pad n b)"

definition demo_decrypt :: "bytes \<Rightarrow> bytes \<Rightarrow> bytes \<Rightarrow> bytes \<Rightarrow> bytes option" where
  "demo_decrypt k n a c =
     (if length c \<ge> 16 \<and> drop (length c - 16) c = mix 16 k (n @ a)
      then Some (take (length c - 16) c) else None)"

section \<open>A CBOR codec\<close>

definition cbor_head :: "byte \<Rightarrow> nat \<Rightarrow> bytes" where
  "cbor_head major n = major # u64_to_le_bytes (of_nat n)"

fun demo_encode :: "Value \<Rightarrow> bytes" where
  "demo_encode (VInteger i) = (if 0 \<le> i then cbor_head 0 (nat i) else cbor_head 1 (nat (- 1 - i)))"
| "demo_encode (VBytes b) = cbor_head 2 (length b) @ b"
| "demo_encode (VText s) = cbor_head 3 (str_len s) @ as_bytes s"
| "demo_encode (VArray vs) = cbor_head 4 (length vs) @ concat (map demo_encode vs)"
| "demo_encode (VMap kvs) =
     cbor_head 5 (length kvs) @ concat (map (\<lambda>(k, v). demo_encode k @ demo_encode v) kvs)"
| "demo_encode v = []"

fun decode_n :: "(bytes \<Rightarrow> ('a \<times> bytes) option) \<Rightarrow> nat \<Rightarrow> bytes \<Rightarrow> ('a list \<times> bytes) option" where
  "decode_n f 0 bs = Some ([], bs)"
| "decode_n f (Suc n) bs =
     (case f bs of
        None \<Rightarrow> None
      | Some (x, bs1) \<Rightarrow> map_option (\<lambda>(xs, bs2). (x # xs, bs2)) (decode_n f n bs1))"

definition decode_pair :: "(bytes \<Rightarrow> ('a \<times> bytes) option) \<Rightarrow> bytes \<Rightarrow> (('a \<times> 'a) \<times> bytes) option" where
  "decode_pair f bs =
     (case f bs of
        None \<Rightarrow> None
      | Some (k, bs1) \<Rightarrow> map_option (\<lambda>(v, bs2). ((k, v), bs2)) (f bs1))"

fun demo_decode :: "nat \<Rightarrow> bytes \<Rightarrow> (Value \<times> bytes) option" where
  "demo_decode 0 bs = None"
| "demo_decode (Suc k) bs =
     (if length bs < 9 then None
      else let n = le_nat (take 8 (tl bs)); rest = drop 9 bs; major = hd bs in
        if major = 0 then Some (VInteger (int n), rest)
        else if major = 1 then Some (VInteger (- 1 - int n), rest)
        else if major = 2 then
          (if length rest < n then None else Some (VBytes (take n rest), drop n rest))
        else if major = 3 then
          (if length rest < n then None else Some (VText (from_utf8_lossy (take n rest)), drop n rest))
        else if major = 4 then
          map_option (\<lambda>(vs, r). (VArray vs, r)) (decode_n (demo_decode k) n rest)
        else if major = 5 then
          map_option (\<lambda>(kvs, r). (VMap kvs, r)) (decode_n (decode_pair (demo_decode k)) n rest)
        else None)"

section \<open>Hexadecimal text\<close>

fun demo_unhex :: "rstr \<Rightarrow> bytes option" where
  "demo_unhex [] = Some []"
| "demo_unhex [c] = None"
| "demo_unhex (h # l # cs) =
     (case (hex_val h, hex_val l, demo_unhex cs) of
        (Some x, Some y, Some bs) \<Rightarrow> Some (of_nat (16 * x + y) # bs)
      | _ \<Rightarrow> None)"

text \<open>Splitting a URL of the custom scheme.\<close>

definition demo_url_parse :: "rstr \<Rightarrow> rstr + UrlParts" where
  "demo_url_parse u =
     (if \<not> starts_with u (lit ''airclip://'') then Inl []
      else let rest = drop 10 u; host = takeWhile (\<lambda>c. c \<noteq> 63) rest;
               query = drop (Suc (length host)) rest
           in Inr \<lparr> url_scheme = lit ''airclip'', url_host = Some host,
                url_query_pairs =
                  map (\<lambda>p. let k = takeWhile (\<lambda>c. c \<noteq> 61) p
                            in (k, form_decode (drop (Suc (length k)) p))) (split_on 38 query) \<rparr>)"

section \<open>The instance\<close>

definition demo_deps :: deps where
  "demo_deps =
     \<lparr> x25519_public = pad 32,
       x25519_dh = mix 32,
       blake3_hash = pad 32,
       blake3_keyed_hash = mix 32,
       hkdf_sha256 = (\<lambda>salt ikm info n. Some (pad n (info @ ikm))),
       chacha_encrypt = (\<lambda>k n a m. Some (m @ mix 16 k (n @ a))),
       chacha_decrypt = demo_decrypt,
       cbor_into_writer = (\<lambda>v. if cbor_plain v then Inr (demo_encode v) else Inl []),
       cbor_from_reader = (\<lambda>bs. case demo_decode 16 bs of None \<Rightarrow> Inl [] | Some (v, _) \<Rightarrow> Inr v),
       base64url_encode = (\<lambda>b. concat (map fmt_02x b)),
       base64url_decode = demo_unhex,
       hex_decode = demo_unhex,
       url_parse = demo_url_parse \<rparr>"

section \<open>It meets the contracts\<close>

lemma length_pad [simp]: "length (pad n b) = n"
  by (simp add: pad_def)

lemma pad_pad [simp]: "pad n (pad n b) = pad n b"
  by (simp add: pad_def)

lemma length_mix [simp]: "length (mix n a b) = n"
  by (simp add: mix_def)

lemma mix_commute: "mix n a b = mix n b a"
  unfolding mix_def by (rule nth_equalityI) (auto simp: add.commute)

lemma mix_pad [simp]: "mix n (pad n a) b = mix n a b" "mix n a (pad n b) = mix n a b"
  by (simp_all add: mix_def)

lemma length_cbor_head [simp]: "length (cbor_head m n) = 9"
  by (simp add: cbor_head_def)

lemma demo_decode_head:
  "n < 2 ^ 64 \<Longrightarrow> demo_decode (Suc k) (cbor_head m n @ rest) =
     (if m = 0 then Some (VInteger (int n), rest)
      else if m = 1 then Some (VInteger (- 1 - int n), rest)
      else if m = 2 then
        (if length rest < n then None else Some (VBytes (take n rest), drop n rest))
      else if m = 3 then
        (if length rest < n then None else Some (VText (from_utf8_lossy (take n rest)), drop n rest))
      else if m = 4 then
        map_option (\<lambda>(vs, r). (VArray vs, r)) (decode_n (demo_decode k) n rest)
      else if m = 5 then
        map_option (\<lambda>(kvs, r). (VMap kvs, r)) (decode_n (decode_pair (demo_decode k)) n rest)
      else None)"
proof -
  assume "n < 2 ^ 64"
  then have "le_nat (u64_to_le_bytes (of_nat n)) = n"
    by (simp add: u64_to_le_bytes_def le_nat_le_bytes unat_of_nat)
  then show ?thesis by (simp add: cbor_head_def Let_def)
qed

declare demo_decode.simps(2) [simp del]

lemma decode_n_concat:
  assumes "\<And>x rest. x \<in> set xs \<Longrightarrow> f (enc x @ rest) = Some (x, rest)"
  shows "decode_n f (length xs) (concat (map enc xs) @ rest) = Some (xs, rest)"
  using assms by (induction xs) simp_all

lemma foldr_max_less:
  "foldr (\<lambda>v n. max (g v) n) vs 0 < (k :: nat) \<Longrightarrow> v \<in> set vs \<Longrightarrow> g v < k"
  by (induction vs) auto

lemma demo_roundtrip:
  "cbor_plain v \<Longrightarrow> value_depth v < k \<Longrightarrow> demo_decode k (demo_encode v @ rest) = Some (v, rest)"
proof (induction k arbitrary: v rest)
  case 0
  then show ?case by simp
next
  case (Suc k)
  show ?case
  proof (cases v)
    case (VInteger i)
    then show ?thesis using Suc.prems by (simp add: demo_decode_head nat_less_iff)
  next
    case (VBytes b)
    then show ?thesis using Suc.prems by (simp add: demo_decode_head)
  next
    case (VText s)
    then show ?thesis
      using Suc.prems by (simp add: demo_decode_head str_len_def from_utf8_lossy_as_bytes)
  next
    case (VArray vs)
    have "demo_decode k (demo_encode x @ r) = Some (x, r)" if "x \<in> set vs" for x r
      using Suc.IH [of x r] Suc.prems that foldr_max_less [of value_depth vs k x]
      by (auto simp: VArray list_all_iff)
    then show ?thesis
      using Suc.prems by (simp add: VArray demo_decode_head decode_n_concat)
  next
    case (VMap kvs)
    have "decode_pair (demo_decode k) ((case x of (a, b) \<Rightarrow> demo_encode a @ demo_encode b) @ r) =
        Some (x, r)" if "x \<in> set kvs" for x r
    proof -
      obtain a b where x: "x = (a, b)" by fastforce
      have "max (value_depth a) (value_depth b) < k"
        using Suc.prems that foldr_max_less [of "\<lambda>(a, b). max (value_depth a) (value_depth b)" kvs k x]
        by (simp add: VMap x case_prod_unfold)
      moreover have "cbor_plain a" "cbor_plain b"
        using Suc.prems that by (auto simp: VMap list_all_iff x)
      ultimately show ?thesis
        using Suc.IH [of a "demo_encode b @ r"] Suc.IH [of b r] by (simp add: decode_pair_def x)
    qed
    then show ?thesis
      using Suc.prems by (simp add: VMap demo_decode_head decode_n_concat)
  qed (use Suc.prems in simp_all)
qed

lemma demo_size: "cbor_plain v \<Longrightarrow> length (demo_encode v) \<le> cbor_bound v"
proof (induction v)
  case (VArray vs)
  then have "sum_list (map (length \<circ> demo_encode) vs) \<le> sum_list (map cbor_bound vs)"
    by (intro sum_list_mono) (simp add: list_all_iff)
  then show ?case by (simp add: length_concat comp_def)
next
  case (VMap kvs)
  have "length (demo_encode a) + length (demo_encode b) \<le> cbor_bound a + cbor_bound b"
    if "(a, b) \<in> set kvs" for a b
    using VMap.IH [of "(a, b)" a] VMap.IH [of "(a, b)" b] VMap.prems that
    by (fastforce simp: list_all_iff intro: add_mono)
  then have "sum_list (map (\<lambda>(a, b). length (demo_encode a) + length (demo_encode b)) kvs) \<le>
      sum_list (map (\<lambda>(a, b). cbor_bound a + cbor_bound b) kvs)"
    by (intro sum_list_mono) auto
  then show ?case by (simp add: length_concat comp_def case_prod_unfold)
qed (simp_all add: str_len_def)

lemma demo_cbor: "cbor_faithful demo_deps"
  using demo_roundtrip [of _ 16 "[]"] demo_size
  by (simp add: cbor_faithful_def demo_deps_def max_payload_depth_def)

lemma demo_deps_ok: "deps_ok demo_deps"
  unfolding deps_ok_def
proof (intro conjI)
  show "dh_agrees demo_deps"
    by (simp add: dh_agrees_def demo_deps_def mix_commute)
  show "fixed_widths demo_deps" by (simp add: fixed_widths_def demo_deps_def)
  show "hkdf_expands demo_deps" by (simp add: hkdf_expands_def demo_deps_def)
  show "aead_correct demo_deps" by (simp add: aead_correct_def demo_deps_def demo_decrypt_def)
  show "aead_seals demo_deps" by (simp add: aead_seals_def demo_deps_def)
  show "cbor_faithful demo_deps" by (rule demo_cbor)
qed

lemma hex_val_digit: "n < 16 \<Longrightarrow> hex_val (hex_digit n) = Some n"
  by (simp add: hex_val_def hex_digit_def)

lemma demo_unhex_hex: "demo_unhex (concat (map fmt_02x b)) = Some b"
proof (induction b)
  case (Cons x b)
  have "unat x < 256" using unat_bound [of x] by simp
  then have "unat x div 16 < 16" by linarith
  then have "hex_val (hex_digit (unat x div 16)) = Some (unat x div 16)" by (rule hex_val_digit)
  then show ?case using Cons
    by (simp add: fmt_02x_def hex_val_digit del: of_nat_add of_nat_mult)
qed simp

lemma demo_text: "hex_faithful demo_deps" "base64_faithful demo_deps"
  by (simp_all add: hex_faithful_def base64_faithful_def demo_deps_def demo_unhex_hex unreserved_hex)

lemma demo_url: "url_faithful demo_deps"
  unfolding url_faithful_def
proof (intro allI impI, elim conjE)
  fix host :: rstr and kvs
  assume h: "host \<noteq> []" "list_all (\<lambda>c. 97 \<le> c \<and> c \<le> 122) host" and ne: "kvs \<noteq> []"
    and ok: "list_all (\<lambda>(k, v). k \<noteq> [] \<and> list_all unreserved k \<and> list_all query_char v) kvs"
  have "\<forall>w \<in> set (map (\<lambda>(k, v). k @ 61 # v) kvs). 38 \<notin> set w"
    using ok by (fastforce simp: list_all_iff unreserved_def query_char_def)
  then have split: "split_on 38 (query_string kvs) = map (\<lambda>(k, v). k @ 61 # v) kvs"
    unfolding query_string_def using ne by (intro split_join) auto
  have tw: "takeWhile (\<lambda>c. c \<noteq> 61) (k @ 61 # v) = k" if "(k, v) \<in> set kvs" for k v
    using ok that by (intro takeWhile_tail [of "\<lambda>c. c \<noteq> 61" 61 k v, simplified, THEN trans])
      (fastforce simp: list_all_iff unreserved_def takeWhile_eq_all_conv)+
  have host: "takeWhile (\<lambda>c. c \<noteq> 63) (host @ 63 # q) = host" for q
    using h(2) by (induction host) auto
  have "map (\<lambda>p. let k = takeWhile (\<lambda>c. c \<noteq> 61) p in (k, form_decode (drop (Suc (length k)) p)))
      (map (\<lambda>(k, v). k @ 61 # v) kvs) = map (\<lambda>(k, v). (k, form_decode v)) kvs"
    by (auto simp: tw Let_def)
  then show "url_parse demo_deps (lit ''airclip://'' @ host @ 63 # query_string kvs) =
      Inr \<lparr> url_scheme = lit ''airclip'', url_host = Some host,
            url_query_pairs = map (\<lambda>(k, v). (k, form_decode v)) kvs \<rparr>"
    by (simp add: demo_deps_def demo_url_parse_def starts_with_def lit_def host split Let_def)
qed

section \<open>A payload written and read\<close>

theorem map_fields_roundtrip_witness:
  "\<exists>out r. MapBuilder_to_vec demo_deps (build_map [MapBuilder_value 1 (VInteger 7),
       MapBuilder_value 2 (VBytes [1, 2, 3])]) = Inr out \<and>
     MapReader_from_slice demo_deps out = Inr r \<and>
     MapReader_get r 2 = Inr (VBytes [1, 2, 3])"
  using map_fields_roundtrip [OF demo_cbor, of "[(1, VInteger 7), (2, VBytes [1, 2, 3])]"]
  by (auto simp: max_payload_depth_def)

end
