(* ===== verification/Crypto.thy ===== *)
theory Crypto
  imports Frame Instance
begin

text \<open>
  Cryptography (\<open>crypto.rs\<close>): identity and ephemeral key pairs, device identifiers, the
  BLAKE3 MAC, the HKDF session keys, the AEAD channel with its anti-replay counters, and
  the short authentication string with its emoji table. The primitives are fields of
  \<open>deps\<close>; what the channel adds on top of them (nonce layout, counters, the
  floor below which nothing is accepted) is modelled and proved here.

  The interface \<open>ordered_channel\<close> states what a sealed channel promises its clients; it is
  interpreted on the AEAD channel, and the session theory rests on the result.

  \<open>getrandom::fill\<close> is an argument of type \<^typ>\<open>bytes option\<close>: the bytes the operating
  system returned, or \<^const>\<open>None\<close> when the call failed.
\<close>

section \<open>Key pairs\<close>

definition KDF_SALT_PREFIX :: bytes where
  "KDF_SALT_PREFIX = as_bytes (lit ''airclip-v1'')"

record IdentityKeypair =
  id_secret :: bytes
  id_public :: bytes

definition IdentityKeypair_from_seed :: "deps \<Rightarrow> bytes \<Rightarrow> IdentityKeypair" where
  "IdentityKeypair_from_seed d seed = \<lparr> id_secret = seed, id_public = x25519_public d seed \<rparr>"

definition IdentityKeypair_generate :: "deps \<Rightarrow> bytes option \<Rightarrow> IdentityKeypair result" where
  "IdentityKeypair_generate d rnd =
     try_r (ok_or rnd Crypto) (\<lambda>seed. Inr (IdentityKeypair_from_seed d seed))"

definition IdentityKeypair_public_bytes :: "IdentityKeypair \<Rightarrow> bytes" where
  "IdentityKeypair_public_bytes kp = id_public kp"

definition IdentityKeypair_secret_bytes :: "IdentityKeypair \<Rightarrow> bytes" where
  "IdentityKeypair_secret_bytes kp = id_secret kp"

definition device_id_from_pk :: "deps \<Rightarrow> bytes \<Rightarrow> DeviceId" where
  "device_id_from_pk d pk = DeviceId (take 16 (blake3_hash d pk))"

definition IdentityKeypair_device_id :: "deps \<Rightarrow> IdentityKeypair \<Rightarrow> DeviceId" where
  "IdentityKeypair_device_id d kp = device_id_from_pk d (IdentityKeypair_public_bytes kp)"

definition IdentityKeypair_dh :: "deps \<Rightarrow> IdentityKeypair \<Rightarrow> bytes \<Rightarrow> bytes" where
  "IdentityKeypair_dh d kp peer_pk = x25519_dh d (id_secret kp) peer_pk"

definition content_digest :: "deps \<Rightarrow> bytes \<Rightarrow> rstr" where
  "content_digest d b = concat (map fmt_02x (blake3_hash d b))"

record EphemeralKeypair =
  eph_secret :: bytes
  eph_public :: bytes

definition EphemeralKeypair_from_seed :: "deps \<Rightarrow> bytes \<Rightarrow> EphemeralKeypair" where
  "EphemeralKeypair_from_seed d seed = \<lparr> eph_secret = seed, eph_public = x25519_public d seed \<rparr>"

definition EphemeralKeypair_generate :: "deps \<Rightarrow> bytes option \<Rightarrow> EphemeralKeypair result" where
  "EphemeralKeypair_generate d rnd =
     try_r (ok_or rnd Crypto) (\<lambda>seed. Inr (EphemeralKeypair_from_seed d seed))"

definition EphemeralKeypair_public_bytes :: "EphemeralKeypair \<Rightarrow> bytes" where
  "EphemeralKeypair_public_bytes kp = eph_public kp"

definition EphemeralKeypair_dh :: "deps \<Rightarrow> EphemeralKeypair \<Rightarrow> bytes \<Rightarrow> bytes" where
  "EphemeralKeypair_dh d kp peer_pk = x25519_dh d (eph_secret kp) peer_pk"

section \<open>MAC\<close>

definition keyed_mac :: "deps \<Rightarrow> bytes \<Rightarrow> bytes \<Rightarrow> bytes" where
  "keyed_mac d key msg = blake3_keyed_hash d key msg"

definition verify_mac :: "deps \<Rightarrow> bytes \<Rightarrow> bytes \<Rightarrow> bytes \<Rightarrow> bool" where
  "verify_mac d key msg tag =
     (if length tag \<noteq> 32 then False else blake3_keyed_hash d key msg = tag)"

section \<open>Session keys\<close>

record SessionKeys =
  sk_p2c :: bytes
  sk_c2p :: bytes

definition derive_session_keys ::
  "deps \<Rightarrow> bytes \<Rightarrow> bytes \<Rightarrow> bytes \<Rightarrow> DeviceId \<Rightarrow> DeviceId \<Rightarrow> SessionKeys result" where
  "derive_session_keys d ss_ee ss_si ss_static device_id_phone device_id_pc =
     (let ikm = ss_ee @ ss_si @ ss_static;
          salt = KDF_SALT_PREFIX @ device_bytes device_id_phone @ device_bytes device_id_pc
      in try_r (ok_or (hkdf_sha256 d salt ikm (as_bytes (lit ''p2c'')) 32) Crypto) (\<lambda>p2c.
         try_r (ok_or (hkdf_sha256 d salt ikm (as_bytes (lit ''c2p'')) 32) Crypto) (\<lambda>c2p.
         Inr \<lparr> sk_p2c = p2c, sk_c2p = c2p \<rparr>)))"

section \<open>The AEAD channel\<close>

record Direction =
  dir_key :: bytes
  dir_ctr :: u64
  seen_any :: bool

record AeadChannel =
  tx :: Direction
  rx :: Direction

definition AeadChannel_new :: "bytes \<Rightarrow> bytes \<Rightarrow> AeadChannel" where
  "AeadChannel_new tx_key rx_key =
     \<lparr> tx = \<lparr> dir_key = tx_key, dir_ctr = 0, seen_any = False \<rparr>,
       rx = \<lparr> dir_key = rx_key, dir_ctr = 0, seen_any = False \<rparr> \<rparr>"

definition nonce_for :: "u64 \<Rightarrow> bytes" where
  "nonce_for ctr = replicate 4 0 @ u64_to_le_bytes ctr"

definition aad_for :: "FrameType \<Rightarrow> bytes" where
  "aad_for ty = [FrameType_as_u8 ty, PROTOCOL_VERSION]"

definition AeadChannel_seal ::
  "deps \<Rightarrow> AeadChannel \<Rightarrow> FrameType \<Rightarrow> bytes \<Rightarrow> AeadChannel \<times> bytes result" where
  "AeadChannel_seal d ch ty plaintext =
     (let ctr = dir_ctr (tx ch)
      in case chacha_encrypt d (dir_key (tx ch)) (nonce_for ctr) (aad_for ty) plaintext of
           None \<Rightarrow> (ch, Inl Crypto)
         | Some ct \<Rightarrow>
             (case checked_add ctr 1 of
                None \<Rightarrow> (ch, Inl Crypto)
              | Some next \<Rightarrow>
                  (ch\<lparr> tx := (tx ch)\<lparr> dir_ctr := next \<rparr> \<rparr>, Inr (u64_to_le_bytes ctr @ ct))))"

definition AeadChannel_open ::
  "deps \<Rightarrow> AeadChannel \<Rightarrow> FrameType \<Rightarrow> bytes \<Rightarrow> AeadChannel \<times> bytes result" where
  "AeadChannel_open d ch ty payload =
     (if length payload < 8 then (ch, Inl Crypto)
      else let ctr = u64_from_le_bytes (take 8 payload)
           in if seen_any (rx ch) \<and> ctr \<le> dir_ctr (rx ch) then (ch, Inl Crypto)
              else case chacha_decrypt d (dir_key (rx ch)) (nonce_for ctr) (aad_for ty)
                          (drop 8 payload) of
                     None \<Rightarrow> (ch, Inl Crypto)
                   | Some pt \<Rightarrow>
                       (ch\<lparr> rx := (rx ch)\<lparr> dir_ctr := ctr, seen_any := True \<rparr> \<rparr>, Inr pt))"

section \<open>Short authentication string\<close>

definition sas_input :: "bytes \<Rightarrow> bytes \<Rightarrow> bytes \<Rightarrow> bytes \<Rightarrow> bytes" where
  "sas_input ss_eph pk_id_phone pk_id_pc pair_token =
     ss_eph @ pk_id_phone @ pk_id_pc @ pair_token"

definition sas_digest :: "deps \<Rightarrow> bytes \<Rightarrow> u32" where
  "sas_digest d inp = u32_from_be_bytes (take 4 (blake3_hash d inp))"

definition SAS_EMOJI :: "rstr list" where
  "SAS_EMOJI =
    [[128054], [128049], [128045], [128057], [128048], [129418], [128059], [128060],
     [128040], [128047], [129409], [128046], [128055], [128056], [128053], [128020],
     [127822], [127818], [127819], [127820], [127817], [127815], [127827], [127826],
     [127825], [129373], [127821], [129381], [129361], [127813], [127805], [129365],
     [9917], [127936], [127944], [9918], [127934], [127952], [127921], [127955],
     [129345], [127928], [127930], [127931], [127912], [127919], [127922], [127923],
     [128663], [128661], [128665], [128652], [128657], [128659], [128666], [128690],
     [128757], [128640], [128641], [9973], [128642], [128668], [128756], [128676]]"

definition sas_index :: "u32 \<Rightarrow> nat \<Rightarrow> nat" where
  "sas_index digest n = unat (and (drop_bit n digest) 63)"

definition sas_emoji :: "u32 \<Rightarrow> rstr list" where
  "sas_emoji digest =
     [SAS_EMOJI ! sas_index digest 26, SAS_EMOJI ! sas_index digest 20,
      SAS_EMOJI ! sas_index digest 14, SAS_EMOJI ! sas_index digest 8]"

section \<open>Batches of sealed messages\<close>

text \<open>
  A sender seals a batch, a receiver opens whatever arrives. Both keep the result of every
  call, failed ones included, and carry on with the channel the call left.
\<close>

fun batch :: "('c \<Rightarrow> 't \<Rightarrow> 'm \<Rightarrow> 'c \<times> ('e + 'p)) \<Rightarrow> 'c \<Rightarrow> ('t \<times> 'm) list \<Rightarrow> 'c \<times> ('e + 'p) list"
where
  "batch f c [] = (c, [])"
| "batch f c ((t, m) # ms) =
     (let (c1, r) = f c t m; (c2, rs) = batch f c1 ms in (c2, r # rs))"

lemma batch_Cons [simp]:
  assumes "f c t m = (c1, r)"
  shows "fst (batch f c ((t, m) # ms)) = fst (batch f c1 ms)"
    "snd (batch f c ((t, m) # ms)) = r # snd (batch f c1 ms)"
  using assms by (simp_all add: Let_def case_prod_unfold)

declare batch.simps(2) [simp del]

fun oks :: "('x \<times> ('e + 'm)) list \<Rightarrow> 'x list" where
  "oks [] = []"
| "oks ((x, r) # xs) = (if is_ok r then x # oks xs else oks xs)"

definition sealed_ok :: "('e + 'p) list \<Rightarrow> 'p list" where
  "sealed_ok rs = List.map_filter ok_r rs"

definition accepted :: "('t \<times> 'p) list \<Rightarrow> ('e + 'm) list \<Rightarrow> 'p list" where
  "accepted ps rs = oks (zip (map snd ps) rs)"

section \<open>What a sealed channel promises\<close>

locale ordered_channel =
  fixes seal_op :: "'c \<Rightarrow> 't \<Rightarrow> 'm \<Rightarrow> 'c \<times> ('e + 'p)"
    and open_op :: "'c \<Rightarrow> 't \<Rightarrow> 'p \<Rightarrow> 'c \<times> ('e + 'm)"
    and linked :: "'c \<Rightarrow> 'c \<Rightarrow> bool"
    and next_seq :: "'c \<Rightarrow> nat"
    and rx_floor :: "'c \<Rightarrow> nat"
    and seqno :: "'p \<Rightarrow> nat"
  assumes seal_linked: "linked a b \<Longrightarrow> seal_op a t m = (a', Inr p) \<Longrightarrow> linked a' b"
    and seal_open: "linked a b \<Longrightarrow> seal_op a t m = (a', Inr p) \<Longrightarrow>
      \<exists>b'. open_op b t p = (b', Inr m) \<and> linked a' b'"
    and seal_seq: "seal_op a t m = (a', Inr p) \<Longrightarrow>
      seqno p = next_seq a \<and> next_seq a' = Suc (next_seq a)"
    and seal_fails: "seal_op a t m = (a', Inl e) \<Longrightarrow> a' = a"
    and open_seq: "open_op b t p = (b', Inr m) \<Longrightarrow>
      rx_floor b \<le> seqno p \<and> rx_floor b' = Suc (seqno p)"
    and open_fails: "open_op b t p = (b', Inl e) \<Longrightarrow> b' = b"
begin

lemma delivered:
  "linked a b \<Longrightarrow> snd (batch seal_op a msgs) = map Inr ps \<Longrightarrow>
   snd (batch open_op b (nths (zip (map fst msgs) ps) I)) = map Inr (nths (map snd msgs) I)"
proof (induction msgs arbitrary: a b ps I)
  case Nil
  then show ?case by simp
next
  case (Cons tm msgs)
  obtain t m where tm: "tm = (t, m)" by (cases tm)
  obtain a1 r where s1: "seal_op a t m = (a1, r)" by (cases "seal_op a t m")
  obtain p qs where ps: "ps = p # qs" and r: "r = Inr p"
    and qs: "snd (batch seal_op a1 msgs) = map Inr qs"
    using Cons.prems(2) by (auto simp: tm s1 map_eq_Cons_conv)
  obtain b1 where o: "open_op b t p = (b1, Inr m)" and l1: "linked a1 b1"
    using seal_open [OF Cons.prems(1)] s1 r by blast
  have l0: "linked a1 b" using seal_linked [OF Cons.prems(1)] s1 r by blast
  show ?case
    using Cons.IH [OF l1 qs] Cons.IH [OF l0 qs]
    by (simp add: tm ps nths_Cons o)
qed

lemma sealed_numbers:
  "map seqno (sealed_ok (snd (batch seal_op a msgs))) =
     [next_seq a ..< next_seq (fst (batch seal_op a msgs))] \<and>
   next_seq a \<le> next_seq (fst (batch seal_op a msgs))"
proof (induction msgs arbitrary: a)
  case Nil
  then show ?case by (simp add: sealed_ok_def List.map_filter_simps)
next
  case (Cons tm msgs)
  obtain t m where tm: "tm = (t, m)" by (cases tm)
  obtain a1 r where s1: "seal_op a t m = (a1, r)" by (cases "seal_op a t m")
  show ?case
  proof (cases r)
    case (Inl e)
    then show ?thesis
      using Cons.IH [of a] seal_fails [of a t m a1 e] s1
      by (simp add: tm sealed_ok_def List.map_filter_simps)
  next
    case (Inr p)
    then show ?thesis
      using Cons.IH [of a1] seal_seq [of a t m a1 p] s1
      by (simp add: tm sealed_ok_def List.map_filter_simps upt_conv_Cons)
  qed
qed

lemma accepted_numbers:
  "sorted_wrt (<) (map seqno (accepted ps (snd (batch open_op b ps)))) \<and>
   (\<forall>p \<in> set (accepted ps (snd (batch open_op b ps))). rx_floor b \<le> seqno p)"
proof (induction ps arbitrary: b)
  case Nil
  then show ?case by (simp add: accepted_def)
next
  case (Cons tp ps)
  obtain t p where tp: "tp = (t, p)" by (cases tp)
  obtain b1 r where o: "open_op b t p = (b1, r)" by (cases "open_op b t p")
  show ?case
  proof (cases r)
    case (Inl e)
    then show ?thesis
      using Cons.IH [of b] open_fails [of b t p b1 e] o
      by (simp add: tp accepted_def)
  next
    case (Inr m)
    have seq: "rx_floor b \<le> seqno p" "rx_floor b1 = Suc (seqno p)"
      using open_seq [of b t p b1 m] o Inr by simp_all
    then show ?thesis
      using Cons.IH [of b1] o Inr
      by (auto simp: tp accepted_def)
  qed
qed

end

section \<open>The AEAD channel meets the interface\<close>

definition frame_counter :: "bytes \<Rightarrow> nat" where
  "frame_counter payload = unat (u64_from_le_bytes (take 8 payload))"

definition rx_floor :: "AeadChannel \<Rightarrow> nat" where
  "rx_floor ch = (if seen_any (rx ch) then Suc (unat (dir_ctr (rx ch))) else 0)"

definition linked :: "deps \<Rightarrow> AeadChannel \<Rightarrow> AeadChannel \<Rightarrow> bool" where
  "linked d a b \<longleftrightarrow>
     aead_correct d \<and> dir_key (tx a) = dir_key (rx b) \<and> rx_floor b \<le> unat (dir_ctr (tx a))"

lemma seal_Inr_iff:
  "AeadChannel_seal d ch ty m = (ch', Inr p) \<longleftrightarrow>
   (\<exists>ct. chacha_encrypt d (dir_key (tx ch)) (nonce_for (dir_ctr (tx ch))) (aad_for ty) m = Some ct \<and>
      unat (dir_ctr (tx ch)) + 1 < 2 ^ 64 \<and>
      p = u64_to_le_bytes (dir_ctr (tx ch)) @ ct \<and>
      ch' = ch\<lparr> tx := (tx ch)\<lparr> dir_ctr := dir_ctr (tx ch) + 1 \<rparr> \<rparr>)"
  by (auto simp: AeadChannel_seal_def Let_def checked_add_one_u64 split: option.splits)

lemma seal_Inl: "AeadChannel_seal d ch ty m = (ch', Inl e) \<Longrightarrow> ch' = ch \<and> e = Crypto"
  by (auto simp: AeadChannel_seal_def Let_def split: option.splits)

lemma open_Inr_iff:
  "AeadChannel_open d ch ty p = (ch', Inr m) \<longleftrightarrow>
   8 \<le> length p \<and> rx_floor ch \<le> frame_counter p \<and>
   chacha_decrypt d (dir_key (rx ch)) (nonce_for (u64_from_le_bytes (take 8 p))) (aad_for ty)
     (drop 8 p) = Some m \<and>
   ch' = ch\<lparr> rx := (rx ch)\<lparr> dir_ctr := u64_from_le_bytes (take 8 p), seen_any := True \<rparr> \<rparr>"
  by (auto simp: AeadChannel_open_def Let_def rx_floor_def frame_counter_def word_le_nat_alt
      split: option.splits if_splits)

lemma open_Inl: "AeadChannel_open d ch ty p = (ch', Inl e) \<Longrightarrow> ch' = ch \<and> e = Crypto"
  by (auto simp: AeadChannel_open_def Let_def split: option.splits if_splits)

lemma unat_succ_u64: "unat (w :: u64) + 1 < 2 ^ 64 \<Longrightarrow> unat (w + 1) = Suc (unat w)"
  using checked_add_Some [of w 1 "w + 1"] by (simp add: checked_add_def)

lemma frame_counter_sealed [simp]:
  "frame_counter (u64_to_le_bytes c @ ct) = unat c"
  by (simp add: frame_counter_def)

interpretation chan: ordered_channel
  "AeadChannel_seal d" "AeadChannel_open d" "linked d"
  "\<lambda>ch. unat (dir_ctr (tx ch))" rx_floor frame_counter for d :: deps
proof unfold_locales
  fix a b a' :: AeadChannel and t m p
  assume l: "linked d a b" and s: "AeadChannel_seal d a t m = (a', Inr p)"
  then show "linked d a' b"
    by (auto simp: linked_def seal_Inr_iff unat_succ_u64)
  obtain ct where ct: "chacha_encrypt d (dir_key (tx a)) (nonce_for (dir_ctr (tx a))) (aad_for t) m = Some ct"
    and lim: "unat (dir_ctr (tx a)) + 1 < 2 ^ 64"
    and p: "p = u64_to_le_bytes (dir_ctr (tx a)) @ ct"
    and a': "a' = a\<lparr> tx := (tx a)\<lparr> dir_ctr := dir_ctr (tx a) + 1 \<rparr> \<rparr>"
    using s by (auto simp: seal_Inr_iff)
  have "AeadChannel_open d b t p =
    (b\<lparr> rx := (rx b)\<lparr> dir_ctr := dir_ctr (tx a), seen_any := True \<rparr> \<rparr>, Inr m)"
    using l by (auto simp: open_Inr_iff linked_def p dest: aead_correctD [OF _ ct])
  then show "\<exists>b'. AeadChannel_open d b t p = (b', Inr m) \<and> linked d a' b'"
    using l lim by (auto simp: linked_def a' rx_floor_def unat_succ_u64)
next
  fix a a' :: AeadChannel and t m p
  assume "AeadChannel_seal d a t m = (a', Inr p)"
  then show "frame_counter p = unat (dir_ctr (tx a)) \<and>
    unat (dir_ctr (tx a')) = Suc (unat (dir_ctr (tx a)))"
    by (auto simp: seal_Inr_iff unat_succ_u64)
next
  fix b b' :: AeadChannel and t p m
  assume "AeadChannel_open d b t p = (b', Inr m)"
  then show "rx_floor b \<le> frame_counter p \<and> rx_floor b' = Suc (frame_counter p)"
    by (auto simp: open_Inr_iff rx_floor_def [of b'] frame_counter_def rx_floor_def)
qed (auto dest: seal_Inl open_Inl)

text \<open>What a sealed frame holds: its counter, and the encryption under the nonce of that counter.\<close>

definition nonce_of :: "bytes \<Rightarrow> bytes" where
  "nonce_of p = nonce_for (u64_from_le_bytes (take 8 p))"

lemma sealed_under_own_nonce:
  "list_all2 (\<lambda>(ty, m) p. chacha_encrypt d (dir_key (tx ch)) (nonce_of p) (aad_for ty) m = Some (drop 8 p))
     (oks (zip msgs (snd (batch (AeadChannel_seal d) ch msgs)))) (sealed_ok (snd (batch (AeadChannel_seal d) ch msgs)))"
proof (induction msgs arbitrary: ch)
  case Nil
  then show ?case by (simp add: sealed_ok_def List.map_filter_simps)
next
  case (Cons tm msgs)
  obtain t m where tm: "tm = (t, m)" by (cases tm)
  obtain ch1 r where s: "AeadChannel_seal d ch t m = (ch1, r)" by (cases "AeadChannel_seal d ch t m")
  show ?case
  proof (cases r)
    case (Inl e)
    then show ?thesis
      using Cons.IH [of ch] seal_Inl [of d ch t m ch1 e] s by (simp add: tm sealed_ok_def List.map_filter_simps)
  next
    case (Inr p)
    then show ?thesis
      using Cons.IH [of ch1] s [unfolded Inr seal_Inr_iff]
      by (auto simp: tm batch_Cons [of "AeadChannel_seal d", OF s] sealed_ok_def List.map_filter_simps nonce_of_def)
  qed
qed

section \<open>The emoji code\<close>

lemma length_SAS_EMOJI [simp]: "length SAS_EMOJI = 64"
  by (simp add: SAS_EMOJI_def)

lemma distinct_SAS_EMOJI: "distinct SAS_EMOJI"
  by (simp add: SAS_EMOJI_def)

lemma sas_index_nat: "sas_index w n = unat w div 2 ^ n mod 64"
proof -
  have "and (drop_bit n w) 63 = take_bit 6 (drop_bit n w)"
    by (simp add: take_bit_eq_mask mask_eq_exp_minus_1)
  then have "unat (and (drop_bit n w) 63) = take_bit 6 (drop_bit n (unat w))"
    using unat_bound [of w]
    by (simp add: unsigned_take_bit_eq unsigned_drop_bit_eq take_bit_nat_eq_self)
  then show ?thesis by (simp add: sas_index_def take_bit_eq_mod drop_bit_eq_div)
qed

lemma sas_index_less: "sas_index w n < 64"
  by (simp add: sas_index_nat)

lemma base64_digits:
  fixes x y :: nat
  assumes "x < 64 ^ 4" "y < 64 ^ 4"
    and "x div 64 ^ 3 mod 64 = y div 64 ^ 3 mod 64" "x div 64 ^ 2 mod 64 = y div 64 ^ 2 mod 64"
    and "x div 64 mod 64 = y div 64 mod 64" "x mod 64 = y mod 64"
  shows "x = y"
proof -
  have r: "z = (((z div 64 ^ 3 mod 64) * 64 + z div 64 ^ 2 mod 64) * 64 + z div 64 mod 64) * 64
      + z mod 64" if "z < 64 ^ 4" for z :: nat
  proof -
    have "z div 64 ^ 3 < 64" using that by (simp add: div_less_iff_less_mult)
    moreover have "z div 64 ^ 2 = z div 64 ^ 3 * 64 + z div 64 ^ 2 mod 64"
      using div_mult_mod_eq [of "z div 64 ^ 2" 64] by (simp add: div_mult2_eq [symmetric])
    moreover have "z div 64 = z div 64 ^ 2 * 64 + z div 64 mod 64"
      using div_mult_mod_eq [of "z div 64" 64] by (simp add: div_mult2_eq [symmetric])
    moreover have "z = z div 64 * 64 + z mod 64" by simp
    ultimately show ?thesis by (metis mod_less)
  qed
  from r [OF assms(1)] r [OF assms(2)] assms(3-6) show ?thesis by metis
qed

section \<open>Facts the protocol theories use\<close>

lemma verify_mac_iff:
  "fixed_widths d \<Longrightarrow> verify_mac d key msg tag \<longleftrightarrow> tag = keyed_mac d key msg"
  by (auto simp: verify_mac_def keyed_mac_def fixed_widthsD)

lemma verify_macD: "verify_mac d key msg tag \<Longrightarrow> tag = keyed_mac d key msg"
  by (simp add: verify_mac_def keyed_mac_def split: if_splits)

lemma length_device_id [simp]:
  "fixed_widths d \<Longrightarrow> length (device_bytes (device_id_from_pk d pk)) = 16"
  by (simp add: device_id_from_pk_def fixed_widthsD)

lemma derive_session_keys_ok:
  "hkdf_expands d \<Longrightarrow> \<exists>k. derive_session_keys d a b c i j = Inr k"
  using hkdf_expandsD [of d 32 _ _ "as_bytes (lit ''p2c'')"]
    hkdf_expandsD [of d 32 _ _ "as_bytes (lit ''c2p'')"]
  by (simp add: derive_session_keys_def Let_def) (metis ok_or_simps(2) try_r_simps(2))

text \<open>The three shared secrets of the handshake, computed from either side.\<close>

lemma shared_secrets:
  assumes "dh_agrees d" "length a = 32" "length b = 32"
  shows "IdentityKeypair_dh d (IdentityKeypair_from_seed d a) (id_public (IdentityKeypair_from_seed d b)) =
      IdentityKeypair_dh d (IdentityKeypair_from_seed d b) (id_public (IdentityKeypair_from_seed d a))"
    "EphemeralKeypair_dh d (EphemeralKeypair_from_seed d a) (eph_public (EphemeralKeypair_from_seed d b)) =
      EphemeralKeypair_dh d (EphemeralKeypair_from_seed d b) (eph_public (EphemeralKeypair_from_seed d a))"
    "EphemeralKeypair_dh d (EphemeralKeypair_from_seed d a) (id_public (IdentityKeypair_from_seed d b)) =
      IdentityKeypair_dh d (IdentityKeypair_from_seed d b) (eph_public (EphemeralKeypair_from_seed d a))"
  using dh_agreesD [OF assms]
  by (simp_all add: IdentityKeypair_dh_def EphemeralKeypair_dh_def IdentityKeypair_from_seed_def
      EphemeralKeypair_from_seed_def)

lemma length_from_seed [simp]:
  assumes "fixed_widths d"
  shows "length (id_public (IdentityKeypair_from_seed d a)) = 32"
    "length (eph_public (EphemeralKeypair_from_seed d a)) = 32"
  using assms by (simp_all add: IdentityKeypair_from_seed_def EphemeralKeypair_from_seed_def fixed_widthsD)

lemma length_keyed_mac [simp]: "fixed_widths d \<Longrightarrow> length (keyed_mac d k m) = 32"
  by (simp add: keyed_mac_def fixed_widthsD)

lemma linked_fresh: "aead_correct d \<Longrightarrow> linked d (AeadChannel_new k l) (AeadChannel_new l k)"
  by (simp add: linked_def AeadChannel_new_def rx_floor_def)

section \<open>Properties\<close>

text \<open>
  The sealed channel delivers. Whatever batch of messages the sender seals, and
  whichever of the sealed frames the network lets through in order (the index set chosen
  freely), the receiver opens every frame that arrives and gets exactly the plaintexts
  sealed at those positions, under their frame types.
\<close>

theorem sealed_messages_delivered:
  assumes "linked d a b"
    and "snd (batch (AeadChannel_seal d) a msgs) = map Inr ps"
  shows "snd (batch (AeadChannel_open d) b (nths (zip (map fst msgs) ps) I)) =
    map Inr (nths (map snd msgs) I)"
  using assms by (rule chan.delivered)

theorem sealed_messages_delivered_witness:
  "\<exists>ps. snd (batch (AeadChannel_seal demo_deps) (AeadChannel_new [1] [2])
        [(Ping, [10]), (ClipPush, [20]), (Pong, [30])]) = map Inr ps \<and>
     snd (batch (AeadChannel_open demo_deps) (AeadChannel_new [2] [1])
        (nths (zip [Ping, ClipPush, Pong] ps) {0, 2})) = [Inr [10], Inr [30]]"
proof -
  let ?a = "AeadChannel_new [1] [2]" and ?b = "AeadChannel_new [2] [1]"
  have l: "linked demo_deps ?a ?b" by (rule linked_fresh) (rule deps_okD [OF demo_deps_ok])
  obtain ps where ps: "snd (batch (AeadChannel_seal demo_deps) ?a
      [(Ping, [10]), (ClipPush, [20]), (Pong, [30])]) = map Inr ps"
    by (rule that [of "[_, _, _]"])
      (simp add: batch.simps(2) AeadChannel_seal_def AeadChannel_new_def demo_deps_def checked_add_def)
  then have "snd (batch (AeadChannel_open demo_deps) ?b (nths (zip [Ping, ClipPush, Pong] ps) {0, 2})) =
      [Inr [10], Inr [30]]"
    using sealed_messages_delivered [OF l ps, of "{0, 2}"] by (simp add: nths_Cons)
  with ps show ?thesis by blast
qed

text \<open>
  Anti-replay. Feed a receiving channel any frames at all, in any order and with any
  repetitions, with no assumption on the cipher: the counters of the frames it accepts are
  strictly increasing, so no frame is accepted twice and none after a later one; a rejected
  frame leaves the channel exactly as it was.
\<close>

theorem accepted_counters_increase:
  "sorted_wrt (<) (map frame_counter (accepted ps (snd (batch (AeadChannel_open d) ch ps)))) \<and>
   distinct (accepted ps (snd (batch (AeadChannel_open d) ch ps))) \<and>
   (case AeadChannel_open d ch ty p of
      (ch', Inl e) \<Rightarrow> ch' = ch \<and> e = Crypto
    | (ch', Inr m) \<Rightarrow> tx ch' = tx ch \<and> dir_key (rx ch') = dir_key (rx ch))"
proof -
  have s: "sorted_wrt (<) (map frame_counter (accepted ps (snd (batch (AeadChannel_open d) ch ps))))"
    using chan.accepted_numbers by blast
  then have "distinct (accepted ps (snd (batch (AeadChannel_open d) ch ps)))"
    using distinct_map strict_sorted_iff by blast
  with s show ?thesis
    by (auto simp: open_Inr_iff dest: open_Inl split: prod.split sum.split)
qed

text \<open>
  C22: No nonce is used for two frames. Over any batch of seal calls, failed ones included,
  the frames produced carry consecutive counters starting at the channel's own; each frame's
  ciphertext is the cipher's output for its message under the channel's one key and the nonce
  built from the frame's counter; these nonces are pairwise different; and at the last counter
  value sealing fails instead of wrapping around.
\<close>

theorem nonces_never_repeat:
  "(let (ch', rs) = batch (AeadChannel_seal d) ch msgs in
      map frame_counter (sealed_ok rs) = [unat (dir_ctr (tx ch)) ..< unat (dir_ctr (tx ch'))] \<and>
      distinct (map (\<lambda>p. nonce_for (u64_from_le_bytes (take 8 p))) (sealed_ok rs)) \<and>
      list_all2 (\<lambda>(ty, m) p. chacha_encrypt d (dir_key (tx ch)) (nonce_for (u64_from_le_bytes (take 8 p))) (aad_for ty) m =
        Some (drop 8 p)) (oks (zip msgs rs)) (sealed_ok rs)) \<and>
   (let full = ch\<lparr> tx := (tx ch)\<lparr> dir_ctr := - 1 \<rparr> \<rparr> in
      AeadChannel_seal d full ty m = (full, Inl Crypto))"
proof -
  let ?ps = "sealed_ok (snd (batch (AeadChannel_seal d) ch msgs))"
  have n: "map frame_counter ?ps =
      [unat (dir_ctr (tx ch)) ..< unat (dir_ctr (tx (fst (batch (AeadChannel_seal d) ch msgs))))]"
    using chan.sealed_numbers by blast
  then have "distinct (map (unat \<circ> (\<lambda>p. u64_from_le_bytes (take 8 p))) ?ps)"
    by (metis (mono_tags, lifting) comp_apply distinct_upt frame_counter_def map_eq_conv)
  then have "distinct (map (\<lambda>p. nonce_for (u64_from_le_bytes (take 8 p))) ?ps)"
    by (auto simp: distinct_map nonce_for_def inj_on_def)
  with n sealed_under_own_nonce [of d ch msgs, unfolded nonce_of_def] show ?thesis
    by (simp add: case_prod_unfold Let_def AeadChannel_seal_def checked_add_def
        unsigned_minus_1_eq_mask mask_eq_exp_minus_1 split: option.split)
qed

text \<open>
  The emoji code shows exactly the top 24 bits of the digest: it is four glyphs of
  the table, and two digests display the same code if and only if they agree on those bits.
\<close>

theorem sas_emoji_shows_top_bits:
  "length (sas_emoji w) = 4 \<and> set (sas_emoji w) \<subseteq> set SAS_EMOJI \<and>
   (sas_emoji v = sas_emoji w \<longleftrightarrow> drop_bit 8 v = drop_bit 8 w)"
proof -
  have idx: "SAS_EMOJI ! i = SAS_EMOJI ! j \<longleftrightarrow> i = j" if "i < 64" "j < 64" for i j
    using that nth_eq_iff_index_eq [OF distinct_SAS_EMOJI] by simp
  have "sas_emoji v = sas_emoji w \<longleftrightarrow>
      sas_index v 26 = sas_index w 26 \<and> sas_index v 20 = sas_index w 20 \<and>
      sas_index v 14 = sas_index w 14 \<and> sas_index v 8 = sas_index w 8"
    by (simp add: sas_emoji_def idx sas_index_less)
  also have "\<dots> \<longleftrightarrow> unat v div 256 = unat w div 256"
  proof
    assume "unat v div 256 = unat w div 256"
    moreover have "x div 2 ^ 26 = x div 256 div 2 ^ 18" "x div 2 ^ 20 = x div 256 div 2 ^ 12"
      "x div 2 ^ 14 = x div 256 div 2 ^ 6" for x :: nat
      by (simp_all add: div_mult2_eq [symmetric])
    ultimately show "sas_index v 26 = sas_index w 26 \<and> sas_index v 20 = sas_index w 20 \<and>
      sas_index v 14 = sas_index w 14 \<and> sas_index v 8 = sas_index w 8"
      by (simp add: sas_index_nat)
  next
    assume "sas_index v 26 = sas_index w 26 \<and> sas_index v 20 = sas_index w 20 \<and>
      sas_index v 14 = sas_index w 14 \<and> sas_index v 8 = sas_index w 8"
    then show "unat v div 256 = unat w div 256"
      using base64_digits [of "unat v div 256" "unat w div 256"] unat_bound [of v] unat_bound [of w]
      by (simp add: sas_index_nat div_mult2_eq [symmetric] div_less_iff_less_mult)
  qed
  also have "\<dots> \<longleftrightarrow> drop_bit 8 v = drop_bit 8 w"
  proof -
    have "unat (drop_bit 8 x) = unat x div 256" for x :: u32
      by (subst unat_drop_bit_eq) (simp add: drop_bit_eq_div)
    then show ?thesis by (simp add: word_unat_eq_iff)
  qed
  finally show ?thesis by (simp add: sas_emoji_def sas_index_less)
qed

end
