(* ===== verification/Stage.thy ===== *)
theory Stage
  imports Core
begin

text \<open>
  The staged-clip ring of the PC role (\<open>stage.rs\<close>): a bounded queue of local copies the
  phone can list and fetch, and the one-line preview the list shows. A push keeps the most
  recent \<open>depth\<close> clips; the interface \<open>bounded_ring\<close> states this once for any container of
  that kind and is interpreted on the ring.
\<close>

section \<open>Data\<close>

definition PREVIEW_CHARS :: nat where "PREVIEW_CHARS = 120"

record StagedClip =
  sc_stage_id :: bytes
  sc_content_type :: ContentType
  sc_body :: bytes
  sc_copied_at_ms :: u64

record StageMeta =
  sm_stage_id :: bytes
  sm_content_type :: ContentType
  sm_preview :: rstr
  sm_size :: u32
  sm_copied_at_ms :: u64

record StageRing =
  ring_items :: "StagedClip list"
  ring_depth :: nat

section \<open>Operations\<close>

definition StageRing_new :: "nat \<Rightarrow> StageRing" where
  "StageRing_new depth = \<lparr> ring_items = [], ring_depth = max depth 1 \<rparr>"

definition StageRing_default :: StageRing where
  "StageRing_default = StageRing_new STAGE_DEPTH"

definition StageRing_push_with_id ::
  "StageRing \<Rightarrow> bytes \<Rightarrow> ContentType \<Rightarrow> bytes \<Rightarrow> u64 \<Rightarrow> StageRing \<times> unit result" where
  "StageRing_push_with_id r stage_id content_type body now_ms =
     (if length body > MAX_TEXT_CLIP then (r, Inl (FrameTooLarge (of_nat (length body))))
      else
        let items = (if length (ring_items r) = ring_depth r then drop 1 (ring_items r)
                     else ring_items r)
        in (r\<lparr> ring_items := items @
                 [\<lparr> sc_stage_id = stage_id, sc_content_type = content_type, sc_body = body,
                    sc_copied_at_ms = now_ms \<rparr>] \<rparr>,
            Inr ()))"

definition StageRing_push ::
  "StageRing \<Rightarrow> ContentType \<Rightarrow> bytes \<Rightarrow> u64 \<Rightarrow> bytes option \<Rightarrow> StageRing \<times> bytes result" where
  "StageRing_push r content_type body now_ms rnd =
     (if length body > MAX_TEXT_CLIP then (r, Inl (FrameTooLarge (of_nat (length body))))
      else case rnd of
             None \<Rightarrow> (r, Inl Crypto)
           | Some stage_id \<Rightarrow>
               (case StageRing_push_with_id r stage_id content_type body now_ms of
                  (r', Inl e) \<Rightarrow> (r', Inl e)
                | (r', Inr u) \<Rightarrow> (r', Inr stage_id)))"

definition one_line :: "rchar \<Rightarrow> rchar" where
  "one_line ch = (if ch = 10 \<or> ch = 13 then 32 else ch)"

text \<open>The loop of \<open>preview_of\<close>: character index, characters left, output so far.\<close>

fun preview_loop :: "nat \<Rightarrow> rstr \<Rightarrow> rstr \<Rightarrow> rstr" where
  "preview_loop i [] out = out"
| "preview_loop i (ch # chs) out =
     (if i = PREVIEW_CHARS then out else preview_loop (Suc i) chs (out @ [one_line ch]))"

definition preview_of :: "bytes \<Rightarrow> rstr" where
  "preview_of body = preview_loop 0 (from_utf8_lossy body) []"

definition meta_of :: "StagedClip \<Rightarrow> StageMeta" where
  "meta_of c =
     \<lparr> sm_stage_id = sc_stage_id c, sm_content_type = sc_content_type c,
       sm_preview = preview_of (sc_body c), sm_size = of_nat (length (sc_body c)),
       sm_copied_at_ms = sc_copied_at_ms c \<rparr>"

definition StageRing_list :: "StageRing \<Rightarrow> StageMeta list" where
  "StageRing_list r = map meta_of (rev (ring_items r))"

definition StageRing_get :: "StageRing \<Rightarrow> bytes \<Rightarrow> StagedClip option" where
  "StageRing_get r stage_id = find (\<lambda>c. sc_stage_id c = stage_id) (ring_items r)"

definition StageRing_newest :: "StageRing \<Rightarrow> StagedClip option" where
  "StageRing_newest r = (if ring_items r = [] then None else Some (last (ring_items r)))"

definition StageRing_clear :: "StageRing \<Rightarrow> StageRing" where
  "StageRing_clear r = r\<lparr> ring_items := [] \<rparr>"

definition StageRing_len :: "StageRing \<Rightarrow> nat" where
  "StageRing_len r = length (ring_items r)"

definition StageRing_depth :: "StageRing \<Rightarrow> nat" where
  "StageRing_depth r = ring_depth r"

definition StageRing_is_empty :: "StageRing \<Rightarrow> bool" where
  "StageRing_is_empty r \<longleftrightarrow> ring_items r = []"

section \<open>Bounded rings\<close>

text \<open>
  A container that turns some elements away and otherwise keeps the last \<open>cap\<close> of what was
  pushed; the laws are about one push, the lemma about any history of pushes.
\<close>

locale bounded_ring =
  fixes push :: "'r \<Rightarrow> 'x \<Rightarrow> 'r"
    and contents :: "'r \<Rightarrow> 'x list"
    and cap :: "'r \<Rightarrow> nat"
    and ok :: "'x \<Rightarrow> bool"
    and inv :: "'r \<Rightarrow> bool"
  assumes push_ok: "inv r \<Longrightarrow> ok x \<Longrightarrow> contents (push r x) = last_n (cap r) (contents r @ [x])"
    and push_refused: "inv r \<Longrightarrow> \<not> ok x \<Longrightarrow> push r x = r"
    and push_cap: "inv r \<Longrightarrow> cap (push r x) = cap r"
    and push_inv: "inv r \<Longrightarrow> inv (push r x)"
    and inv_bound: "inv r \<Longrightarrow> 0 < cap r \<and> length (contents r) \<le> cap r"
begin

lemma history:
  "inv r \<Longrightarrow> contents (fold (\<lambda>x r. push r x) xs r) = last_n (cap r) (contents r @ filter ok xs) \<and>
     inv (fold (\<lambda>x r. push r x) xs r) \<and> cap (fold (\<lambda>x r. push r x) xs r) = cap r"
proof (induction xs arbitrary: r)
  case Nil
  then show ?case using inv_bound by (simp add: last_n_all)
next
  case (Cons x xs)
  have "last_n (cap r) (last_n (cap r) (contents r @ [x]) @ filter ok xs) =
      last_n (cap r) ((contents r @ [x]) @ filter ok xs)"
    by (simp only: last_n_last_n)
  then show ?case
    using Cons.IH [OF push_inv [OF Cons.prems, of x]] Cons.prems
    by (cases "ok x") (simp_all add: push_ok push_cap push_refused)
qed

end

definition ring_inv :: "StageRing \<Rightarrow> bool" where
  "ring_inv r \<longleftrightarrow> 0 < ring_depth r \<and> length (ring_items r) \<le> ring_depth r \<and>
     (\<forall>c \<in> set (ring_items r). length (sc_body c) \<le> MAX_TEXT_CLIP)"

text \<open>A push attempt, as the clip it would stage; \<open>accepts\<close> is the size guard.\<close>

definition push_clip_attempt :: "StageRing \<Rightarrow> StagedClip \<Rightarrow> StageRing" where
  "push_clip_attempt r c =
     fst (StageRing_push_with_id r (sc_stage_id c) (sc_content_type c) (sc_body c)
            (sc_copied_at_ms c))"

definition accepts :: "StagedClip \<Rightarrow> bool" where
  "accepts c \<longleftrightarrow> length (sc_body c) \<le> MAX_TEXT_CLIP"

interpretation ring: bounded_ring push_clip_attempt ring_items ring_depth accepts ring_inv
proof unfold_locales
  fix r c
  assume inv: "ring_inv r"
  show "ring_items (push_clip_attempt r c) = last_n (ring_depth r) (ring_items r @ [c])"
    if "accepts c"
    using inv that
    by (auto simp: push_clip_attempt_def StageRing_push_with_id_def accepts_def ring_inv_def
        Let_def last_n_def drop_Suc Suc_diff_le)
  show "push_clip_attempt r c = r" if "\<not> accepts c"
    using that by (simp add: push_clip_attempt_def StageRing_push_with_id_def accepts_def)
  show "ring_depth (push_clip_attempt r c) = ring_depth r"
    by (simp add: push_clip_attempt_def StageRing_push_with_id_def Let_def)
  show "ring_inv (push_clip_attempt r c)"
    using inv
    by (auto simp: push_clip_attempt_def StageRing_push_with_id_def ring_inv_def Let_def
        dest: in_set_dropD)
qed (simp add: ring_inv_def)

lemma ring_inv_new: "ring_inv (StageRing_new n)"
  by (simp add: ring_inv_def StageRing_new_def)

lemma ring_inv_push:
  "ring_inv r \<Longrightarrow> ring_inv (fst (StageRing_push r ct body now rnd))"
  using ring.push_inv [of r "\<lparr> sc_stage_id = _, sc_content_type = ct, sc_body = body, sc_copied_at_ms = now \<rparr>"]
  by (auto simp: StageRing_push_def push_clip_attempt_def split: option.split prod.split sum.split)
    (metis fst_conv)+

lemma get_in: "StageRing_get r i = Some c \<Longrightarrow> c \<in> set (ring_items r) \<and> sc_stage_id c = i"
  by (auto simp: StageRing_get_def find_Some_iff)

lemma get_known:
  "c \<in> set (ring_items r) \<Longrightarrow> \<exists>c'. StageRing_get r (sc_stage_id c) = Some c'"
  by (cases "StageRing_get r (sc_stage_id c)") (auto simp: StageRing_get_def find_None_iff)

section \<open>Previews\<close>

lemma preview_loop_eq:
  "i \<le> PREVIEW_CHARS \<Longrightarrow>
     preview_loop i chs out = out @ map one_line (take (PREVIEW_CHARS - i) chs)"
proof (induction i chs out rule: preview_loop.induct)
  case (2 i ch chs out)
  then show ?case
    by (cases "i = PREVIEW_CHARS") (auto simp: Suc_diff_Suc [symmetric] le_neq_implies_less)
qed simp

lemma preview_of_eq: "preview_of body = map one_line (take PREVIEW_CHARS (from_utf8_lossy body))"
  by (simp add: preview_of_def preview_loop_eq)

lemma valid_one_line: "valid_char c \<Longrightarrow> valid_char (one_line c)"
  by (simp add: one_line_def valid_char_def)

lemma valid_preview: "valid_str (preview_of body)"
  using valid_from_utf8_lossy [of body]
  by (auto simp: preview_of_eq valid_str_def list_all_iff valid_one_line dest: in_set_takeD)

section \<open>Properties\<close>

text \<open>
  C28: The ring keeps the most recent copies. From a fresh ring and after any sequence of
  push attempts, it holds exactly the last \<open>depth\<close> (at least one) of the clips that were not
  over \<open>MAX_TEXT_CLIP\<close>, in order; the list the phone sees is their metadata, newest first,
  with the true sizes; the newest is the last accepted; and an identifier that is staged once
  fetches the clip it was staged with.
\<close>

theorem stage_keeps_newest:
  "let r = fold (\<lambda>c r. push_clip_attempt r c) clips (StageRing_new n);
       kept = last_n (max n 1) (filter accepts clips)
   in ring_items r = kept \<and>
      StageRing_list r = map meta_of (rev kept) \<and>
      map (unat \<circ> sm_size) (StageRing_list r) = rev (map (length \<circ> sc_body) kept) \<and>
      StageRing_newest r = (if filter accepts clips = [] then None
                            else Some (last (filter accepts clips))) \<and>
      (distinct (map sc_stage_id kept) \<longrightarrow>
         (\<forall>c \<in> set kept. StageRing_get r (sc_stage_id c) = Some c))"
proof -
  define r where "r = fold (\<lambda>c r. push_clip_attempt r c) clips (StageRing_new n)"
  define kept where "kept = last_n (max n 1) (filter accepts clips)"
  have items: "ring_items r = kept" and inv: "ring_inv r"
    using ring.history [OF ring_inv_new, of clips n]
    by (simp_all add: r_def kept_def StageRing_new_def)
  have small: "length (sc_body c) \<le> 262144" if "c \<in> set kept" for c
    using inv that by (auto simp: ring_inv_def items MAX_TEXT_CLIP_def)
  have get: "StageRing_get r (sc_stage_id c) = Some c"
    if "distinct (map sc_stage_id kept)" "c \<in> set kept" for c
  proof -
    have "c \<in> set (ring_items r)" using that items by simp
    then obtain c' where c': "StageRing_get r (sc_stage_id c) = Some c'" using get_known by blast
    with that show ?thesis using get_in [OF c'] items by (auto simp: distinct_map inj_on_def)
  qed
  have "kept = [] \<longleftrightarrow> filter accepts clips = []"
    by (simp add: kept_def min_def flip: length_0_conv)
  moreover have "last kept = last (filter accepts clips)" if "kept \<noteq> []"
    using that by (simp add: kept_def last_n_def)
  ultimately have "StageRing_newest r = (if filter accepts clips = [] then None
      else Some (last (filter accepts clips)))"
    by (simp add: StageRing_newest_def items)
  moreover have "map (unat \<circ> sm_size) (StageRing_list r) = rev (map (length \<circ> sc_body) kept)"
    using small by (simp add: StageRing_list_def items meta_of_def rev_map unat_of_nat comp_def)
      (fastforce intro: mod_less)
  ultimately show ?thesis
    unfolding Let_def r_def [symmetric] kept_def [symmetric]
    using items get by (simp add: StageRing_list_def)
qed

definition demo_clip :: "nat \<Rightarrow> StagedClip" where
  "demo_clip n = \<lparr> sc_stage_id = replicate 8 (of_nat n), sc_content_type = Text,
     sc_body = [72, 105], sc_copied_at_ms = 0 \<rparr>"

theorem stage_keeps_newest_witness:
  "StageRing_get (fold (\<lambda>c r. push_clip_attempt r c) (map demo_clip [1, 2, 3]) (StageRing_new 2))
     (sc_stage_id (demo_clip 3)) = Some (demo_clip 3)"
proof -
  have "filter accepts (map demo_clip [1, 2, 3]) = map demo_clip [1, 2, 3]"
    by (simp add: accepts_def demo_clip_def MAX_TEXT_CLIP_def)
  moreover have "last_n (max 2 1) (map demo_clip [1, 2, 3]) = [demo_clip 2, demo_clip 3]"
    by (simp add: last_n_def)
  moreover have "distinct (map sc_stage_id [demo_clip 2, demo_clip 3])"
    by (simp add: demo_clip_def replicate_eq_replicate)
  ultimately show ?thesis
    using stage_keeps_newest [of "map demo_clip [1, 2, 3]" 2] unfolding Let_def by auto
qed

text \<open>
  A preview is one line. For any body, valid UTF-8 or not, the preview is a well-formed
  string of at most 120 characters without line breaks, and for a body that encodes a text it
  is the beginning of that text with line breaks shown as spaces: no character is cut in half.
\<close>

theorem preview_is_one_line:
  "length (preview_of body) \<le> 120 \<and> valid_str (preview_of body) \<and>
   10 \<notin> set (preview_of body) \<and> 13 \<notin> set (preview_of body) \<and>
   (valid_str s \<longrightarrow> preview_of (as_bytes s) = map one_line (take 120 s))"
  by (auto simp: preview_of_eq PREVIEW_CHARS_def from_utf8_lossy_as_bytes one_line_def
      valid_preview [unfolded preview_of_eq PREVIEW_CHARS_def])

theorem preview_is_one_line_witness:
  "preview_of (as_bytes [72, 10, 105]) = [72, 32, 105]"
  using preview_is_one_line [of "[]" "[72, 10, 105]"]
  by (simp add: valid_str_def valid_char_def one_line_def)

end
