(* ===== verification/Session.thy ===== *)
theory Session
  imports CborMap Crypto Stage
begin

text \<open>
  The session state machine (\<open>session.rs\<close>): the HELLO handshake of both roles and the
  encrypted traffic after it. The code is sans-io: a handler takes a frame and the clock and
  returns actions for the transport driver. A handler here is a function from the session to
  the session it leaves and the list of those actions, in order; \<open>&mut self\<close> is the
  session passed and returned.

  Random bytes a handler draws are its last argument. Messages of \<open>Close\<close> are static strings.
\<close>

section \<open>Constants\<close>

definition HELLO_TS_WINDOW_MS :: u64 where "HELLO_TS_WINDOW_MS = 120000"
definition SESSION_IDLE_TIMEOUT_MS :: u64 where "SESSION_IDLE_TIMEOUT_MS = 60000"
definition PING_INTERVAL_MS :: u64 where "PING_INTERVAL_MS = 20000"

text \<open>The CBOR keys of module \<open>key\<close>.\<close>

datatype session_key =
    VERSION | INITIATOR_ID | EPH_PK_I | TS | HELLO_MAC
  | EPH_PK_R | ACK_MAC
  | CLIP_ID | CONTENT_TYPE | BODY | CREATED_AT | SOURCE_NAME
  | ACK_CLIP_ID | ACK_STATUS
  | STAGE_ITEMS | STAGE_ID | STAGE_META_ID | STAGE_META_TYPE | STAGE_META_PREVIEW
  | STAGE_META_SIZE | STAGE_META_COPIED_AT
  | ITEM_ID | ITEM_TYPE | ITEM_BODY
  | ERR_CODE | ERR_MSG

fun key :: "session_key \<Rightarrow> u64" where
  "key VERSION = 1"
| "key INITIATOR_ID = 2"
| "key EPH_PK_I = 3"
| "key TS = 4"
| "key HELLO_MAC = 5"
| "key EPH_PK_R = 1"
| "key ACK_MAC = 2"
| "key CLIP_ID = 1"
| "key CONTENT_TYPE = 2"
| "key BODY = 3"
| "key CREATED_AT = 4"
| "key SOURCE_NAME = 5"
| "key ACK_CLIP_ID = 1"
| "key ACK_STATUS = 2"
| "key STAGE_ITEMS = 1"
| "key STAGE_ID = 1"
| "key STAGE_META_ID = 1"
| "key STAGE_META_TYPE = 2"
| "key STAGE_META_PREVIEW = 3"
| "key STAGE_META_SIZE = 4"
| "key STAGE_META_COPIED_AT = 5"
| "key ITEM_ID = 1"
| "key ITEM_TYPE = 2"
| "key ITEM_BODY = 3"
| "key ERR_CODE = 1"
| "key ERR_MSG = 2"

section \<open>Data\<close>

record PeerKey =
  pk_device_id :: DeviceId
  pk_public_key :: bytes

datatype SessionEvent =
    EvEstablished DeviceId
  | ClipArrived bytes ContentType bytes rstr u64
  | ClipAcked bytes u8
  | StageListRequested
  | StageItemRequested bytes
  | EvStageList "StageMeta list"
  | EvStageItem bytes ContentType bytes
  | PeerError u16 rstr

datatype SessionAction =
    Send Frame
  | Emit SessionEvent
  | Close string

datatype State = AwaitingHelloAck | AwaitingHello | Established | Closed

record Session =
  sess_role :: Role
  sess_identity :: IdentityKeypair
  sess_state :: State
  known_peers :: "PeerKey list"
  sess_peer :: "PeerKey option"
  sess_eph :: "EphemeralKeypair option"
  sess_eph_pk_i :: "bytes option"
  channel :: "AeadChannel option"
  last_activity_ms :: u64
  paused :: bool

section \<open>Helpers\<close>

definition hello_mac_basis :: "deps \<Rightarrow> DeviceId \<Rightarrow> bytes \<Rightarrow> u64 \<Rightarrow> bytes result" where
  "hello_mac_basis d initiator eph_pk_i ts =
     MapBuilder_to_vec d (build_map
       [MapBuilder_u64 (key VERSION) (ucast PROTOCOL_VERSION),
        MapBuilder_bytes (key INITIATOR_ID) (device_bytes initiator),
        MapBuilder_bytes (key EPH_PK_I) eph_pk_i,
        MapBuilder_u64 (key TS) ts])"

text \<open>\<open>u8::try_from(ct)\<close> followed by \<open>ContentType::try_from\<close>, errors discarded.\<close>

definition content_type_of :: "u64 \<Rightarrow> ContentType option" where
  "content_type_of ct = (if unat ct < 256 then ok_r (ContentType_try_from (ucast ct)) else None)"

definition Session_fail :: "Session \<Rightarrow> string \<Rightarrow> Session \<times> SessionAction list" where
  "Session_fail s why = (s\<lparr> sess_state := Closed \<rparr>, [Close why])"

definition Session_wire_error ::
  "deps \<Rightarrow> Session \<Rightarrow> WireErrorCode \<Rightarrow> string \<Rightarrow> Session \<times> SessionAction list" where
  "Session_wire_error d s code msg =
     (let payload = unwrap_or (MapBuilder_to_vec d (build_map
            [MapBuilder_u64 (key ERR_CODE) (ucast (WireErrorCode_as_u16 code)),
             MapBuilder_text (key ERR_MSG) (lit msg)])) [];
          (ch', out) =
            (case channel s of
               None \<Rightarrow> (None, [])
             | Some ch \<Rightarrow>
                 (case AeadChannel_seal d ch ErrorFrame payload of
                    (ch1, Inr sealed) \<Rightarrow> (Some ch1, [Send (Frame_new ErrorFrame sealed)])
                  | (ch1, Inl e) \<Rightarrow> (Some ch1, [])))
      in (s\<lparr> channel := ch', sess_state := Closed \<rparr>, out @ [Close msg]))"

definition Session_seal_frame ::
  "deps \<Rightarrow> Session \<Rightarrow> FrameType \<Rightarrow> bytes \<Rightarrow> Session \<times> Frame result" where
  "Session_seal_frame d s ty plain =
     (case channel s of
        None \<Rightarrow> (s, Inl Crypto)
      | Some ch \<Rightarrow>
          (case AeadChannel_seal d ch ty plain of
             (ch', Inl e) \<Rightarrow> (s\<lparr> channel := Some ch' \<rparr>, Inl e)
           | (ch', Inr sealed) \<Rightarrow> (s\<lparr> channel := Some ch' \<rparr>, Inr (Frame_new ty sealed))))"

section \<open>Opening a session\<close>

definition start_phone_with_ephemeral ::
  "deps \<Rightarrow> IdentityKeypair \<Rightarrow> PeerKey \<Rightarrow> u64 \<Rightarrow> EphemeralKeypair \<Rightarrow> (Session \<times> Frame) result" where
  "start_phone_with_ephemeral d identity peer now_ms eph =
     (let ss_static = IdentityKeypair_dh d identity (pk_public_key peer);
          eph_pk_i = EphemeralKeypair_public_bytes eph
      in try_r (hello_mac_basis d (IdentityKeypair_device_id d identity) eph_pk_i now_ms) (\<lambda>basis.
         let mac = keyed_mac d ss_static basis in
         try_r (MapBuilder_to_vec d (build_map
             [MapBuilder_u64 (key VERSION) (ucast PROTOCOL_VERSION),
              MapBuilder_bytes (key INITIATOR_ID)
                (device_bytes (IdentityKeypair_device_id d identity)),
              MapBuilder_bytes (key EPH_PK_I) eph_pk_i,
              MapBuilder_u64 (key TS) now_ms,
              MapBuilder_bytes (key HELLO_MAC) mac])) (\<lambda>payload.
         Inr (\<lparr> sess_role = Phone, sess_identity = identity, sess_state = AwaitingHelloAck,
                known_peers = [peer], sess_peer = Some peer, sess_eph = Some eph,
                sess_eph_pk_i = Some eph_pk_i, channel = None, last_activity_ms = now_ms,
                paused = False \<rparr>,
              Frame_new Hello payload))))"

definition start_phone ::
  "deps \<Rightarrow> IdentityKeypair \<Rightarrow> PeerKey \<Rightarrow> u64 \<Rightarrow> bytes option \<Rightarrow> (Session \<times> Frame) result" where
  "start_phone d identity peer now_ms rnd =
     try_r (EphemeralKeypair_generate d rnd) (\<lambda>eph.
       start_phone_with_ephemeral d identity peer now_ms eph)"

definition Session_new_pc :: "IdentityKeypair \<Rightarrow> PeerKey list \<Rightarrow> u64 \<Rightarrow> Session" where
  "Session_new_pc identity peers now_ms =
     \<lparr> sess_role = Pc, sess_identity = identity, sess_state = AwaitingHello,
       known_peers = peers, sess_peer = None, sess_eph = None, sess_eph_pk_i = None,
       channel = None, last_activity_ms = now_ms, paused = False \<rparr>"

definition Session_role :: "Session \<Rightarrow> Role" where
  "Session_role s = sess_role s"

definition Session_peer :: "Session \<Rightarrow> DeviceId option" where
  "Session_peer s = map_option pk_device_id (sess_peer s)"

definition Session_is_established :: "Session \<Rightarrow> bool" where
  "Session_is_established s \<longleftrightarrow> sess_state s = Established"

definition Session_is_closed :: "Session \<Rightarrow> bool" where
  "Session_is_closed s \<longleftrightarrow> sess_state s = Closed"

definition Session_set_paused :: "Session \<Rightarrow> bool \<Rightarrow> Session" where
  "Session_set_paused s p = s\<lparr> paused := p \<rparr>"

definition Session_is_idle :: "Session \<Rightarrow> u64 \<Rightarrow> bool" where
  "Session_is_idle s now_ms \<longleftrightarrow>
     saturating_sub now_ms (last_activity_ms s) \<ge> SESSION_IDLE_TIMEOUT_MS"

section \<open>Handshake handlers\<close>

definition on_hello ::
  "deps \<Rightarrow> Session \<Rightarrow> Frame \<Rightarrow> u64 \<Rightarrow> bytes option \<Rightarrow> Session \<times> SessionAction list" where
  "on_hello d s frame now_ms rnd =
     (case MapReader_from_slice d (frame_payload frame) of
        Inl e \<Rightarrow> Session_fail s ''malformed HELLO''
      | Inr r \<Rightarrow>
     (case (ok_r (MapReader_u64 r (key VERSION)),
            ok_r (MapReader_byte_array 16 r (key INITIATOR_ID)),
            ok_r (MapReader_byte_array 32 r (key EPH_PK_I)),
            ok_r (MapReader_u64 r (key TS)),
            ok_r (MapReader_byte_array 32 r (key HELLO_MAC))) of
        (Some version, Some dev, Some eph_pk_i, Some ts, Some mac) \<Rightarrow>
          if version \<noteq> ucast PROTOCOL_VERSION
          then Session_wire_error d s UnsupportedVersion ''unsupported version''
          else if abs_diff ts now_ms > HELLO_TS_WINDOW_MS
          then Session_fail s ''HELLO timestamp outside replay window''
          else
            let initiator = DeviceId dev in
            (case find (\<lambda>p. pk_device_id p = initiator) (known_peers s) of
               None \<Rightarrow> Session_fail s ''HELLO from unpaired device''
             | Some peer \<Rightarrow>
                 let ss_static = IdentityKeypair_dh d (sess_identity s) (pk_public_key peer) in
                 (case hello_mac_basis d initiator eph_pk_i ts of
                    Inl e \<Rightarrow> Session_fail s ''failed to rebuild HELLO mac basis''
                  | Inr basis \<Rightarrow>
                      if \<not> verify_mac d ss_static basis mac
                      then Session_fail s ''HELLO mac mismatch''
                      else
                        (case EphemeralKeypair_generate d rnd of
                           Inl e \<Rightarrow> Session_fail s ''ephemeral keygen failed''
                         | Inr eph \<Rightarrow>
                             let eph_pk_r = EphemeralKeypair_public_bytes eph;
                                 ack_mac = keyed_mac d ss_static (eph_pk_r @ eph_pk_i);
                                 ss_ee = EphemeralKeypair_dh d eph eph_pk_i;
                                 ss_si = EphemeralKeypair_dh d eph (pk_public_key peer)
                             in (case derive_session_keys d ss_ee ss_si ss_static initiator
                                       (IdentityKeypair_device_id d (sess_identity s)) of
                                   Inl e \<Rightarrow> Session_fail s ''key derivation failed''
                                 | Inr keys \<Rightarrow>
                                     (case MapBuilder_to_vec d (build_map
                                         [MapBuilder_bytes (key EPH_PK_R) eph_pk_r,
                                          MapBuilder_bytes (key ACK_MAC) ack_mac]) of
                                        Inl e \<Rightarrow> Session_fail s ''failed to encode HELLO_ACK''
                                      | Inr payload \<Rightarrow>
                                          (s\<lparr> channel := Some (AeadChannel_new (sk_c2p keys) (sk_p2c keys)),
                                              sess_peer := Some peer, sess_eph := Some eph,
                                              sess_state := Established \<rparr>,
                                           [Send (Frame_new HelloAck payload),
                                            Emit (EvEstablished initiator)]))))))
      | _ \<Rightarrow> Session_fail s ''malformed HELLO fields''))"

definition on_hello_ack :: "deps \<Rightarrow> Session \<Rightarrow> Frame \<Rightarrow> Session \<times> SessionAction list" where
  "on_hello_ack d s frame =
     (case MapReader_from_slice d (frame_payload frame) of
        Inl e \<Rightarrow> Session_fail s ''malformed HELLO_ACK''
      | Inr r \<Rightarrow>
     (case (ok_r (MapReader_byte_array 32 r (key EPH_PK_R)),
            ok_r (MapReader_byte_array 32 r (key ACK_MAC))) of
        (Some eph_pk_r, Some mac) \<Rightarrow>
          (case (sess_peer s, sess_eph s, sess_eph_pk_i s) of
             (Some peer, Some eph, Some eph_pk_i) \<Rightarrow>
               let ss_static = IdentityKeypair_dh d (sess_identity s) (pk_public_key peer) in
               if \<not> verify_mac d ss_static (eph_pk_r @ eph_pk_i) mac
               then Session_fail s ''HELLO_ACK mac mismatch''
               else
                 let ss_ee = EphemeralKeypair_dh d eph eph_pk_r;
                     ss_si = IdentityKeypair_dh d (sess_identity s) eph_pk_r
                 in (case derive_session_keys d ss_ee ss_si ss_static
                           (IdentityKeypair_device_id d (sess_identity s)) (pk_device_id peer) of
                       Inl e \<Rightarrow> Session_fail s ''key derivation failed''
                     | Inr keys \<Rightarrow>
                         (s\<lparr> channel := Some (AeadChannel_new (sk_p2c keys) (sk_c2p keys)),
                             sess_state := Established \<rparr>,
                          [Emit (EvEstablished (pk_device_id peer))]))
           | _ \<Rightarrow> Session_fail s ''HELLO_ACK without pending handshake'')
      | _ \<Rightarrow> Session_fail s ''malformed HELLO_ACK fields''))"

section \<open>Handlers of decrypted payloads\<close>

definition on_clip_push :: "deps \<Rightarrow> Session \<Rightarrow> bytes \<Rightarrow> Session \<times> SessionAction list" where
  "on_clip_push d s plain =
     (case MapReader_from_slice d plain of
        Inl e \<Rightarrow> Session_fail s ''malformed CLIP_PUSH''
      | Inr r \<Rightarrow>
     (case (ok_r (MapReader_byte_array 8 r (key CLIP_ID)),
            ok_r (MapReader_u64 r (key CONTENT_TYPE)),
            ok_r (MapReader_bytes r (key BODY))) of
        (Some clip_id, Some ct, Some body) \<Rightarrow>
          let created_at_ms = unwrap_or (MapReader_u64 r (key CREATED_AT)) 0;
              source_name = unwrap_or (MapReader_text r (key SOURCE_NAME)) []
          in if paused s then Session_wire_error d s RateLimited ''beaming paused''
             else if length body > MAX_TEXT_CLIP
             then Session_wire_error d s WireFrameTooLarge ''clip exceeds MAX_TEXT_CLIP''
             else
               (case content_type_of ct of
                  None \<Rightarrow> Session_fail s ''unknown content type''
                | Some content_type \<Rightarrow>
                    (case MapBuilder_to_vec d (build_map
                        [MapBuilder_bytes (key ACK_CLIP_ID) clip_id,
                         MapBuilder_u64 (key ACK_STATUS) 0]) of
                       Inl e \<Rightarrow> Session_fail s ''failed to encode CLIP_ACK''
                     | Inr ack \<Rightarrow>
                         (case Session_seal_frame d s ClipAck ack of
                            (s', Inl e) \<Rightarrow> Session_fail s' ''failed to seal CLIP_ACK''
                          | (s', Inr ack_frame) \<Rightarrow>
                              (s', [Emit (ClipArrived clip_id content_type body source_name
                                            created_at_ms),
                                    Send ack_frame]))))
      | _ \<Rightarrow> Session_fail s ''malformed CLIP_PUSH fields''))"

definition on_clip_ack :: "deps \<Rightarrow> Session \<Rightarrow> bytes \<Rightarrow> Session \<times> SessionAction list" where
  "on_clip_ack d s plain =
     (case MapReader_from_slice d plain of
        Inl e \<Rightarrow> Session_fail s ''malformed CLIP_ACK''
      | Inr r \<Rightarrow>
     (case MapReader_byte_array 8 r (key ACK_CLIP_ID) of
        Inl e \<Rightarrow> Session_fail s ''malformed CLIP_ACK id''
      | Inr clip_id \<Rightarrow>
          (s, [Emit (ClipAcked clip_id (ucast (unwrap_or (MapReader_u64 r (key ACK_STATUS)) 0)))])))"

definition on_stage_get :: "deps \<Rightarrow> Session \<Rightarrow> bytes \<Rightarrow> Session \<times> SessionAction list" where
  "on_stage_get d s plain =
     (case MapReader_from_slice d plain of
        Inl e \<Rightarrow> Session_fail s ''malformed STAGE_GET''
      | Inr r \<Rightarrow>
     (case MapReader_byte_array 8 r (key STAGE_ID) of
        Inl e \<Rightarrow> Session_fail s ''malformed STAGE_GET id''
      | Inr stage_id \<Rightarrow> (s, [Emit (StageItemRequested stage_id)])))"

text \<open>The loop over the list entries: the collected metadata, or the reason to fail.\<close>

fun stage_entries :: "Value list \<Rightarrow> string + StageMeta list" where
  "stage_entries [] = Inr []"
| "stage_entries (v # vs) =
     (case MapReader_from_value v of
        Inl e \<Rightarrow> Inl ''malformed STAGE_LIST entry''
      | Inr m \<Rightarrow>
     (case (ok_r (MapReader_byte_array 8 m (key STAGE_META_ID)),
            ok_r (MapReader_u64 m (key STAGE_META_TYPE)),
            ok_r (MapReader_text m (key STAGE_META_PREVIEW)),
            ok_r (MapReader_u64 m (key STAGE_META_SIZE)),
            ok_r (MapReader_u64 m (key STAGE_META_COPIED_AT))) of
        (Some stage_id, Some ct, Some preview, Some sz, Some copied_at_ms) \<Rightarrow>
          (case content_type_of ct of
             None \<Rightarrow> Inl ''unknown content type in STAGE_LIST''
           | Some content_type \<Rightarrow>
               try_r (stage_entries vs) (\<lambda>out.
                 Inr (\<lparr> sm_stage_id = stage_id, sm_content_type = content_type,
                        sm_preview = preview, sm_size = ucast sz,
                        sm_copied_at_ms = copied_at_ms \<rparr> # out)))
      | _ \<Rightarrow> Inl ''malformed STAGE_LIST entry fields''))"

definition on_stage_list :: "deps \<Rightarrow> Session \<Rightarrow> bytes \<Rightarrow> Session \<times> SessionAction list" where
  "on_stage_list d s plain =
     (case MapReader_from_slice d plain of
        Inl e \<Rightarrow> Session_fail s ''malformed STAGE_LIST''
      | Inr r \<Rightarrow>
     (case MapReader_array r (key STAGE_ITEMS) of
        Inl e \<Rightarrow> Session_fail s ''malformed STAGE_LIST array''
      | Inr items \<Rightarrow>
          (case stage_entries items of
             Inl why \<Rightarrow> Session_fail s why
           | Inr out \<Rightarrow> (s, [Emit (EvStageList out)]))))"

definition on_stage_item :: "deps \<Rightarrow> Session \<Rightarrow> bytes \<Rightarrow> Session \<times> SessionAction list" where
  "on_stage_item d s plain =
     (case MapReader_from_slice d plain of
        Inl e \<Rightarrow> Session_fail s ''malformed STAGE_ITEM''
      | Inr r \<Rightarrow>
     (case (ok_r (MapReader_byte_array 8 r (key ITEM_ID)),
            ok_r (MapReader_u64 r (key ITEM_TYPE)),
            ok_r (MapReader_bytes r (key ITEM_BODY))) of
        (Some stage_id, Some ct, Some body) \<Rightarrow>
          (case content_type_of ct of
             None \<Rightarrow> Session_fail s ''unknown content type in STAGE_ITEM''
           | Some content_type \<Rightarrow> (s, [Emit (EvStageItem stage_id content_type body)]))
      | _ \<Rightarrow> Session_fail s ''malformed STAGE_ITEM fields''))"

definition on_error :: "deps \<Rightarrow> Session \<Rightarrow> bytes \<Rightarrow> Session \<times> SessionAction list" where
  "on_error d s plain =
     (let (code, msg) =
        (case MapReader_from_slice d plain of
           Inl e \<Rightarrow> (0, [])
         | Inr r \<Rightarrow> (ucast (unwrap_or (MapReader_u64 r (key ERR_CODE)) 0),
                      unwrap_or (MapReader_text r (key ERR_MSG)) []))
      in (s\<lparr> sess_state := Closed \<rparr>, [Emit (PeerError code msg), Close ''peer sent ERROR'']))"

definition on_encrypted :: "deps \<Rightarrow> Session \<Rightarrow> Frame \<Rightarrow> Session \<times> SessionAction list" where
  "on_encrypted d s frame =
     (case channel s of
        None \<Rightarrow> Session_fail s ''encrypted frame before handshake''
      | Some ch \<Rightarrow>
          (case AeadChannel_open d ch (frame_ty frame) (frame_payload frame) of
             (ch', Inl e) \<Rightarrow> Session_fail (s\<lparr> channel := Some ch' \<rparr>) ''AEAD open failed''
           | (ch', Inr plain) \<Rightarrow>
               let s = s\<lparr> channel := Some ch' \<rparr> in
               (case frame_ty frame of
                  ClipPush \<Rightarrow> on_clip_push d s plain
                | ClipAck \<Rightarrow> on_clip_ack d s plain
                | StageListReq \<Rightarrow> (s, [Emit StageListRequested])
                | StageList \<Rightarrow> on_stage_list d s plain
                | StageGet \<Rightarrow> on_stage_get d s plain
                | StageItem \<Rightarrow> on_stage_item d s plain
                | Ping \<Rightarrow>
                    (case Session_seal_frame d s Pong [] of
                       (s', Inr f) \<Rightarrow> (s', [Send f])
                     | (s', Inl e) \<Rightarrow> Session_fail s' ''failed to seal PONG'')
                | Pong \<Rightarrow> (s, [])
                | ErrorFrame \<Rightarrow> on_error d s plain
                | _ \<Rightarrow> Session_fail s ''unhandled encrypted frame type'')))"

definition Session_on_frame ::
  "deps \<Rightarrow> Session \<Rightarrow> Frame \<Rightarrow> u64 \<Rightarrow> bytes option \<Rightarrow> Session \<times> SessionAction list" where
  "Session_on_frame d s frame now_ms rnd =
     (if sess_state s = Closed then (s, [Close ''frame after close''])
      else
        let s = s\<lparr> last_activity_ms := now_ms \<rparr> in
        (case (sess_state s, frame_ty frame) of
           (AwaitingHello, Hello) \<Rightarrow> on_hello d s frame now_ms rnd
         | (AwaitingHelloAck, HelloAck) \<Rightarrow> on_hello_ack d s frame
         | (st, ty) \<Rightarrow>
             if st = Established \<and> FrameType_is_encrypted ty then on_encrypted d s frame
             else Session_fail s ''unexpected frame for session state''))"

section \<open>Outbound\<close>

definition Session_push_clip_with_id ::
  "deps \<Rightarrow> Session \<Rightarrow> bytes \<Rightarrow> ContentType \<Rightarrow> bytes \<Rightarrow> rstr \<Rightarrow> u64 \<Rightarrow> Session \<times> Frame result" where
  "Session_push_clip_with_id d s clip_id content_type body source_name now_ms =
     (case MapBuilder_to_vec d (build_map
         [MapBuilder_bytes (key CLIP_ID) clip_id,
          MapBuilder_u64 (key CONTENT_TYPE) (ucast (ContentType_as_u8 content_type)),
          MapBuilder_bytes (key BODY) body,
          MapBuilder_u64 (key CREATED_AT) now_ms,
          MapBuilder_text (key SOURCE_NAME) source_name]) of
        Inl e \<Rightarrow> (s, Inl e)
      | Inr payload \<Rightarrow> Session_seal_frame d s ClipPush payload)"

definition Session_push_clip ::
  "deps \<Rightarrow> Session \<Rightarrow> ContentType \<Rightarrow> bytes \<Rightarrow> rstr \<Rightarrow> u64 \<Rightarrow> bytes option
     \<Rightarrow> Session \<times> (Frame \<times> bytes) result" where
  "Session_push_clip d s content_type body source_name now_ms rnd =
     (if length body > MAX_TEXT_CLIP then (s, Inl (FrameTooLarge (of_nat (length body))))
      else case rnd of
             None \<Rightarrow> (s, Inl Crypto)
           | Some clip_id \<Rightarrow>
               (case Session_push_clip_with_id d s clip_id content_type body source_name now_ms of
                  (s', Inl e) \<Rightarrow> (s', Inl e)
                | (s', Inr frame) \<Rightarrow> (s', Inr (frame, clip_id))))"

definition Session_request_stage_list :: "deps \<Rightarrow> Session \<Rightarrow> Session \<times> Frame result" where
  "Session_request_stage_list d s =
     (case MapBuilder_to_vec d (build_map []) of
        Inl e \<Rightarrow> (s, Inl e)
      | Inr payload \<Rightarrow> Session_seal_frame d s StageListReq payload)"

definition Session_request_stage_item ::
  "deps \<Rightarrow> Session \<Rightarrow> bytes \<Rightarrow> Session \<times> Frame result" where
  "Session_request_stage_item d s stage_id =
     (case MapBuilder_to_vec d (build_map [MapBuilder_bytes (key STAGE_ID) stage_id]) of
        Inl e \<Rightarrow> (s, Inl e)
      | Inr payload \<Rightarrow> Session_seal_frame d s StageGet payload)"

definition stage_entry :: "StageMeta \<Rightarrow> Value" where
  "stage_entry m = MapBuilder_build (build_map
     [MapBuilder_bytes (key STAGE_META_ID) (sm_stage_id m),
      MapBuilder_u64 (key STAGE_META_TYPE) (ucast (ContentType_as_u8 (sm_content_type m))),
      MapBuilder_text (key STAGE_META_PREVIEW) (sm_preview m),
      MapBuilder_u64 (key STAGE_META_SIZE) (ucast (sm_size m)),
      MapBuilder_u64 (key STAGE_META_COPIED_AT) (sm_copied_at_ms m)])"

definition Session_send_stage_list ::
  "deps \<Rightarrow> Session \<Rightarrow> StageMeta list \<Rightarrow> Session \<times> Frame result" where
  "Session_send_stage_list d s items =
     (case MapBuilder_to_vec d (build_map
         [MapBuilder_array (key STAGE_ITEMS) (map stage_entry items)]) of
        Inl e \<Rightarrow> (s, Inl e)
      | Inr payload \<Rightarrow> Session_seal_frame d s StageList payload)"

definition Session_send_stage_item ::
  "deps \<Rightarrow> Session \<Rightarrow> StagedClip \<Rightarrow> Session \<times> Frame result" where
  "Session_send_stage_item d s clip =
     (case MapBuilder_to_vec d (build_map
         [MapBuilder_bytes (key ITEM_ID) (sc_stage_id clip),
          MapBuilder_u64 (key ITEM_TYPE) (ucast (ContentType_as_u8 (sc_content_type clip))),
          MapBuilder_bytes (key ITEM_BODY) (sc_body clip)]) of
        Inl e \<Rightarrow> (s, Inl e)
      | Inr payload \<Rightarrow> Session_seal_frame d s StageItem payload)"

definition Session_ping :: "deps \<Rightarrow> Session \<Rightarrow> Session \<times> Frame result" where
  "Session_ping d s = Session_seal_frame d s Ping []"

end
