(* ===== verification/SansIo.thy ===== *)
theory SansIo
  imports Prelude
begin

text \<open>
  The interface of the sans-io state machines. The session and both sides of pairing are
  driven the same way: the transport hands in one frame at a time, the machine answers with a
  list of actions, and one kind of action tells the driver to shut the connection down. The
  contract \<open>sans_io\<close> is what the drivers rely on, relative to an invariant. The lemmas
  are about runs over any sequence of inputs and hold for every machine that meets the contract.
\<close>

fun run :: "('s \<Rightarrow> 'i \<Rightarrow> 's \<times> 'a list) \<Rightarrow> 's \<Rightarrow> 'i list \<Rightarrow> 's \<times> 'a list list" where
  "run step s [] = (s, [])"
| "run step s (i # is) =
     (case step s i of (s1, out) \<Rightarrow> case run step s1 is of (s2, outs) \<Rightarrow> (s2, out # outs))"

lemma fst_run_Cons [simp]: "fst (run step s (i # is)) = fst (run step (fst (step s i)) is)"
  by (simp add: case_prod_unfold)

lemma snd_run_Cons [simp]:
  "snd (run step s (i # is)) = snd (step s i) # snd (run step (fst (step s i)) is)"
  by (simp add: case_prod_unfold)

declare run.simps(2) [simp del]

lemma run_append:
  "fst (run step s (xs @ ys)) = fst (run step (fst (run step s xs)) ys)"
  "snd (run step s (xs @ ys)) = snd (run step s xs) @ snd (run step (fst (run step s xs)) ys)"
  by (induction xs arbitrary: s) simp_all

locale sans_io =
  fixes step :: "'s \<Rightarrow> 'i \<Rightarrow> 's \<times> 'a list"
    and closed :: "'s \<Rightarrow> bool"
    and shuts :: "'a \<Rightarrow> bool"
    and inv :: "'s \<Rightarrow> bool"
  assumes closed_stays: "closed s \<Longrightarrow> fst (step s i) = s \<and> list_all shuts (snd (step s i))"
    and closing_announced: "inv s \<Longrightarrow> \<not> closed s \<Longrightarrow>
      closed (fst (step s i)) \<longleftrightarrow> list_ex shuts (snd (step s i))"
    and inv_step: "inv s \<Longrightarrow> \<not> closed s \<Longrightarrow> inv (fst (step s i))"
begin

lemma inv_run: "inv s \<Longrightarrow> inv (fst (run step s is))"
proof (induction "is" arbitrary: s)
  case (Cons i "is")
  then show ?case using inv_step [of s i] closed_stays [of s i] by (cases "closed s") simp_all
qed simp

lemma absorbed:
  "closed s \<Longrightarrow> fst (run step s is) = s \<and> list_all (list_all shuts) (snd (run step s is))"
  using closed_stays by (induction "is") (simp_all)

lemma closed_iff_shut:
  "inv s \<Longrightarrow> \<not> closed s \<Longrightarrow>
     closed (fst (run step s is)) \<longleftrightarrow> list_ex (list_ex shuts) (snd (run step s is))"
proof (induction "is" arbitrary: s)
  case Nil
  then show ?case by simp
next
  case (Cons i "is")
  note announced = closing_announced [OF Cons.prems, of i]
  show ?case
  proof (cases "closed (fst (step s i))")
    case True
    then show ?thesis using absorbed [OF True, of "is"] announced by simp
  next
    case False
    then show ?thesis using Cons.IH [OF inv_step [OF Cons.prems] False] announced by simp
  qed
qed

lemma silent_after_close:
  assumes "closed (fst (run step s xs))"
  shows "fst (run step s (xs @ ys)) = fst (run step s xs) \<and>
    (\<exists>tail. snd (run step s (xs @ ys)) = snd (run step s xs) @ tail \<and> list_all (list_all shuts) tail)"
  using absorbed [OF assms, of ys] by (simp add: run_append)

text \<open>
  Whatever arrives: the run splits at the first shutdown. Before it no action shuts the
  connection and the machine is open; after it every action does, and the state is frozen.
\<close>

lemma shutdown_is_final:
  assumes "inv s" "\<not> closed s"
  shows "(\<not> closed (fst (run step s is)) \<and> \<not> list_ex (list_ex shuts) (snd (run step s is))) \<or>
    (\<exists>n < length is. \<not> closed (fst (run step s (take n is))) \<and>
       \<not> list_ex (list_ex shuts) (take n (snd (run step s is))) \<and>
       list_ex shuts (snd (run step s is) ! n) \<and>
       list_all (list_all shuts) (drop (Suc n) (snd (run step s is))) \<and>
       fst (run step s is) = fst (run step s (take (Suc n) is)))"
  using assms
proof (induction "is" arbitrary: s)
  case Nil
  then show ?case by simp
next
  case (Cons i "is")
  note announced = closing_announced [OF Cons.prems, of i]
  show ?case
  proof (cases "closed (fst (step s i))")
    case True
    then show ?thesis
      using absorbed [OF True, of "is"] announced Cons.prems(2)
      by (intro disjI2 exI [of _ 0]) simp
  next
    case False
    note IH = Cons.IH [OF inv_step [OF Cons.prems] False]
    then show ?thesis
    proof
      assume "\<exists>n < length is. \<not> closed (fst (run step (fst (step s i)) (take n is))) \<and>
         \<not> list_ex (list_ex shuts) (take n (snd (run step (fst (step s i)) is))) \<and>
         list_ex shuts (snd (run step (fst (step s i)) is) ! n) \<and>
         list_all (list_all shuts) (drop (Suc n) (snd (run step (fst (step s i)) is))) \<and>
         fst (run step (fst (step s i)) is) = fst (run step (fst (step s i)) (take (Suc n) is))"
      then show ?thesis using False announced by (elim exE conjE, intro disjI2 exI [of _ "Suc _"]) auto
    qed (use False announced in simp)
  qed
qed

end

end
