(* ===== verification/SessionHandshake.thy ===== *)
theory SessionHandshake
  imports Session SansIo
begin

text \<open>
  The handshake of \<open>session.rs\<close>: it completes between paired devices and leaves both ends
  with mirrored channels; it completes for nobody else, and a refused HELLO gets no answer.
  The session meets the sans-io contract, with its state invariant.
\<close>

section \<open>Message contents\<close>

definition hello_fields :: "DeviceId \<Rightarrow> bytes \<Rightarrow> u64 \<Rightarrow> bytes \<Rightarrow> (u64 \<times> Value) list" where
  "hello_fields i e ts mac =
     [(key VERSION, VInteger (uint (ucast PROTOCOL_VERSION :: u64))),
      (key INITIATOR_ID, VBytes (device_bytes i)), (key EPH_PK_I, VBytes e),
      (key TS, VInteger (uint ts)), (key HELLO_MAC, VBytes mac)]"

definition ack_fields :: "bytes \<Rightarrow> bytes \<Rightarrow> (u64 \<times> Value) list" where
  "ack_fields e mac = [(key EPH_PK_R, VBytes e), (key ACK_MAC, VBytes mac)]"

lemma hello_read:
  assumes "length (device_bytes i) = 16" "length e = 32" "length mac = 32"
  shows "MapReader_u64 (field_map (hello_fields i e ts mac)) (key VERSION) = Inr (ucast PROTOCOL_VERSION)"
    "MapReader_byte_array 16 (field_map (hello_fields i e ts mac)) (key INITIATOR_ID) = Inr (device_bytes i)"
    "MapReader_byte_array 32 (field_map (hello_fields i e ts mac)) (key EPH_PK_I) = Inr e"
    "MapReader_u64 (field_map (hello_fields i e ts mac)) (key TS) = Inr ts"
    "MapReader_byte_array 32 (field_map (hello_fields i e ts mac)) (key HELLO_MAC) = Inr mac"
  using assms by (auto simp: hello_fields_def intro!: MapReader_field)

lemma ack_read:
  assumes "length e = 32" "length mac = 32"
  shows "MapReader_byte_array 32 (field_map (ack_fields e mac)) (key EPH_PK_R) = Inr e"
    "MapReader_byte_array 32 (field_map (ack_fields e mac)) (key ACK_MAC) = Inr mac"
  using assms by (auto simp: ack_fields_def intro!: MapReader_field)

lemma hello_mac_basis_ok:
  assumes "cbor_faithful d" "length (device_bytes i) = 16" "length e = 32"
  obtains basis where "hello_mac_basis d i e ts = Inr basis"
  by (rule payload_roundtrip [OF assms(1), where kvs = "take 4 (hello_fields i e ts [])" and b = "build_map
       [MapBuilder_u64 (key VERSION) (ucast PROTOCOL_VERSION),
        MapBuilder_bytes (key INITIATOR_ID) (device_bytes i),
        MapBuilder_bytes (key EPH_PK_I) e,
        MapBuilder_u64 (key TS) ts]"])
   (use assms in \<open>simp_all add: hello_fields_def MapBuilder_defs hello_mac_basis_def that\<close>)

section \<open>The honest run\<close>

text \<open>What the phone holds after sending its HELLO, and the HELLO's contents.\<close>

definition phone_waiting :: "IdentityKeypair \<Rightarrow> PeerKey \<Rightarrow> u64 \<Rightarrow> EphemeralKeypair \<Rightarrow> Session" where
  "phone_waiting me peer now eph =
     \<lparr> sess_role = Phone, sess_identity = me, sess_state = AwaitingHelloAck,
       known_peers = [peer], sess_peer = Some peer, sess_eph = Some eph,
       sess_eph_pk_i = Some (eph_public eph), channel = None, last_activity_ms = now,
       paused = False \<rparr>"

lemma start_phone_ok:
  assumes d: "cbor_faithful d" "fixed_widths d" and e: "length (eph_public eph) = 32"
  obtains basis payload where
    "start_phone_with_ephemeral d me peer now eph =
       Inr (phone_waiting me peer now eph, Frame_new Hello payload)"
    "hello_mac_basis d (IdentityKeypair_device_id d me) (eph_public eph) now = Inr basis"
    "MapReader_from_slice d payload = Inr (field_map
       (hello_fields (IdentityKeypair_device_id d me) (eph_public eph) now
          (keyed_mac d (IdentityKeypair_dh d me (pk_public_key peer)) basis)))"
    "frame_fits (Frame_new Hello payload)"
proof -
  let ?i = "IdentityKeypair_device_id d me"
  have i: "length (device_bytes ?i) = 16"
    using d(2) by (simp add: IdentityKeypair_device_id_def)
  obtain basis where basis: "hello_mac_basis d ?i (eph_public eph) now = Inr basis"
    using hello_mac_basis_ok [OF d(1) i e] by blast
  let ?mac = "keyed_mac d (IdentityKeypair_dh d me (pk_public_key peer)) basis"
  have m: "length ?mac = 32" using d(2) by (simp add: keyed_mac_def fixed_widthsD)
  let ?calls = "[MapBuilder_u64 (key VERSION) (ucast PROTOCOL_VERSION),
      MapBuilder_bytes (key INITIATOR_ID) (device_bytes ?i),
      MapBuilder_bytes (key EPH_PK_I) (eph_public eph),
      MapBuilder_u64 (key TS) now, MapBuilder_bytes (key HELLO_MAC) ?mac]"
  obtain payload where "MapBuilder_to_vec d (build_map ?calls) = Inr payload"
    "MapReader_from_slice d payload = Inr (field_map (hello_fields ?i (eph_public eph) now ?mac))"
    "length payload \<le> 9 + sum_list (map (\<lambda>(k, v). 9 + cbor_bound v) (hello_fields ?i (eph_public eph) now ?mac))"
    by (rule payload_roundtrip [OF d(1), where kvs = "hello_fields ?i (eph_public eph) now ?mac"
          and b = "build_map ?calls"])
      (use i e m in \<open>simp_all add: hello_fields_def MapBuilder_defs\<close>)
  moreover from this(3) have "length payload \<le> 1000"
    using i e m by (simp add: hello_fields_def)
  ultimately show ?thesis
    using basis by (intro that [of payload basis])
      (simp_all add: start_phone_with_ephemeral_def phone_waiting_def Let_def
        EphemeralKeypair_public_bytes_def frame_fits_def Frame_new_def unat_MAX_FRAME_LEN)
qed

text \<open>The PC's answer to a HELLO that authenticates.\<close>

lemma on_hello_ok:
  assumes d: "deps_ok d" "length (device_bytes i) = 16" "length e = 32"
    and read: "MapReader_from_slice d (frame_payload f) = Inr (field_map
      (hello_fields i e ts (keyed_mac d (IdentityKeypair_dh d (sess_identity s) (pk_public_key peer)) basis)))"
    and basis: "hello_mac_basis d i e ts = Inr basis"
    and peer: "find (\<lambda>p. pk_device_id p = i) (known_peers s) = Some peer"
    and skew: "abs_diff ts now \<le> HELLO_TS_WINDOW_MS"
    and eph: "eph = EphemeralKeypair_from_seed d seed"
    and keys: "derive_session_keys d (EphemeralKeypair_dh d eph e)
      (EphemeralKeypair_dh d eph (pk_public_key peer))
      (IdentityKeypair_dh d (sess_identity s) (pk_public_key peer)) i
      (IdentityKeypair_device_id d (sess_identity s)) = Inr keys"
  obtains payload where
    "on_hello d s f now (Some seed) =
      (s\<lparr> channel := Some (AeadChannel_new (sk_c2p keys) (sk_p2c keys)), sess_peer := Some peer,
          sess_eph := Some eph, sess_state := Established \<rparr>,
       [Send (Frame_new HelloAck payload), Emit (EvEstablished i)])"
    "MapReader_from_slice d payload = Inr (field_map (ack_fields (eph_public eph)
       (keyed_mac d (IdentityKeypair_dh d (sess_identity s) (pk_public_key peer)) (eph_public eph @ e))))"
    "frame_fits (Frame_new HelloAck payload)"
proof -
  let ?ss = "IdentityKeypair_dh d (sess_identity s) (pk_public_key peer)"
  have fw: "fixed_widths d" using deps_okD [OF d(1)] by simp
  have macs: "length (keyed_mac d k m) = 32" for k m
    using fw by (simp add: keyed_mac_def fixed_widthsD)
  have pk: "length (eph_public eph) = 32"
    using fw by (simp add: eph EphemeralKeypair_from_seed_def fixed_widthsD)
  let ?ack = "keyed_mac d ?ss (eph_public eph @ e)"
  let ?calls = "[MapBuilder_bytes (key EPH_PK_R) (eph_public eph), MapBuilder_bytes (key ACK_MAC) ?ack]"
  obtain payload where p: "MapBuilder_to_vec d (build_map ?calls) = Inr payload"
    "MapReader_from_slice d payload = Inr (field_map (ack_fields (eph_public eph) ?ack))"
    "length payload \<le> 9 + sum_list (map (\<lambda>(k, v). 9 + cbor_bound v) (ack_fields (eph_public eph) ?ack))"
    by (rule payload_roundtrip [OF deps_okD(6) [OF d(1)], where kvs = "ack_fields (eph_public eph) ?ack"
          and b = "build_map ?calls"])
      (use pk macs in \<open>simp_all add: ack_fields_def MapBuilder_defs\<close>)
  note reads = hello_read [OF d(2,3) macs]
  have "on_hello d s f now (Some seed) =
      (s\<lparr> channel := Some (AeadChannel_new (sk_c2p keys) (sk_p2c keys)), sess_peer := Some peer,
          sess_eph := Some eph, sess_state := Established \<rparr>,
       [Send (Frame_new HelloAck payload), Emit (EvEstablished i)])"
    using leD [OF skew] keys p(1) peer basis unfolding on_hello_def read
    by (simp add: reads verify_mac_iff [OF fw] EphemeralKeypair_generate_def eph [symmetric]
        EphemeralKeypair_public_bytes_def del: key.simps)
  moreover have "frame_fits (Frame_new HelloAck payload)"
    using p(3) pk macs by (simp add: ack_fields_def frame_fits_def Frame_new_def unat_MAX_FRAME_LEN)
  ultimately show ?thesis using p(2) by (intro that)
qed

text \<open>The phone's step on an acknowledgement that authenticates.\<close>

lemma on_hello_ack_ok:
  assumes d: "deps_ok d" "length er = 32"
    and read: "MapReader_from_slice d (frame_payload f) = Inr (field_map (ack_fields er
      (keyed_mac d (IdentityKeypair_dh d (sess_identity s) (pk_public_key peer)) (er @ ei))))"
    and s: "sess_peer s = Some peer" "sess_eph s = Some eph" "sess_eph_pk_i s = Some ei"
    and keys: "derive_session_keys d (EphemeralKeypair_dh d eph er)
      (IdentityKeypair_dh d (sess_identity s) er)
      (IdentityKeypair_dh d (sess_identity s) (pk_public_key peer))
      (IdentityKeypair_device_id d (sess_identity s)) (pk_device_id peer) = Inr keys"
  shows "on_hello_ack d s f =
    (s\<lparr> channel := Some (AeadChannel_new (sk_p2c keys) (sk_c2p keys)), sess_state := Established \<rparr>,
     [Emit (EvEstablished (pk_device_id peer))])"
proof -
  have fw: "fixed_widths d" using deps_okD [OF d(1)] by simp
  have macs: "length (keyed_mac d k m) = 32" for k m
    using fw by (simp add: keyed_mac_def fixed_widthsD)
  show ?thesis
    unfolding on_hello_ack_def read
    by (simp add: ack_read [OF d(2) macs] s keys verify_mac_iff [OF fw] Let_def del: key.simps)
qed

text \<open>Two established ends whose channels mirror each other.\<close>

definition paired_sessions :: "deps \<Rightarrow> Session \<Rightarrow> Session \<Rightarrow> bool" where
  "paired_sessions d a b \<longleftrightarrow>
     sess_state a = Established \<and> sess_state b = Established \<and>
     (case (channel a, channel b) of
        (Some ca, Some cb) \<Rightarrow> linked d ca cb \<and> linked d cb ca
      | _ \<Rightarrow> False)"

text \<open>The record each side keeps of the other, as pairing leaves it.\<close>

definition peer_key_of :: "deps \<Rightarrow> IdentityKeypair \<Rightarrow> PeerKey" where
  "peer_key_of d kp = \<lparr> pk_device_id = IdentityKeypair_device_id d kp, pk_public_key = id_public kp \<rparr>"

lemma paired_fresh:
  "aead_correct d \<Longrightarrow>
   paired_sessions d (s\<lparr> channel := Some (AeadChannel_new k l), sess_state := Established \<rparr>)
     (t\<lparr> channel := Some (AeadChannel_new l k), sess_peer := p, sess_eph := e, sess_state := Established \<rparr>)"
  by (simp add: paired_sessions_def linked_fresh)

section \<open>What a completed handshake implies\<close>

lemma Session_fail_simps [simp]:
  "fst (Session_fail s why) = s\<lparr> sess_state := Closed \<rparr>"
  "snd (Session_fail s why) = [Close why]"
  by (simp_all add: Session_fail_def)

definition hello_authentic :: "deps \<Rightarrow> Session \<Rightarrow> Frame \<Rightarrow> u64 \<Rightarrow> PeerKey \<Rightarrow> bytes \<Rightarrow> bool" where
  "hello_authentic d s f now peer eph_pk \<longleftrightarrow>
     (\<exists>r ts mac basis. MapReader_from_slice d (frame_payload f) = Inr r \<and>
        MapReader_u64 r (key VERSION) = Inr (ucast PROTOCOL_VERSION) \<and>
        MapReader_byte_array 16 r (key INITIATOR_ID) = Inr (device_bytes (pk_device_id peer)) \<and>
        MapReader_byte_array 32 r (key EPH_PK_I) = Inr eph_pk \<and>
        MapReader_u64 r (key TS) = Inr ts \<and>
        MapReader_byte_array 32 r (key HELLO_MAC) = Inr mac \<and>
        find (\<lambda>p. pk_device_id p = pk_device_id peer) (known_peers s) = Some peer \<and>
        abs_diff ts now \<le> HELLO_TS_WINDOW_MS \<and>
        hello_mac_basis d (pk_device_id peer) eph_pk ts = Inr basis \<and>
        mac = keyed_mac d (IdentityKeypair_dh d (sess_identity s) (pk_public_key peer)) basis)"

lemma wire_error_unsealed:
  "channel s = None \<Longrightarrow> Session_wire_error d s c msg = (s\<lparr> sess_state := Closed \<rparr>, [Close msg])"
  by (simp add: Session_wire_error_def Let_def)

lemma on_hello_unauthentic:
  assumes "channel s = None" "\<nexists>peer eph_pk. hello_authentic d s f now peer eph_pk"
  shows "\<exists>why. on_hello d s f now rnd = (s\<lparr> sess_state := Closed \<rparr>, [Close why])"
proof (rule ccontr)
  let ?ss = "\<lambda>p. IdentityKeypair_dh d (sess_identity s) (pk_public_key p)"
  assume "\<not> ?thesis"
  note n = this [unfolded on_hello_def]
  obtain r where r: "MapReader_from_slice d (frame_payload f) = Inr r"
    using n by (cases "MapReader_from_slice d (frame_payload f)") (simp_all add: Session_fail_def)
  note n = n [unfolded r sum.case]
  obtain v where v: "MapReader_u64 r (key VERSION) = Inr v"
    using n by (cases "MapReader_u64 r (key VERSION)") (simp_all add: Session_fail_def)
  obtain dev where dev: "MapReader_byte_array 16 r (key INITIATOR_ID) = Inr dev"
    using n v by (cases "MapReader_byte_array 16 r (key INITIATOR_ID)") (simp_all add: Session_fail_def)
  obtain e where e: "MapReader_byte_array 32 r (key EPH_PK_I) = Inr e"
    using n v dev by (cases "MapReader_byte_array 32 r (key EPH_PK_I)") (simp_all add: Session_fail_def)
  obtain ts where ts: "MapReader_u64 r (key TS) = Inr ts"
    using n v dev e by (cases "MapReader_u64 r (key TS)") (simp_all add: Session_fail_def)
  obtain mac where mac: "MapReader_byte_array 32 r (key HELLO_MAC) = Inr mac"
    using n v dev e ts by (cases "MapReader_byte_array 32 r (key HELLO_MAC)") (simp_all add: Session_fail_def)
  note n = n [unfolded v dev e ts mac ok_r_simps prod.case option.case Let_def]
  have ver: "v = ucast PROTOCOL_VERSION"
    using n wire_error_unsealed [OF assms(1)] by (auto split: if_splits)
  note n = n [unfolded ver]
  have skew: "\<not> HELLO_TS_WINDOW_MS < abs_diff ts now"
    using n by (auto simp: Session_fail_def split: if_splits)
  obtain peer where peer: "find (\<lambda>p. pk_device_id p = DeviceId dev) (known_peers s) = Some peer"
    using n skew
    by (cases "find (\<lambda>p. pk_device_id p = DeviceId dev) (known_peers s)") (simp_all add: Session_fail_def)
  note n = n [unfolded peer option.case]
  obtain basis where basis: "hello_mac_basis d (DeviceId dev) e ts = Inr basis"
    using n skew by (cases "hello_mac_basis d (DeviceId dev) e ts") (simp_all add: Session_fail_def)
  have "verify_mac d (?ss peer) basis mac"
    using n [unfolded basis sum.case] skew by (auto simp: Session_fail_def split: if_splits)
  then have "hello_authentic d s f now peer e"
    using r v dev e ts mac ver skew basis peer
    by (auto simp: hello_authentic_def not_less find_Some_iff dest: verify_macD)
  then show False using assms(2) by blast
qed

lemma on_hello_authentic:
  assumes "hello_authentic d s f now peer eph_pk"
  shows "(\<exists>why. on_hello d s f now rnd = (s\<lparr> sess_state := Closed \<rparr>, [Close why])) \<or>
    (\<exists>eph (keys :: SessionKeys) payload. on_hello d s f now rnd =
         (s\<lparr> channel := Some (AeadChannel_new (sk_c2p keys) (sk_p2c keys)), sess_peer := Some peer,
             sess_eph := Some eph, sess_state := Established \<rparr>,
          [Send (Frame_new HelloAck payload), Emit (EvEstablished (pk_device_id peer))]))"
  using assms
  by (auto simp: hello_authentic_def on_hello_def Let_def Session_fail_def leD simp del: key.simps
      split: sum.splits) blast+

lemma on_hello_cases:
  assumes "channel s = None"
  obtains (refused) why where "on_hello d s f now rnd = (s\<lparr> sess_state := Closed \<rparr>, [Close why])"
  | (accepted) peer eph_pk eph and keys :: SessionKeys and payload where
      "hello_authentic d s f now peer eph_pk"
      "on_hello d s f now rnd =
         (s\<lparr> channel := Some (AeadChannel_new (sk_c2p keys) (sk_p2c keys)), sess_peer := Some peer,
             sess_eph := Some eph, sess_state := Established \<rparr>,
          [Send (Frame_new HelloAck payload), Emit (EvEstablished (pk_device_id peer))])"
  using on_hello_unauthentic [OF assms] on_hello_authentic by meson

definition ack_authentic :: "deps \<Rightarrow> Session \<Rightarrow> Frame \<Rightarrow> PeerKey \<Rightarrow> bytes \<Rightarrow> bool" where
  "ack_authentic d s f peer eph_pk_r \<longleftrightarrow>
     (\<exists>r mac eph_pk_i. MapReader_from_slice d (frame_payload f) = Inr r \<and>
        MapReader_byte_array 32 r (key EPH_PK_R) = Inr eph_pk_r \<and>
        MapReader_byte_array 32 r (key ACK_MAC) = Inr mac \<and>
        sess_peer s = Some peer \<and> sess_eph_pk_i s = Some eph_pk_i \<and>
        mac = keyed_mac d (IdentityKeypair_dh d (sess_identity s) (pk_public_key peer))
                (eph_pk_r @ eph_pk_i))"

lemma on_hello_ack_cases:
  obtains (refused) why where "on_hello_ack d s f = (s\<lparr> sess_state := Closed \<rparr>, [Close why])"
  | (accepted) peer eph_pk_r and keys :: SessionKeys where
      "ack_authentic d s f peer eph_pk_r"
      "on_hello_ack d s f =
        (s\<lparr> channel := Some (AeadChannel_new (sk_p2c keys) (sk_c2p keys)), sess_state := Established \<rparr>,
         [Emit (EvEstablished (pk_device_id peer))])"
proof -
  have "(\<exists>why. on_hello_ack d s f = (s\<lparr> sess_state := Closed \<rparr>, [Close why])) \<or>
    (\<exists>peer eph_pk_r (keys :: SessionKeys). ack_authentic d s f peer eph_pk_r \<and> on_hello_ack d s f =
        (s\<lparr> channel := Some (AeadChannel_new (sk_p2c keys) (sk_c2p keys)), sess_state := Established \<rparr>,
         [Emit (EvEstablished (pk_device_id peer))]))"
    by (auto simp: on_hello_ack_def ack_authentic_def Session_fail_def Let_def simp del: key.simps
        split: sum.splits option.splits dest: verify_macD)
  then show ?thesis using refused accepted by blast
qed

section \<open>What every handler keeps\<close>

fun is_close :: "SessionAction \<Rightarrow> bool" where
  "is_close (Close why) = True"
| "is_close (Send f) = False"
| "is_close (Emit e) = False"

text \<open>
  A handler of decrypted traffic changes at most the channel's sending half and the state; it
  leaves the state or closes, and closing is exactly announcing it.
\<close>

definition handler_ok :: "Session \<Rightarrow> Session \<times> SessionAction list \<Rightarrow> bool" where
  "handler_ok s r \<longleftrightarrow>
     fst r = s\<lparr> channel := channel (fst r), sess_state := sess_state (fst r) \<rparr> \<and>
     map_option rx (channel (fst r)) = map_option rx (channel s) \<and>
     (sess_state (fst r) = sess_state s \<and> list_all (Not \<circ> is_close) (snd r) \<or>
      sess_state (fst r) = Closed \<and> list_ex is_close (snd r))"

lemma seal_keeps_rx: "AeadChannel_seal d ch ty m = (ch', r) \<Longrightarrow> rx ch' = rx ch"
  by (cases r) (auto simp: seal_Inr_iff dest: seal_Inl)

lemma seal_frame_shape:
  "fst (Session_seal_frame d s ty m) = s\<lparr> channel := channel (fst (Session_seal_frame d s ty m)) \<rparr>"
  "map_option rx (channel (fst (Session_seal_frame d s ty m))) = map_option rx (channel s)"
  "Session_seal_frame d s ty m = (s', Inl e) \<Longrightarrow> e = Crypto"
  by (auto simp: Session_seal_frame_def seal_keeps_rx dest: seal_Inl
      split: option.splits prod.splits sum.splits)

lemma handler_ok_fail [simp]: "handler_ok s (Session_fail s why)"
  by (simp add: handler_ok_def)

lemma handler_ok_stay [simp]: "handler_ok s (s, acts) \<longleftrightarrow>
    list_all (Not \<circ> is_close) acts \<or> sess_state s = Closed \<and> list_ex is_close acts"
  by (auto simp: handler_ok_def)

lemma handler_ok_wire_error [simp]: "handler_ok s (Session_wire_error d s code msg)"
  by (auto simp: handler_ok_def Session_wire_error_def Let_def seal_keeps_rx
      split: option.split prod.split sum.split)

lemma handler_ok_seal:
  assumes "Session_seal_frame d s ty m = (s', r)"
  shows "handler_ok s (Session_fail s' why)"
    "handler_ok s (s', acts) \<longleftrightarrow>
       list_all (Not \<circ> is_close) acts \<or> sess_state s = Closed \<and> list_ex is_close acts"
proof -
  have s': "s' = s\<lparr> channel := channel s' \<rparr>" "map_option rx (channel s') = map_option rx (channel s)"
    using seal_frame_shape(1,2) [of d s ty m] assms by simp_all
  then have st: "sess_state s' = sess_state s"
    by (metis Session.select_convs(3) Session.surjective Session.update_convs(8))
  have sh: "s'\<lparr> sess_state := x \<rparr> = s\<lparr> channel := channel s', sess_state := x \<rparr>" for x
    by (subst s'(1)) simp
  have eq: "s' = s\<lparr> channel := channel s', sess_state := sess_state s' \<rparr>"
    using sh [of "sess_state s'"] by simp
  show "handler_ok s (Session_fail s' why)"
    unfolding handler_ok_def Session_fail_simps sh by (simp add: s'(2))
  show "handler_ok s (s', acts) \<longleftrightarrow>
       list_all (Not \<circ> is_close) acts \<or> sess_state s = Closed \<and> list_ex is_close acts"
    unfolding handler_ok_def fst_conv snd_conv using eq s'(2) st by auto
qed

lemma handlers_ok:
  "handler_ok s (on_clip_push d s plain)" "handler_ok s (on_clip_ack d s plain)"
  "handler_ok s (on_stage_get d s plain)" "handler_ok s (on_stage_list d s plain)"
  "handler_ok s (on_stage_item d s plain)" "handler_ok s (on_error d s plain)"
  by (auto simp: on_clip_push_def on_clip_ack_def on_stage_get_def on_stage_list_def
      on_stage_item_def Let_def handler_ok_seal split: sum.split option.split prod.split)
    (simp add: on_error_def handler_ok_def case_prod_unfold Let_def)

text \<open>An encrypted frame: either it does not open and closes, or its handler runs.\<close>

lemma on_encrypted_cases:
  obtains (none) "channel s = None" "on_encrypted d s f = Session_fail s ''encrypted frame before handshake''"
  | (forged) ch e where "channel s = Some ch"
      "AeadChannel_open d ch (frame_ty f) (frame_payload f) = (ch, Inl e)"
      "on_encrypted d s f = Session_fail s ''AEAD open failed''"
  | (opened) ch ch' plain where "channel s = Some ch"
      "AeadChannel_open d ch (frame_ty f) (frame_payload f) = (ch', Inr plain)"
      "handler_ok (s\<lparr> channel := Some ch' \<rparr>) (on_encrypted d s f)"
proof (cases "channel s")
  case None
  then show ?thesis by (intro none) (simp_all add: on_encrypted_def)
next
  case (Some ch)
  obtain ch' r where o: "AeadChannel_open d ch (frame_ty f) (frame_payload f) = (ch', r)"
    by fastforce
  show ?thesis
  proof (cases r)
    case (Inl e)
    have "ch' = ch" using open_Inl o Inl by blast
    then show ?thesis
      using Some o Inl by (intro forged [of ch e]) (auto simp: on_encrypted_def Session_fail_def)
  next
    case (Inr plain)
    show ?thesis
      by (rule opened [of ch ch' plain])
        (use Some o Inr in \<open>auto simp: on_encrypted_def handlers_ok handler_ok_seal Let_def
           split: FrameType.split sum.split prod.split\<close>)
  qed
qed

lemma handler_ok_set_channel:
  assumes "handler_ok (s\<lparr> channel := c \<rparr>) r"
  shows "fst r = s\<lparr> channel := channel (fst r), sess_state := sess_state (fst r) \<rparr>"
    "map_option rx (channel (fst r)) = map_option rx c"
    "sess_state (fst r) = sess_state s \<and> list_all (Not \<circ> is_close) (snd r) \<or>
      sess_state (fst r) = Closed \<and> list_ex is_close (snd r)"
  using assms by (simp_all add: handler_ok_def)

section \<open>The session as a sans-io machine\<close>

type_synonym session_input = "Frame \<times> u64 \<times> bytes option"

definition session_step :: "deps \<Rightarrow> Session \<Rightarrow> session_input \<Rightarrow> Session \<times> SessionAction list" where
  "session_step d s i = (case i of (f, now, rnd) \<Rightarrow> Session_on_frame d s f now rnd)"

text \<open>
  The state invariant: a waiting PC has no channel; a waiting phone has none either and knows
  its peer and its ephemeral; an established session has a channel and a peer.
\<close>

definition session_inv :: "Session \<Rightarrow> bool" where
  "session_inv s \<longleftrightarrow>
     (case sess_state s of
        AwaitingHello \<Rightarrow> sess_role s = Pc \<and> channel s = None \<and> sess_peer s = None
      | AwaitingHelloAck \<Rightarrow> sess_role s = Phone \<and> channel s = None \<and> sess_peer s \<noteq> None \<and>
          sess_eph s \<noteq> None \<and> sess_eph_pk_i s \<noteq> None
      | Established \<Rightarrow> channel s \<noteq> None \<and> sess_peer s \<noteq> None
      | Closed \<Rightarrow> True)"

lemma on_frame_cases:
  obtains (closed) "sess_state s = Closed" "Session_on_frame d s f now rnd = (s, [Close ''frame after close''])"
  | (hello) "sess_state s = AwaitingHello" "frame_ty f = Hello"
      "Session_on_frame d s f now rnd = on_hello d (s\<lparr> last_activity_ms := now \<rparr>) f now rnd"
  | (ack) "sess_state s = AwaitingHelloAck" "frame_ty f = HelloAck"
      "Session_on_frame d s f now rnd = on_hello_ack d (s\<lparr> last_activity_ms := now \<rparr>) f"
  | (enc) "sess_state s = Established" "FrameType_is_encrypted (frame_ty f)"
      "Session_on_frame d s f now rnd = on_encrypted d (s\<lparr> last_activity_ms := now \<rparr>) f"
  | (unexpected) "sess_state s \<noteq> Closed"
      "Session_on_frame d s f now rnd =
         Session_fail (s\<lparr> last_activity_ms := now \<rparr>) ''unexpected frame for session state''"
  by (cases "sess_state s"; cases "frame_ty f")
    (simp_all add: Session_on_frame_def Let_def)

text \<open>Every step keeps the configuration and, from a good state, the invariant.\<close>

lemma on_frame_shape:
  assumes "session_inv s" "sess_state s \<noteq> Closed" "Session_on_frame d s f now rnd = (s', acts)"
  shows "session_inv s' \<and> sess_role s' = sess_role s \<and> sess_identity s' = sess_identity s \<and>
    known_peers s' = known_peers s \<and> paused s' = paused s \<and> last_activity_ms s' = now \<and>
    (sess_state s' = Closed \<longleftrightarrow> list_ex is_close acts)"
proof (cases rule: on_frame_cases [where d = d and s = s and f = f and now = now and rnd = rnd])
  case closed
  then show ?thesis using assms by simp
next
  case hello
  have c: "channel (s\<lparr> last_activity_ms := now \<rparr>) = None"
    using assms(1) hello(1) by (simp add: session_inv_def)
  show ?thesis
    by (cases rule: on_hello_cases [OF c, where d = d and f = f and now = now and rnd = rnd]) (use assms hello in \<open>auto simp: session_inv_def\<close>)
next
  case ack
  then show ?thesis
    by (cases rule: on_hello_ack_cases [where d = d and s = "s\<lparr> last_activity_ms := now \<rparr>" and f = f])
      (use assms ack in \<open>auto simp: session_inv_def ack_authentic_def\<close>)
next
  case enc
  let ?s = "s\<lparr> last_activity_ms := now \<rparr>"
  show ?thesis
  proof (cases rule: on_encrypted_cases [where s = ?s and d = d and f = f])
    case (opened ch ch' plain)
    have r: "on_encrypted d ?s f = (s', acts)" using enc assms(3) by simp
    note h = handler_ok_set_channel [OF opened(3) [unfolded r], unfolded fst_conv snd_conv]
    have "channel s' \<noteq> None" using h(2) by auto
    moreover have "sess_role s' = sess_role s" "sess_identity s' = sess_identity s"
      "known_peers s' = known_peers s" "paused s' = paused s" "last_activity_ms s' = now"
      "sess_peer s' = sess_peer s"
      by (subst h(1), simp)+
    ultimately show ?thesis
      using h(3) enc(1) assms(1)
      by (auto simp: session_inv_def list_all_iff list_ex_iff split: State.splits)
  qed (use assms enc in \<open>auto simp: session_inv_def Session_fail_def\<close>)
next
  case unexpected
  then show ?thesis using assms by (auto simp: session_inv_def Session_fail_def)
qed

interpretation session: sans_io "session_step d" "\<lambda>s. sess_state s = Closed" is_close session_inv
  for d :: deps
proof unfold_locales
  fix s :: Session and i :: session_input
  obtain f now rnd where i: "i = (f, now, rnd)" by (cases i)
  obtain s' acts where r: "Session_on_frame d s f now rnd = (s', acts)" by fastforce
  show "fst (session_step d s i) = s \<and> list_all is_close (snd (session_step d s i))"
    if "sess_state s = Closed"
    using that by (simp add: session_step_def i Session_on_frame_def)
  show "(sess_state (fst (session_step d s i)) = Closed) = list_ex is_close (snd (session_step d s i))"
    if "session_inv s" "sess_state s \<noteq> Closed"
    using on_frame_shape [OF that r] by (simp add: session_step_def i r)
  show "session_inv (fst (session_step d s i))" if "session_inv s" "sess_state s \<noteq> Closed"
    using on_frame_shape [OF that r] by (simp add: session_step_def i r)
qed

lemma session_inv_new_pc: "session_inv (Session_new_pc me peers now)"
  by (simp add: session_inv_def Session_new_pc_def)

lemma session_inv_phone: "session_inv (phone_waiting me peer now eph)"
  by (simp add: session_inv_def phone_waiting_def)

text \<open>A channel on which nothing has been sent.\<close>

definition fresh_channel :: "Session \<Rightarrow> bool" where
  "fresh_channel s \<longleftrightarrow> (\<exists>ch. channel s = Some ch \<and> dir_ctr (tx ch) = 0)"

lemma new_channel_ctr [simp]: "dir_ctr (tx (AeadChannel_new a b)) = 0"
  by (simp add: AeadChannel_new_def)

text \<open>The whole handshake, with a PC that may be paused.\<close>

lemma handshake_run:
  assumes d: "deps_ok d"
    and ids: "phone = IdentityKeypair_from_seed d a" "pc = IdentityKeypair_from_seed d b"
    and lens: "length a = 32" "length b = 32" "length e = 32" "length f = 32"
    and known: "find (\<lambda>p. pk_device_id p = IdentityKeypair_device_id d phone) peers =
      Some (peer_key_of d phone)"
    and skew: "abs_diff t1 t2 \<le> HELLO_TS_WINDOW_MS"
  shows "\<exists>ph hello pc' ack ph'.
    start_phone d phone (peer_key_of d pc) t1 (Some e) = Inr (ph, hello) \<and>
    Session_on_frame d (Session_set_paused (Session_new_pc pc peers t0) pz) hello t2 (Some f) =
      (pc', [Send ack, Emit (EvEstablished (IdentityKeypair_device_id d phone))]) \<and>
    Session_on_frame d ph ack t3 rnd =
      (ph', [Emit (EvEstablished (IdentityKeypair_device_id d pc))]) \<and>
    paired_sessions d ph' pc' \<and> fresh_channel ph' \<and> fresh_channel pc' \<and> paused pc' = pz \<and>
    frame_fits hello \<and> frame_fits ack \<and> frame_ty hello = Hello \<and> frame_ty ack = HelloAck"
proof -
  define eph where "eph = EphemeralKeypair_from_seed d e"
  define epr where "epr = EphemeralKeypair_from_seed d f"
  note ok = deps_okD [OF d]
  have e32: "length (eph_public eph) = 32" "length (eph_public epr) = 32"
    using ok(2) by (simp_all add: eph_def epr_def)
  have i16: "length (device_bytes (IdentityKeypair_device_id d phone)) = 16"
    using ok(2) by (simp add: IdentityKeypair_device_id_def)
  have st: "IdentityKeypair_dh d phone (id_public pc) = IdentityKeypair_dh d pc (id_public phone)"
    unfolding ids by (rule shared_secrets(1) [OF ok(1) lens(1,2)])
  have ee: "EphemeralKeypair_dh d eph (eph_public epr) = EphemeralKeypair_dh d epr (eph_public eph)"
    unfolding eph_def epr_def by (rule shared_secrets(2) [OF ok(1) lens(3,4)])
  have si: "IdentityKeypair_dh d phone (eph_public epr) = EphemeralKeypair_dh d epr (id_public phone)"
    unfolding ids epr_def by (rule shared_secrets(3) [OF ok(1) lens(4,1), symmetric])
  obtain basis payload where start:
      "start_phone_with_ephemeral d phone (peer_key_of d pc) t1 eph =
         Inr (phone_waiting phone (peer_key_of d pc) t1 eph, Frame_new Hello payload)"
      "hello_mac_basis d (IdentityKeypair_device_id d phone) (eph_public eph) t1 = Inr basis"
      "MapReader_from_slice d payload = Inr (field_map
         (hello_fields (IdentityKeypair_device_id d phone) (eph_public eph) t1
            (keyed_mac d (IdentityKeypair_dh d phone (pk_public_key (peer_key_of d pc))) basis)))"
      "frame_fits (Frame_new Hello payload)"
    by (rule start_phone_ok [OF ok(6,2) e32(1)])
  obtain keys where keys: "derive_session_keys d (EphemeralKeypair_dh d epr (eph_public eph))
      (EphemeralKeypair_dh d epr (id_public phone)) (IdentityKeypair_dh d pc (id_public phone))
      (IdentityKeypair_device_id d phone) (IdentityKeypair_device_id d pc) = Inr keys"
    using derive_session_keys_ok [OF ok(3)] by blast
  let ?s = "(Session_set_paused (Session_new_pc pc peers t0) pz)\<lparr> last_activity_ms := t2 \<rparr>"
  obtain ack where hello: "on_hello d ?s (Frame_new Hello payload) t2 (Some f) =
      (?s\<lparr> channel := Some (AeadChannel_new (sk_c2p keys) (sk_p2c keys)),
           sess_peer := Some (peer_key_of d phone), sess_eph := Some epr, sess_state := Established \<rparr>,
       [Send (Frame_new HelloAck ack), Emit (EvEstablished (IdentityKeypair_device_id d phone))])"
    and ack: "MapReader_from_slice d ack = Inr (field_map (ack_fields (eph_public epr)
       (keyed_mac d (IdentityKeypair_dh d pc (id_public phone)) (eph_public epr @ eph_public eph))))"
    and fits: "frame_fits (Frame_new HelloAck ack)"
    using on_hello_ok [OF d i16, of "eph_public eph" "Frame_new Hello payload" t1 ?s "peer_key_of d phone"
        basis t2 epr f keys] start(2,3) st known skew keys e32
    by (auto simp: Session_new_pc_def Session_set_paused_def peer_key_of_def epr_def)
  let ?w = "(phone_waiting phone (peer_key_of d pc) t1 eph)\<lparr> last_activity_ms := t3 \<rparr>"
  have "on_hello_ack d ?w (Frame_new HelloAck ack) =
      (?w\<lparr> channel := Some (AeadChannel_new (sk_p2c keys) (sk_c2p keys)), sess_state := Established \<rparr>,
       [Emit (EvEstablished (IdentityKeypair_device_id d pc))])"
    using on_hello_ack_ok [OF d, of "eph_public epr" "Frame_new HelloAck ack" ?w "peer_key_of d pc"
        "eph_public eph" eph keys] ack keys st ee si e32
    by (simp add: phone_waiting_def peer_key_of_def)
  with start(1) hello show ?thesis
    by (simp add: start_phone_def EphemeralKeypair_generate_def eph_def [symmetric]
        Session_on_frame_def Let_def phone_waiting_def Session_new_pc_def Session_set_paused_def
        paired_sessions_def fresh_channel_def
        linked_fresh [OF ok(4)] start(4) fits)
qed

section \<open>Properties\<close>

text \<open>
  C9: The handshake completes between paired devices. A phone and a PC that hold each
  other's identity (as pairing leaves it) and whose clocks differ by at most the window: the
  phone's HELLO is accepted, the PC answers with one HELLO_ACK and reports the phone, the
  phone accepts it and reports the PC, and the two ends are established with channels that
  mirror each other in both directions.
\<close>

theorem handshake_completes:
  assumes d: "deps_ok d"
    and ids: "phone = IdentityKeypair_from_seed d a" "pc = IdentityKeypair_from_seed d b"
    and lens: "length a = 32" "length b = 32" "length e = 32" "length f = 32"
    and known: "find (\<lambda>p. pk_device_id p = IdentityKeypair_device_id d phone) peers =
      Some (peer_key_of d phone)"
    and skew: "abs_diff t1 t2 \<le> HELLO_TS_WINDOW_MS"
  shows "\<exists>ph hello pc' ack ph'.
    start_phone d phone (peer_key_of d pc) t1 (Some e) = Inr (ph, hello) \<and>
    Session_on_frame d (Session_new_pc pc peers t0) hello t2 (Some f) =
      (pc', [Send ack, Emit (EvEstablished (IdentityKeypair_device_id d phone))]) \<and>
    Session_on_frame d ph ack t3 rnd =
      (ph', [Emit (EvEstablished (IdentityKeypair_device_id d pc))]) \<and>
    paired_sessions d ph' pc'"
  using handshake_run [OF assms(1-7) known skew, of t0 False t3 rnd]
  by (auto simp: Session_set_paused_def Session_new_pc_def)

definition demo_id :: "byte \<Rightarrow> IdentityKeypair" where
  "demo_id x = IdentityKeypair_from_seed demo_deps (replicate 32 x)"

theorem handshake_completes_witness:
  "\<exists>ph hello pc' ack ph'.
    start_phone demo_deps (demo_id 1) (peer_key_of demo_deps (demo_id 2)) 1000 (Some (replicate 32 3)) =
      Inr (ph, hello) \<and>
    Session_on_frame demo_deps (Session_new_pc (demo_id 2) [peer_key_of demo_deps (demo_id 1)] 0) hello
      2000 (Some (replicate 32 4)) =
      (pc', [Send ack, Emit (EvEstablished (IdentityKeypair_device_id demo_deps (demo_id 1)))]) \<and>
    Session_on_frame demo_deps ph ack 3000 None =
      (ph', [Emit (EvEstablished (IdentityKeypair_device_id demo_deps (demo_id 2)))]) \<and>
    paired_sessions demo_deps ph' pc'"
  by (rule handshake_completes [OF demo_deps_ok demo_id_def demo_id_def])
    (simp_all add: peer_key_of_def abs_diff_def HELLO_TS_WINDOW_MS_def)

text \<open>
  C5: A PC authenticates before it says anything. Whatever frame a waiting PC is given: either
  it is a HELLO of this protocol version from a device it is paired with, with a timestamp
  inside the window and the MAC that the shared static secret gives over exactly those fields,
  and then the PC answers, once, and is established with that device; or the PC sends nothing
  at all and closes.
\<close>

theorem pc_answers_only_authentic_hello:
  "case Session_on_frame d (Session_set_paused (Session_new_pc me peers t0) p) f now rnd of (s', acts) \<Rightarrow>
     (sess_state s' = Closed \<and> channel s' = None \<and> (\<exists>why. acts = [Close why])) \<or>
     (\<exists>peer eph_pk ack. frame_ty f = Hello \<and> peer \<in> set peers \<and>
        hello_authentic d (Session_new_pc me peers t0) f now peer eph_pk \<and>
        sess_state s' = Established \<and> sess_peer s' = Some peer \<and>
        acts = [Send ack, Emit (EvEstablished (pk_device_id peer))] \<and> frame_ty ack = HelloAck)"
proof (cases rule: on_frame_cases [where d = d and s = "Session_set_paused (Session_new_pc me peers t0) p"
      and f = f and now = now and rnd = rnd])
  case hello
  let ?s = "(Session_set_paused (Session_new_pc me peers t0) p)\<lparr> last_activity_ms := now \<rparr>"
  have c: "channel ?s = None" by (simp add: Session_set_paused_def Session_new_pc_def)
  show ?thesis
  proof (cases rule: on_hello_cases [OF c, where d = d and f = f and now = now and rnd = rnd])
    case (1 why)
    then show ?thesis using hello c by simp
  next
    case (2 peer eph_pk eph keys payload)
    have "hello_authentic d (Session_new_pc me peers t0) f now peer eph_pk" "peer \<in> set peers"
      using 2(1)
      by (auto simp: hello_authentic_def Session_set_paused_def Session_new_pc_def find_Some_iff)
    then show ?thesis using hello 2(2) by auto
  qed
qed (simp_all add: Session_fail_def Session_set_paused_def Session_new_pc_def)

text \<open>
  C19: A phone accepts only its PC. Whatever frame arrives while it waits for the answer to its
  HELLO: either it is a HELLO_ACK whose MAC under the static secret shared with the dialled PC
  covers the responder's and the phone's own ephemeral key, and the phone is established with
  that PC; or the phone closes. In neither case does it send anything.
\<close>

theorem phone_accepts_only_its_pc:
  assumes "start_phone d me peer t0 seed = Inr (s, hello)"
    and "Session_on_frame d s f now rnd = (s', acts)"
  shows "(sess_state s' = Closed \<and> channel s' = None \<and> (\<exists>why. acts = [Close why])) \<or>
    (\<exists>eph_pk_r. frame_ty f = HelloAck \<and> ack_authentic d s f peer eph_pk_r \<and>
       sess_state s' = Established \<and> sess_peer s' = Some peer \<and>
       acts = [Emit (EvEstablished (pk_device_id peer))])"
proof -
  have s: "sess_state s = AwaitingHelloAck" "channel s = None" "sess_peer s = Some peer"
    using assms(1)
    by (auto simp: start_phone_def start_phone_with_ephemeral_def Let_def try_r_eq_Inr)
  show ?thesis
  proof (cases rule: on_frame_cases [where d = d and s = s and f = f and now = now and rnd = rnd])
    case ack
    show ?thesis
      by (cases rule: on_hello_ack_cases [where d = d and s = "s\<lparr> last_activity_ms := now \<rparr>" and f = f])
        (use ack s assms(2) in \<open>auto simp: ack_authentic_def\<close>)
  qed (use s assms(2) in \<open>auto simp: Session_fail_def\<close>)
qed

theorem phone_accepts_only_its_pc_witness:
  "\<exists>s hello s' why. start_phone demo_deps (demo_id 1) (peer_key_of demo_deps (demo_id 2)) 0
      (Some (replicate 32 3)) = Inr (s, hello) \<and>
    Session_on_frame demo_deps s (Frame_new PairAck []) 0 None = (s', [Close why])"
proof -
  have w: "fixed_widths demo_deps" by (rule deps_okD [OF demo_deps_ok])
  obtain s hello where s: "start_phone demo_deps (demo_id 1) (peer_key_of demo_deps (demo_id 2)) 0
      (Some (replicate 32 3)) = Inr (s, hello)"
    by (rule start_phone_ok [OF demo_cbor w, of "EphemeralKeypair_from_seed demo_deps (replicate 32 3)"])
      (auto intro: that simp: start_phone_def EphemeralKeypair_generate_def w)
  obtain s' acts where "Session_on_frame demo_deps s (Frame_new PairAck []) 0 None = (s', acts)"
    by fastforce
  with phone_accepts_only_its_pc [OF s this] s show ?thesis by auto
qed

text \<open>
  Closing is final. Any session that satisfies the invariant and is not closed, fed any
  sequence of frames: up to some point it asks for no shutdown and stays open; from the first
  shutdown on, every further frame is answered by a shutdown request and nothing else, and the
  state no longer changes. The state invariant (a channel and a peer exactly when established,
  the role fixed) holds throughout.
\<close>

theorem session_shutdown_is_final:
  assumes "session_inv s" "sess_state s \<noteq> Closed"
  shows "session_inv (fst (run (session_step d) s is)) \<and>
   ((sess_state (fst (run (session_step d) s is)) \<noteq> Closed \<and>
       \<not> list_ex (list_ex is_close) (snd (run (session_step d) s is))) \<or>
    (\<exists>n < length is. sess_state (fst (run (session_step d) s (take n is))) \<noteq> Closed \<and>
       \<not> list_ex (list_ex is_close) (take n (snd (run (session_step d) s is))) \<and>
       list_ex is_close (snd (run (session_step d) s is) ! n) \<and>
       list_all (list_all is_close) (drop (Suc n) (snd (run (session_step d) s is))) \<and>
       fst (run (session_step d) s is) = fst (run (session_step d) s (take (Suc n) is))))"
  using session.inv_run [OF assms(1)] session.shutdown_is_final [OF assms] by (rule conjI)

theorem session_shutdown_is_final_witness:
  "session_inv (fst (run (session_step demo_deps) (Session_new_pc (demo_id 2) [] 0)
     [(Frame_new Pong [], 5, None), (Frame_new Hello [], 6, None)]))"
  by (rule session_shutdown_is_final [THEN conjunct1]) (simp_all add: session_inv_def Session_new_pc_def)

end
