(* ===== verification/SessionTraffic.thy ===== *)
theory SessionTraffic
  imports SessionHandshake
begin

text \<open>
  Traffic over an established session (\<open>session.rs\<close>): clips, acknowledgements, the staged
  list and its items reach the other end unchanged and fit the wire, a paused PC refuses
  clips, and a frame that was processed once is never processed again.
\<close>

section \<open>Sealed frames between paired ends\<close>

definition has_room :: "Session \<Rightarrow> bool" where
  "has_room s \<longleftrightarrow> (case channel s of None \<Rightarrow> False | Some ch \<Rightarrow> unat (dir_ctr (tx ch)) + 1 < 2 ^ 64)"

text \<open>The number of frames a session has sealed, and one exchange seen from both ends.\<close>

definition sent :: "Session \<Rightarrow> nat" where
  "sent s = (case channel s of None \<Rightarrow> 0 | Some ch \<Rightarrow> unat (dir_ctr (tx ch)))"

definition exchanged :: "Session \<Rightarrow> Session \<Rightarrow> Session \<Rightarrow> Session \<Rightarrow> bool" where
  "exchanged a b a' b' \<longleftrightarrow> sent a' = Suc (sent a) \<and> sent b' = Suc (sent b)"

lemma room_sent: "paired_sessions d a b \<Longrightarrow> sent a + 1 < 2 ^ 64 \<Longrightarrow> has_room a"
  by (auto simp: paired_sessions_def sent_def has_room_def split: option.splits)

lemma paired_sym: "paired_sessions d a b \<longleftrightarrow> paired_sessions d b a"
  by (auto simp: paired_sessions_def split: option.splits)

lemma paired_update [simp]:
  "paired_sessions d (s\<lparr> last_activity_ms := t \<rparr>) b \<longleftrightarrow> paired_sessions d s b"
  "paired_sessions d a (s\<lparr> last_activity_ms := t \<rparr>) \<longleftrightarrow> paired_sessions d a s"
  "paired_sessions d a (s\<lparr> last_activity_ms := t, channel := c \<rparr>) \<longleftrightarrow> paired_sessions d a (s\<lparr> channel := c \<rparr>)"
  by (simp_all add: paired_sessions_def)

text \<open>Which handler runs on a decrypted payload.\<close>

definition dispatch :: "deps \<Rightarrow> FrameType \<Rightarrow> Session \<Rightarrow> bytes \<Rightarrow> Session \<times> SessionAction list" where
  "dispatch d ty s m =
    (case ty of
       ClipPush \<Rightarrow> on_clip_push d s m
     | ClipAck \<Rightarrow> on_clip_ack d s m
     | StageListReq \<Rightarrow> (s, [Emit StageListRequested])
     | StageList \<Rightarrow> on_stage_list d s m
     | StageGet \<Rightarrow> on_stage_get d s m
     | StageItem \<Rightarrow> on_stage_item d s m
     | Ping \<Rightarrow> (case Session_seal_frame d s Pong [] of
                  (s', Inr f) \<Rightarrow> (s', [Send f])
                | (s', Inl e) \<Rightarrow> Session_fail s' ''failed to seal PONG'')
     | Pong \<Rightarrow> (s, [])
     | ErrorFrame \<Rightarrow> on_error d s m
     | _ \<Rightarrow> Session_fail s ''unhandled encrypted frame type'')"

lemma on_frame_opened:
  assumes "sess_state b = Established" "channel b = Some cb" "FrameType_is_encrypted ty"
    "AeadChannel_open d cb ty sealed = (cb', Inr m)"
  shows "Session_on_frame d b (Frame_new ty sealed) now rnd =
    dispatch d ty (b\<lparr> last_activity_ms := now, channel := Some cb' \<rparr>) m"
proof -
  have "Session_on_frame d b (Frame_new ty sealed) now rnd =
      on_encrypted d (b\<lparr> last_activity_ms := now \<rparr>) (Frame_new ty sealed)"
    using assms(1,3) by (cases ty) (simp_all add: Session_on_frame_def Let_def)
  then show ?thesis
    using assms(2,4) by (simp add: on_encrypted_def dispatch_def Let_def)
qed

text \<open>
  One sealed frame between paired ends: sealing succeeds, the frame is 24 bytes longer than the
  plaintext, the peer runs the handler of its type on the same plaintext, and the ends the
  handler starts from are paired again.
\<close>

lemma sealed_frame_received:
  assumes d: "deps_ok d" and p: "paired_sessions d a b" and room: "has_room a"
    and ty: "FrameType_is_encrypted ty" and m: "length m \<le> 2 ^ 32"
  obtains a' f b' where
    "Session_seal_frame d a ty m = (a', Inr f)" "length (frame_payload f) = length m + 24"
    "Session_on_frame d b f now rnd = dispatch d ty b' m"
    "paired_sessions d a' b'" "has_room b' = has_room b" "paused b' = paused b"
    "frame_ty f = ty" "sent a' = Suc (sent a)" "sent b' = sent b"
proof -
  obtain ca cb where c: "channel a = Some ca" "channel b = Some cb"
    and l: "linked d ca cb" "linked d cb ca"
    and st: "sess_state a = Established" "sess_state b = Established"
    using p by (auto simp: paired_sessions_def split: option.splits)
  obtain ct where ct: "chacha_encrypt d (dir_key (tx ca)) (nonce_for (dir_ctr (tx ca))) (aad_for ty) m
      = Some ct" "length ct = length m + 16"
    using aead_sealsD [OF deps_okD(5) [OF d] m] by blast
  define ca' where "ca' = ca\<lparr> tx := (tx ca)\<lparr> dir_ctr := dir_ctr (tx ca) + 1 \<rparr> \<rparr>"
  define sealed where "sealed = u64_to_le_bytes (dir_ctr (tx ca)) @ ct"
  have s: "AeadChannel_seal d ca ty m = (ca', Inr sealed)"
    using ct(1) room c(1) by (simp add: seal_Inr_iff has_room_def ca'_def sealed_def)
  obtain cb' where o: "AeadChannel_open d cb ty sealed = (cb', Inr m)" and l': "linked d ca' cb'"
    using chan.seal_open [OF l(1) s] by blast
  have tx: "tx cb' = tx cb" using o by (auto simp: open_Inr_iff)
  have "linked d cb' ca'" using l(2) by (auto simp: linked_def tx ca'_def rx_floor_def)
  with l' st have "paired_sessions d (a\<lparr> channel := Some ca' \<rparr>)
      (b\<lparr> last_activity_ms := now, channel := Some cb' \<rparr>)"
    by (simp add: paired_sessions_def)
  moreover have "unat (dir_ctr (tx ca) + 1) = Suc (unat (dir_ctr (tx ca)))"
    using room c(1) unat_succ_u64 [of "dir_ctr (tx ca)"] by (simp add: has_room_def)
  ultimately show ?thesis
    using that [of "a\<lparr> channel := Some ca' \<rparr>" "Frame_new ty sealed"] c tx ct(2) s
      on_frame_opened [OF st(2) c(2) ty o]
    by (simp add: Session_seal_frame_def sealed_def has_room_def sent_def ca'_def)
qed

text \<open>A request and its reply: one sealed frame each way, with room for both.\<close>

lemma request_reply:
  assumes d: "deps_ok d" and p: "paired_sessions d a b" and room: "has_room a" "has_room b"
    and ty: "FrameType_is_encrypted ty1" "FrameType_is_encrypted ty2"
    and len: "length m1 \<le> 1000000" "length m2 \<le> 1000000"
  obtains a1 f1 b1 b2 f2 a2 where
    "Session_seal_frame d a ty1 m1 = (a1, Inr f1)" "frame_fits f1"
    "Session_on_frame d b f1 t1 r1 = dispatch d ty1 b1 m1" "paused b1 = paused b"
    "Session_seal_frame d b1 ty2 m2 = (b2, Inr f2)" "frame_fits f2"
    "Session_on_frame d a1 f2 t2 r2 = dispatch d ty2 a2 m2" "paired_sessions d a2 b2"
    "frame_ty f2 = ty2" "exchanged a b a2 b2"
proof -
  have len': "length m1 \<le> 2 ^ 32" "length m2 \<le> 2 ^ 32" using len by simp_all
  obtain a1 f1 b1 where s1: "Session_seal_frame d a ty1 m1 = (a1, Inr f1)"
    "length (frame_payload f1) = length m1 + 24"
    "Session_on_frame d b f1 t1 r1 = dispatch d ty1 b1 m1"
    "paired_sessions d a1 b1" "has_room b1 = has_room b" "paused b1 = paused b"
    "sent a1 = Suc (sent a)" "sent b1 = sent b"
    by (rule sealed_frame_received [OF d p room(1) ty(1) len'(1)])
  have s1': "paired_sessions d b1 a1" "has_room b1"
    using s1 room by (simp_all add: paired_sym [of d b1])
  obtain b2 f2 a2 where s2: "Session_seal_frame d b1 ty2 m2 = (b2, Inr f2)"
    "length (frame_payload f2) = length m2 + 24"
    "Session_on_frame d a1 f2 t2 r2 = dispatch d ty2 a2 m2" "paired_sessions d b2 a2"
    "frame_ty f2 = ty2" "sent b2 = Suc (sent b1)" "sent a2 = sent a1"
    by (rule sealed_frame_received [OF d s1' ty(2) len'(2)])
  have "frame_fits f1" "frame_fits f2"
    using len s1(2) s2(2) by (simp_all add: frame_fits_def unat_MAX_FRAME_LEN)
  moreover have "exchanged a b a2 b2" using s1(7,8) s2(6,7) by (simp add: exchanged_def)
  ultimately show ?thesis using that s1 s2 paired_sym by blast
qed

section \<open>Message contents\<close>

definition push_fields :: "bytes \<Rightarrow> ContentType \<Rightarrow> bytes \<Rightarrow> u64 \<Rightarrow> rstr \<Rightarrow> (u64 \<times> Value) list" where
  "push_fields i ct body t name =
     [(key CLIP_ID, VBytes i),
      (key CONTENT_TYPE, VInteger (uint (ucast (ContentType_as_u8 ct) :: u64))),
      (key BODY, VBytes body), (key CREATED_AT, VInteger (uint t)), (key SOURCE_NAME, VText name)]"

definition clip_ack_fields :: "bytes \<Rightarrow> u64 \<Rightarrow> (u64 \<times> Value) list" where
  "clip_ack_fields i st = [(key ACK_CLIP_ID, VBytes i), (key ACK_STATUS, VInteger (uint st))]"

lemma content_type_of_wire [simp]: "content_type_of (ucast (ContentType_as_u8 c)) = Some c"
  by (cases c) (simp_all add: content_type_of_def ContentType_try_from_def)

lemma push_read:
  assumes "length i = 8"
  shows "MapReader_byte_array 8 (field_map (push_fields i ct body t name)) (key CLIP_ID) = Inr i"
    "MapReader_u64 (field_map (push_fields i ct body t name)) (key CONTENT_TYPE) =
      Inr (ucast (ContentType_as_u8 ct))"
    "MapReader_bytes (field_map (push_fields i ct body t name)) (key BODY) = Inr body"
    "MapReader_u64 (field_map (push_fields i ct body t name)) (key CREATED_AT) = Inr t"
    "MapReader_text (field_map (push_fields i ct body t name)) (key SOURCE_NAME) = Inr name"
  using assms by (auto simp: push_fields_def intro!: MapReader_field)

lemma clip_ack_read:
  assumes "length i = 8"
  shows "MapReader_byte_array 8 (field_map (clip_ack_fields i st)) (key ACK_CLIP_ID) = Inr i"
    "MapReader_u64 (field_map (clip_ack_fields i st)) (key ACK_STATUS) = Inr st"
  using assms by (auto simp: clip_ack_fields_def intro!: MapReader_field)

lemma push_payload:
  assumes "deps_ok d" "length i = 8" "length body \<le> MAX_TEXT_CLIP" "valid_str name"
    "str_len name \<le> MAX_TEXT_CLIP"
  obtains m where "MapBuilder_to_vec d (build_map
      [MapBuilder_bytes (key CLIP_ID) i,
       MapBuilder_u64 (key CONTENT_TYPE) (ucast (ContentType_as_u8 ct)),
       MapBuilder_bytes (key BODY) body, MapBuilder_u64 (key CREATED_AT) t,
       MapBuilder_text (key SOURCE_NAME) name]) = Inr m"
    "MapReader_from_slice d m = Inr (field_map (push_fields i ct body t name))"
    "length m \<le> 524500"
  by (rule payload_roundtrip [OF deps_okD(6) [OF assms(1)], where kvs = "push_fields i ct body t name"
        and b = "build_map [MapBuilder_bytes (key CLIP_ID) i,
       MapBuilder_u64 (key CONTENT_TYPE) (ucast (ContentType_as_u8 ct)),
       MapBuilder_bytes (key BODY) body, MapBuilder_u64 (key CREATED_AT) t,
       MapBuilder_text (key SOURCE_NAME) name]"])
    (use assms in \<open>simp_all add: push_fields_def MapBuilder_defs MAX_TEXT_CLIP_def that\<close>)

lemma clip_ack_payload:
  assumes "deps_ok d" "length i = 8"
  obtains m where "MapBuilder_to_vec d (build_map
      [MapBuilder_bytes (key ACK_CLIP_ID) i, MapBuilder_u64 (key ACK_STATUS) st]) = Inr m"
    "MapReader_from_slice d m = Inr (field_map (clip_ack_fields i st))" "length m \<le> 100"
  by (rule payload_roundtrip [OF deps_okD(6) [OF assms(1)], where kvs = "clip_ack_fields i st"
        and b = "build_map [MapBuilder_bytes (key ACK_CLIP_ID) i, MapBuilder_u64 (key ACK_STATUS) st]"])
    (use assms in \<open>simp_all add: clip_ack_fields_def MapBuilder_defs that\<close>)

section \<open>The handlers on well-formed messages\<close>

lemma on_clip_push_read:
  assumes "MapReader_from_slice d m = Inr (field_map (push_fields i ct body t name))" "length i = 8"
  shows "on_clip_push d s m =
    (if paused s then Session_wire_error d s RateLimited ''beaming paused''
     else if length body > MAX_TEXT_CLIP
     then Session_wire_error d s WireFrameTooLarge ''clip exceeds MAX_TEXT_CLIP''
     else
       (case MapBuilder_to_vec d (build_map
           [MapBuilder_bytes (key ACK_CLIP_ID) i, MapBuilder_u64 (key ACK_STATUS) 0]) of
          Inl e \<Rightarrow> Session_fail s ''failed to encode CLIP_ACK''
        | Inr ack \<Rightarrow>
            (case Session_seal_frame d s ClipAck ack of
               (s', Inl e) \<Rightarrow> Session_fail s' ''failed to seal CLIP_ACK''
             | (s', Inr ack_frame) \<Rightarrow> (s', [Emit (ClipArrived i ct body name t), Send ack_frame]))))"
  unfolding on_clip_push_def assms(1)
  by (simp add: push_read [OF assms(2)] Let_def del: key.simps)

lemma on_clip_ack_read:
  assumes "MapReader_from_slice d m = Inr (field_map (clip_ack_fields i st))" "length i = 8"
  shows "on_clip_ack d s m = (s, [Emit (ClipAcked i (ucast st))])"
  unfolding on_clip_ack_def assms(1) by (simp add: clip_ack_read [OF assms(2)] del: key.simps)

text \<open>Staged metadata and items.\<close>

definition meta_fields :: "StageMeta \<Rightarrow> (u64 \<times> Value) list" where
  "meta_fields m =
     [(key STAGE_META_ID, VBytes (sm_stage_id m)),
      (key STAGE_META_TYPE, VInteger (uint (ucast (ContentType_as_u8 (sm_content_type m)) :: u64))),
      (key STAGE_META_PREVIEW, VText (sm_preview m)),
      (key STAGE_META_SIZE, VInteger (uint (ucast (sm_size m) :: u64))),
      (key STAGE_META_COPIED_AT, VInteger (uint (sm_copied_at_ms m)))]"

definition meta_wire_ok :: "StageMeta \<Rightarrow> bool" where
  "meta_wire_ok m \<longleftrightarrow> length (sm_stage_id m) = 8 \<and> valid_str (sm_preview m) \<and> str_len (sm_preview m) \<le> 480"

definition item_fields :: "bytes \<Rightarrow> ContentType \<Rightarrow> bytes \<Rightarrow> (u64 \<times> Value) list" where
  "item_fields i ct body =
     [(key ITEM_ID, VBytes i),
      (key ITEM_TYPE, VInteger (uint (ucast (ContentType_as_u8 ct) :: u64))),
      (key ITEM_BODY, VBytes body)]"

lemma meta_read:
  assumes "length (sm_stage_id m) = 8"
  shows "MapReader_byte_array 8 (field_map (meta_fields m)) (key STAGE_META_ID) = Inr (sm_stage_id m)"
    "MapReader_u64 (field_map (meta_fields m)) (key STAGE_META_TYPE) =
       Inr (ucast (ContentType_as_u8 (sm_content_type m)))"
    "MapReader_text (field_map (meta_fields m)) (key STAGE_META_PREVIEW) = Inr (sm_preview m)"
    "MapReader_u64 (field_map (meta_fields m)) (key STAGE_META_SIZE) = Inr (ucast (sm_size m))"
    "MapReader_u64 (field_map (meta_fields m)) (key STAGE_META_COPIED_AT) = Inr (sm_copied_at_ms m)"
  using assms by (auto simp: meta_fields_def intro!: MapReader_field)

lemma item_read:
  assumes "length i = 8"
  shows "MapReader_byte_array 8 (field_map (item_fields i ct body)) (key ITEM_ID) = Inr i"
    "MapReader_u64 (field_map (item_fields i ct body)) (key ITEM_TYPE) = Inr (ucast (ContentType_as_u8 ct))"
    "MapReader_bytes (field_map (item_fields i ct body)) (key ITEM_BODY) = Inr body"
  using assms by (auto simp: item_fields_def intro!: MapReader_field)

lemma stage_entry_fields:
  "stage_entry m = VMap (map (\<lambda>(k, v). (VInteger (uint k), v)) (meta_fields m))"
  by (simp add: stage_entry_def meta_fields_def MapBuilder_defs)

lemma stage_entry_read: "MapReader_from_value (stage_entry m) = Inr (field_map (meta_fields m))"
  unfolding stage_entry_def
  by (rule from_value_fields) (simp_all add: meta_fields_def MapBuilder_defs)

lemma stage_entries_read:
  "list_all meta_wire_ok ms \<Longrightarrow> stage_entries (map stage_entry ms) = Inr ms"
proof (induction ms)
  case (Cons m ms)
  have id8: "length (sm_stage_id m) = 8" using Cons.prems by (simp add: meta_wire_ok_def)
  have "(ucast (ucast (sm_size m) :: u64) :: u32) = sm_size m"
    by (rule bit_word_eqI) (simp add: bit_ucast_iff)
  then show ?case
    using Cons by (simp add: stage_entry_read meta_read [OF id8] del: key.simps)
qed simp

lemma stage_entry_ok:
  assumes "meta_wire_ok m"
  shows "cbor_plain (stage_entry m)" "value_depth (stage_entry m) = 1" "cbor_bound (stage_entry m) \<le> 600"
  using assms
  by (simp_all add: stage_entry_fields meta_fields_def meta_wire_ok_def del: cbor_plain.simps(1))
    (simp_all add: cbor_plain_uint [simplified])

lemma utf8_char_le: "length (utf8_char c) \<le> 4"
  by (simp add: utf8_char_def)

lemma str_len_le: "str_len s \<le> 4 * length s"
proof (induction s)
  case (Cons c s)
  then show ?case using utf8_char_le [of c] by (simp add: str_len_def as_bytes_def)
qed (simp add: str_len_def as_bytes_def)

lemma ring_metas_ok:
  assumes "\<forall>c \<in> set (ring_items r). length (sc_stage_id c) = 8"
  shows "list_all meta_wire_ok (StageRing_list r)"
proof -
  have "str_len (preview_of b) \<le> 480" for b
    using str_len_le [of "preview_of b"] by (simp add: preview_of_eq PREVIEW_CHARS_def)
  then show ?thesis
    using assms by (simp add: list_all_iff StageRing_list_def meta_wire_ok_def meta_of_def valid_preview)
qed

lemma list_payload:
  assumes "deps_ok d" "list_all meta_wire_ok ms" "length ms \<le> 1024"
  obtains m where "MapBuilder_to_vec d (build_map
      [MapBuilder_array (key STAGE_ITEMS) (map stage_entry ms)]) = Inr m"
    "MapReader_from_slice d m = Inr (field_map [(key STAGE_ITEMS, VArray (map stage_entry ms))])"
    "length m \<le> 620000"
proof -
  have "foldr (\<lambda>v n. max (value_depth v) n) (map stage_entry ms) 0 \<le> 1"
    using assms(2) stage_entry_ok(2) by (induction ms) auto
  moreover have "list_all cbor_plain (map stage_entry ms)"
    using assms(2) stage_entry_ok(1) by (auto simp: list_all_iff)
  ultimately have ok: "field_ok (VArray (map stage_entry ms))"
    using assms(3) by (simp add: field_ok_def max_payload_depth_def)
  have "sum_list (map (cbor_bound \<circ> stage_entry) ms) \<le> 600 * length ms"
    using assms(2) stage_entry_ok(3) by (induction ms) (auto intro: add_mono)
  then have size: "sum_list (map (cbor_bound \<circ> stage_entry) ms) \<le> 614400" using assms(3) by simp
  show ?thesis
    by (rule payload_roundtrip [OF deps_okD(6) [OF assms(1)],
          where kvs = "[(key STAGE_ITEMS, VArray (map stage_entry ms))]"
          and b = "build_map [MapBuilder_array (key STAGE_ITEMS) (map stage_entry ms)]"])
      (use ok size in \<open>simp_all add: MapBuilder_defs that\<close>)
qed

lemma on_stage_list_read:
  assumes "MapReader_from_slice d m = Inr (field_map [(key STAGE_ITEMS, VArray (map stage_entry ms))])"
    "list_all meta_wire_ok ms"
  shows "on_stage_list d s m = (s, [Emit (EvStageList ms)])"
proof -
  have "MapReader_array (field_map [(key STAGE_ITEMS, VArray (map stage_entry ms))]) (key STAGE_ITEMS) =
      Inr (map stage_entry ms)"
    by (rule MapReader_field) simp
  then show ?thesis
    unfolding on_stage_list_def assms(1) by (simp add: stage_entries_read [OF assms(2)] del: key.simps)
qed

lemma item_payload:
  assumes "deps_ok d" "length i = 8" "length body \<le> MAX_TEXT_CLIP"
  obtains m where "MapBuilder_to_vec d (build_map
      [MapBuilder_bytes (key ITEM_ID) i,
       MapBuilder_u64 (key ITEM_TYPE) (ucast (ContentType_as_u8 ct)),
       MapBuilder_bytes (key ITEM_BODY) body]) = Inr m"
    "MapReader_from_slice d m = Inr (field_map (item_fields i ct body))" "length m \<le> 262400"
  by (rule payload_roundtrip [OF deps_okD(6) [OF assms(1)], where kvs = "item_fields i ct body"
        and b = "build_map [MapBuilder_bytes (key ITEM_ID) i,
       MapBuilder_u64 (key ITEM_TYPE) (ucast (ContentType_as_u8 ct)),
       MapBuilder_bytes (key ITEM_BODY) body]"])
    (use assms in \<open>simp_all add: item_fields_def MapBuilder_defs MAX_TEXT_CLIP_def that\<close>)

lemma on_stage_item_read:
  assumes "MapReader_from_slice d m = Inr (field_map (item_fields i ct body))" "length i = 8"
  shows "on_stage_item d s m = (s, [Emit (EvStageItem i ct body)])"
  unfolding on_stage_item_def assms(1) by (simp add: item_read [OF assms(2)] del: key.simps)

lemma get_payload:
  assumes "deps_ok d" "length i = 8"
  obtains m where "MapBuilder_to_vec d (build_map [MapBuilder_bytes (key STAGE_ID) i]) = Inr m"
    "\<forall>s. on_stage_get d s m = (s, [Emit (StageItemRequested i)])" "length m \<le> 100"
proof -
  obtain m where m: "MapBuilder_to_vec d (build_map [MapBuilder_bytes (key STAGE_ID) i]) = Inr m"
    "MapReader_from_slice d m = Inr (field_map [(key STAGE_ID, VBytes i)])" "length m \<le> 100"
    by (rule payload_roundtrip [OF deps_okD(6) [OF assms(1)], where kvs = "[(key STAGE_ID, VBytes i)]"
        and b = "build_map [MapBuilder_bytes (key STAGE_ID) i]"])
      (use assms in \<open>simp_all add: MapBuilder_defs\<close>)
  have "MapReader_byte_array 8 (field_map [(key STAGE_ID, VBytes i)]) (key STAGE_ID) = Inr i"
    by (rule MapReader_field) (simp_all add: assms)
  then have "on_stage_get d s m = (s, [Emit (StageItemRequested i)])" for s
    unfolding on_stage_get_def m(2) by (simp del: key.simps)
  then show ?thesis using m that by blast
qed

lemma empty_payload:
  assumes "deps_ok d"
  obtains m where "MapBuilder_to_vec d (build_map []) = Inr m" "length m \<le> 100"
  by (rule payload_roundtrip [OF deps_okD(6) [OF assms], where kvs = "[]" and b = "build_map []"])
    (simp_all add: MapBuilder_defs that)

text \<open>The error a paused PC answers with, as the phone reads it.\<close>

lemma error_payload:
  assumes "deps_ok d" "valid_str (lit msg)" "str_len (lit msg) \<le> 1000"
  obtains m where "MapBuilder_to_vec d (build_map
      [MapBuilder_u64 (key ERR_CODE) (ucast (WireErrorCode_as_u16 code)),
       MapBuilder_text (key ERR_MSG) (lit msg)]) = Inr m"
    "\<forall>s. on_error d s m = (s\<lparr> sess_state := Closed \<rparr>,
       [Emit (PeerError (WireErrorCode_as_u16 code) (lit msg)), Close ''peer sent ERROR''])"
    "length m \<le> 2000"
proof -
  let ?f = "[(key ERR_CODE, VInteger (uint (ucast (WireErrorCode_as_u16 code) :: u64))),
     (key ERR_MSG, VText (lit msg))]"
  obtain m where m: "MapBuilder_to_vec d (build_map
      [MapBuilder_u64 (key ERR_CODE) (ucast (WireErrorCode_as_u16 code)),
       MapBuilder_text (key ERR_MSG) (lit msg)]) = Inr m"
    "MapReader_from_slice d m = Inr (field_map ?f)" "length m \<le> 2000"
    by (rule payload_roundtrip [OF deps_okD(6) [OF assms(1)], where kvs = ?f and b = "build_map
      [MapBuilder_u64 (key ERR_CODE) (ucast (WireErrorCode_as_u16 code)),
       MapBuilder_text (key ERR_MSG) (lit msg)]"])
      (use assms in \<open>simp_all add: MapBuilder_defs\<close>)
  have "MapReader_u64 (field_map ?f) (key ERR_CODE) = Inr (ucast (WireErrorCode_as_u16 code))"
    "MapReader_text (field_map ?f) (key ERR_MSG) = Inr (lit msg)"
    by (rule MapReader_field; simp)+
  moreover have "(ucast (ucast (WireErrorCode_as_u16 code) :: u64) :: u16) = WireErrorCode_as_u16 code"
    by (cases code) simp_all
  ultimately have "\<forall>s. on_error d s m = (s\<lparr> sess_state := Closed \<rparr>,
       [Emit (PeerError (WireErrorCode_as_u16 code) (lit msg)), Close ''peer sent ERROR''])"
    unfolding on_error_def m(2) by (simp del: key.simps)
  with m show ?thesis using that by blast
qed

lemma wire_error_sealed:
  assumes "MapBuilder_to_vec d (build_map
      [MapBuilder_u64 (key ERR_CODE) (ucast (WireErrorCode_as_u16 code)),
       MapBuilder_text (key ERR_MSG) (lit msg)]) = Inr m"
    and "Session_seal_frame d s ErrorFrame m = (s', Inr f)"
  shows "Session_wire_error d s code msg = (s'\<lparr> sess_state := Closed \<rparr>, [Send f, Close msg])"
  using assms
  by (auto simp: Session_wire_error_def Session_seal_frame_def Let_def
      split: option.splits prod.splits sum.splits)

text \<open>Where a clip event can come from.\<close>

definition is_arrival :: "SessionAction \<Rightarrow> bool" where
  "is_arrival a \<longleftrightarrow> (\<exists>i ct b n t. a = Emit (ClipArrived i ct b n t))"

lemma no_arrival_fail [simp]: "list_all (Not \<circ> is_arrival) (snd (Session_fail s why))"
  by (simp add: is_arrival_def)

lemma no_arrival_wire_error [simp]: "list_all (Not \<circ> is_arrival) (snd (Session_wire_error d s c msg))"
  by (auto simp: Session_wire_error_def is_arrival_def Let_def split: option.splits prod.splits sum.splits)

lemma no_arrivals:
  "list_all (Not \<circ> is_arrival) (snd (on_clip_ack d s m))"
  "list_all (Not \<circ> is_arrival) (snd (on_stage_get d s m))"
  "list_all (Not \<circ> is_arrival) (snd (on_stage_list d s m))"
  "list_all (Not \<circ> is_arrival) (snd (on_stage_item d s m))"
  "list_all (Not \<circ> is_arrival) (snd (on_error d s m))"
  by (auto simp: on_clip_ack_def on_stage_get_def on_stage_list_def on_stage_item_def on_error_def
      is_arrival_def Let_def case_prod_unfold split: sum.split option.split)

lemma dispatch_no_arrival:
  "ty \<noteq> ClipPush \<Longrightarrow> list_all (Not \<circ> is_arrival) (snd (dispatch d ty s m))"
  by (cases ty) (auto simp: dispatch_def no_arrivals is_arrival_def split: prod.split sum.split)

lemma list_ex_all: "list_ex P xs \<Longrightarrow> list_all (Not \<circ> P) xs \<Longrightarrow> False"
  by (auto simp: list_ex_iff list_all_iff)

lemma arrival_checked:
  assumes "Emit (ClipArrived i ct body n t) \<in> set (snd (on_clip_push d s m))"
  shows "\<not> paused s \<and> length i = 8 \<and> length body \<le> MAX_TEXT_CLIP \<and>
    (\<exists>ack. snd (on_clip_push d s m) = [Emit (ClipArrived i ct body n t), Send ack] \<and> frame_ty ack = ClipAck)"
proof -
  have ty: "frame_ty f = ClipAck" if "Session_seal_frame d s ClipAck k = (s', Inr f)" for s' f k
    using that by (auto simp: Session_seal_frame_def split: option.splits prod.splits sum.splits)
  have w: "Emit x \<notin> set (snd (Session_wire_error d s c msg))" for x c msg
    by (auto simp: Session_wire_error_def Let_def split: option.splits prod.splits sum.splits)
  show ?thesis
    using assms w unfolding on_clip_push_def
    by (auto simp: Let_def MapReader_byte_array_Inr ty split: sum.splits option.splits if_splits prod.splits)
qed

text \<open>Every event but the handshake's own comes from a handler run on an authenticated payload.\<close>

lemma emitted_by_dispatch:
  assumes "Emit ev \<in> set (snd (Session_on_frame d s f now rnd))" "session_inv s" "\<nexists>p. ev = EvEstablished p"
  obtains ch ch' m where "sess_state s = Established" "channel s = Some ch"
    "AeadChannel_open d ch (frame_ty f) (frame_payload f) = (ch', Inr m)"
    "Session_on_frame d s f now rnd =
       dispatch d (frame_ty f) (s\<lparr> last_activity_ms := now, channel := Some ch' \<rparr>) m"
proof (cases rule: on_frame_cases [where d = d and s = s and f = f and now = now and rnd = rnd])
  case hello
  have c: "channel (s\<lparr> last_activity_ms := now \<rparr>) = None"
    using assms(2) hello(1) by (simp add: session_inv_def)
  show ?thesis
    by (cases rule: on_hello_cases [OF c, where d = d and f = f and now = now and rnd = rnd])
      (use hello assms(1,3) in auto)
next
  case ack
  show ?thesis
    by (cases rule: on_hello_ack_cases [where d = d and s = "s\<lparr> last_activity_ms := now \<rparr>" and f = f])
      (use ack assms(1,3) in auto)
next
  case enc
  obtain ch where ch: "channel s = Some ch" using enc(1) assms(2) by (auto simp: session_inv_def)
  obtain ch' r where o: "AeadChannel_open d ch (frame_ty f) (frame_payload f) = (ch', r)" by fastforce
  show ?thesis
  proof (cases r)
    case (Inl e)
    then show ?thesis using assms(1) enc ch o by (simp add: on_encrypted_def)
  next
    case (Inr m)
    have f: "f = Frame_new (frame_ty f) (frame_payload f)" by (simp add: Frame_new_def)
    have "Session_on_frame d s f now rnd =
        dispatch d (frame_ty f) (s\<lparr> last_activity_ms := now, channel := Some ch' \<rparr>) m"
      using on_frame_opened [OF enc(1) ch enc(2) o [unfolded Inr]] f by simp
    then show ?thesis using that [OF enc(1) ch] o Inr by simp
  qed
qed (use assms(1) in simp_all)

lemma only_clip_push_arrives:
  assumes "list_ex is_arrival (snd (Session_on_frame d s f now rnd))" "session_inv s"
  obtains ch ch' m where "sess_state s = Established" "channel s = Some ch" "frame_ty f = ClipPush"
    "AeadChannel_open d ch ClipPush (frame_payload f) = (ch', Inr m)"
    "Session_on_frame d s f now rnd = on_clip_push d (s\<lparr> last_activity_ms := now, channel := Some ch' \<rparr>) m"
proof -
  obtain i ct b n t where e: "Emit (ClipArrived i ct b n t) \<in> set (snd (Session_on_frame d s f now rnd))"
    using assms(1) by (auto simp: list_ex_iff is_arrival_def)
  obtain ch ch' m where c: "sess_state s = Established" "channel s = Some ch"
    "AeadChannel_open d ch (frame_ty f) (frame_payload f) = (ch', Inr m)"
    "Session_on_frame d s f now rnd =
       dispatch d (frame_ty f) (s\<lparr> last_activity_ms := now, channel := Some ch' \<rparr>) m"
    by (rule emitted_by_dispatch [OF e assms(2)]) auto
  from c(4) have "frame_ty f = ClipPush" using assms(1) dispatch_no_arrival list_ex_all by metis
  then show ?thesis using that [OF c(1,2)] c(3,4) by (simp add: dispatch_def)
qed

section \<open>Moves of a session\<close>

text \<open>Everything that happens to a session between connection and teardown.\<close>

inductive session_move :: "deps \<Rightarrow> Session \<Rightarrow> Session \<Rightarrow> bool" for d where
  receive: "session_move d s (fst (Session_on_frame d s f now rnd))"
| send: "session_move d s (fst (Session_seal_frame d s ty m))"
| pause: "session_move d s (Session_set_paused s p)"

definition session_floor :: "Session \<Rightarrow> nat" where
  "session_floor s = (case channel s of None \<Rightarrow> 0 | Some ch \<Rightarrow> rx_floor ch)"

lemma rx_floor_cong: "rx a = rx b \<Longrightarrow> rx_floor a = rx_floor b"
  by (simp add: rx_floor_def)

lemma session_floor_rx:
  "map_option rx (channel a) = map_option rx (channel b) \<Longrightarrow> session_floor a = session_floor b"
  by (cases "channel a"; cases "channel b") (auto simp: session_floor_def intro: rx_floor_cong)

lemma move_inv:
  assumes "session_move d s s'" "session_inv s"
  shows "session_inv s'"
  using assms(1)
proof cases
  case (receive f now rnd)
  then show ?thesis
    using session.inv_step [OF assms(2), of d "(f, now, rnd)"] session.closed_stays [of s d "(f, now, rnd)"] assms(2)
    by (cases "sess_state s = Closed") (simp_all add: session_step_def)
next
  case (send ty m)
  then show ?thesis
    using assms(2) seal_frame_shape(1) [of d s ty m]
    by (auto simp: session_inv_def Session_seal_frame_def split: State.splits option.splits prod.splits sum.splits)
next
  case (pause p)
  then show ?thesis using assms(2) by (simp add: session_inv_def Session_set_paused_def split: State.splits)
qed

lemma moves_inv: "(session_move d)\<^sup>*\<^sup>* s s' \<Longrightarrow> session_inv s \<Longrightarrow> session_inv s'"
  by (induction rule: rtranclp_induct) (auto intro: move_inv)

text \<open>Processing a frame without closing moves the floor past its counter.\<close>

lemma established_step:
  assumes "sess_state s = Established" "Session_on_frame d s f now rnd = (s', acts)" "sess_state s' \<noteq> Closed"
  shows "sess_state s' = Established \<and> session_floor s \<le> frame_counter (frame_payload f) \<and>
    session_floor s' = Suc (frame_counter (frame_payload f))"
proof (cases rule: on_frame_cases [where d = d and s = s and f = f and now = now and rnd = rnd])
  case enc
  let ?s = "s\<lparr> last_activity_ms := now \<rparr>"
  show ?thesis
  proof (cases rule: on_encrypted_cases [where s = ?s and d = d and f = f])
    case (opened ch ch' plain)
    have r: "on_encrypted d ?s f = (s', acts)" using enc assms(2) by simp
    note h = handler_ok_set_channel [OF opened(3) [unfolded r], unfolded fst_conv snd_conv]
    have "rx_floor ch \<le> frame_counter (frame_payload f)" "rx_floor ch' = Suc (frame_counter (frame_payload f))"
      using chan.open_seq [OF opened(2)] by simp_all
    moreover have "session_floor s' = rx_floor ch'"
      using session_floor_rx [of s' "s\<lparr> channel := Some ch' \<rparr>"] h(2) by (simp add: session_floor_def)
    ultimately show ?thesis
      using h(3) assms(1,3) opened(1) by (auto simp: session_floor_def)
  qed (use enc assms in \<open>auto simp: Session_fail_def\<close>)
qed (use assms in \<open>auto simp: Session_fail_def\<close>)

lemma move_floor:
  assumes "session_move d s s'" "sess_state s = Closed \<or> sess_state s = Established \<and> n \<le> session_floor s"
  shows "sess_state s' = Closed \<or> sess_state s' = Established \<and> n \<le> session_floor s'"
  using assms(1)
proof cases
  case (receive f now rnd)
  obtain s1 acts where r: "Session_on_frame d s f now rnd = (s1, acts)" by fastforce
  show ?thesis
  proof (cases "sess_state s = Closed")
    case True
    then show ?thesis using receive by (simp add: Session_on_frame_def)
  next
    case False
    then show ?thesis using established_step [OF _ r] assms(2) receive r by fastforce
  qed
next
  case (send ty m)
  then have "sess_state s' = sess_state s" using seal_frame_shape(1) [of d s ty m]
    by (metis Session.select_convs(3) Session.surjective Session.update_convs(8))
  moreover have "session_floor s' = session_floor s"
    using seal_frame_shape(2) [of d s ty m] send by (intro session_floor_rx) simp
  ultimately show ?thesis using assms(2) by simp
next
  case (pause p)
  then show ?thesis using assms(2) by (simp add: Session_set_paused_def session_floor_def)
qed

lemma moves_floor:
  assumes "(session_move d)\<^sup>*\<^sup>* s s'" "sess_state s = Established" "n \<le> session_floor s"
  shows "sess_state s' = Closed \<or> sess_state s' = Established \<and> n \<le> session_floor s'"
  using assms(1) by (induction rule: rtranclp_induct) (use assms(2,3) move_floor in blast)+

text \<open>Two established ends, for the examples.\<close>

definition demo_phone_end :: Session where
  "demo_phone_end =
     (phone_waiting (demo_id 1) (peer_key_of demo_deps (demo_id 2)) 0
        (EphemeralKeypair_from_seed demo_deps []))
       \<lparr> channel := Some (AeadChannel_new [1] [2]), sess_state := Established \<rparr>"

definition demo_pc_end :: Session where
  "demo_pc_end =
     (Session_new_pc (demo_id 2) [peer_key_of demo_deps (demo_id 1)] 0)
       \<lparr> channel := Some (AeadChannel_new [2] [1]),
         sess_peer := Some (peer_key_of demo_deps (demo_id 1)), sess_state := Established \<rparr>"

lemma demo_paired: "paired_sessions demo_deps demo_phone_end demo_pc_end"
  by (simp add: paired_sessions_def demo_phone_end_def demo_pc_end_def linked_fresh deps_okD [OF demo_deps_ok])

lemma demo_room: "has_room demo_phone_end" "has_room demo_pc_end"
  by (simp_all add: has_room_def demo_phone_end_def demo_pc_end_def AeadChannel_new_def)

lemma demo_ends: "\<not> paused demo_pc_end" "session_inv demo_pc_end" "sess_state demo_pc_end = Established"
  by (simp_all add: demo_pc_end_def session_inv_def Session_new_pc_def)

text \<open>A clip pushed over paired ends, from one end to the other and back.\<close>

lemma clip_ends:
  assumes d: "deps_ok d" and p: "paired_sessions d ph pc" and np: "\<not> paused pc"
    and room: "has_room ph" "has_room pc" and i: "length clip_id = 8"
    and body: "length body \<le> MAX_TEXT_CLIP"
    and name: "valid_str name" "str_len name \<le> MAX_TEXT_CLIP"
  shows "\<exists>ph1 push pc1 ack ph2.
    Session_push_clip d ph ct body name t (Some clip_id) = (ph1, Inr (push, clip_id)) \<and>
    frame_fits push \<and>
    Session_on_frame d pc push t2 r2 =
      (pc1, [Emit (ClipArrived clip_id ct body name t), Send ack]) \<and>
    frame_fits ack \<and>
    Session_on_frame d ph1 ack t3 r3 = (ph2, [Emit (ClipAcked clip_id 0)]) \<and>
    paired_sessions d ph2 pc1 \<and> frame_ty ack = ClipAck \<and> exchanged ph pc ph2 pc1"
proof -
  obtain m where m: "MapBuilder_to_vec d (build_map
      [MapBuilder_bytes (key CLIP_ID) clip_id,
       MapBuilder_u64 (key CONTENT_TYPE) (ucast (ContentType_as_u8 ct)),
       MapBuilder_bytes (key BODY) body, MapBuilder_u64 (key CREATED_AT) t,
       MapBuilder_text (key SOURCE_NAME) name]) = Inr m"
    "MapReader_from_slice d m = Inr (field_map (push_fields clip_id ct body t name))"
    "length m \<le> 524500"
    by (rule push_payload [OF d i body name])
  obtain k where k: "MapBuilder_to_vec d (build_map
      [MapBuilder_bytes (key ACK_CLIP_ID) clip_id, MapBuilder_u64 (key ACK_STATUS) 0]) = Inr k"
    "MapReader_from_slice d k = Inr (field_map (clip_ack_fields clip_id 0))" "length k \<le> 100"
    by (rule clip_ack_payload [OF d i])
  have enc: "FrameType_is_encrypted ClipPush" "FrameType_is_encrypted ClipAck"
    and len: "length m \<le> 1000000" "length k \<le> 1000000" using m(3) k(3) by simp_all
  obtain ph1 push pc' pc1 ack ph2 where x: "Session_seal_frame d ph ClipPush m = (ph1, Inr push)"
    "frame_fits push" "Session_on_frame d pc push t2 r2 = dispatch d ClipPush pc' m"
    "paused pc' = paused pc" "Session_seal_frame d pc' ClipAck k = (pc1, Inr ack)"
    "frame_fits ack" "Session_on_frame d ph1 ack t3 r3 = dispatch d ClipAck ph2 k"
    "paired_sessions d ph2 pc1" "frame_ty ack = ClipAck" "exchanged ph pc ph2 pc1"
    by (rule request_reply [OF d p room enc len])
  have push: "Session_push_clip d ph ct body name t (Some clip_id) = (ph1, Inr (push, clip_id))"
    using body m(1) x(1) by (simp add: Session_push_clip_def Session_push_clip_with_id_def not_less)
  have arrived: "Session_on_frame d pc push t2 r2 =
      (pc1, [Emit (ClipArrived clip_id ct body name t), Send ack])"
    using np body k(1) x(3,4,5)
    by (simp add: dispatch_def on_clip_push_read [OF m(2) i] del: key.simps)
  have acked: "Session_on_frame d ph1 ack t3 r3 = (ph2, [Emit (ClipAcked clip_id 0)])"
    using x(7) by (simp add: dispatch_def on_clip_ack_read [OF k(2) i])
  show ?thesis using push arrived acked x(2,6,8-10) by blast
qed

text \<open>Pulling the list and one clip, over paired ends.\<close>

lemma list_ends:
  assumes d: "deps_ok d" and p: "paired_sessions d ph pc" and room: "has_room ph" "has_room pc"
    and r: "ring_inv r" "ring_depth r \<le> 1024" "\<forall>c \<in> set (ring_items r). length (sc_stage_id c) = 8"
  shows "\<exists>ph1 req pc1 pc2 reply ph2.
    Session_request_stage_list d ph = (ph1, Inr req) \<and> frame_fits req \<and>
    Session_on_frame d pc req t1 r1 = (pc1, [Emit StageListRequested]) \<and>
    Session_send_stage_list d pc1 (StageRing_list r) = (pc2, Inr reply) \<and> frame_fits reply \<and>
    Session_on_frame d ph1 reply t2 r2 = (ph2, [Emit (EvStageList (StageRing_list r))]) \<and>
    paired_sessions d ph2 pc2 \<and> frame_ty reply = StageList \<and> exchanged ph pc ph2 pc2"
proof -
  obtain q where q: "MapBuilder_to_vec d (build_map []) = Inr q" "length q \<le> 100"
    by (rule empty_payload [OF d])
  have metas: "list_all meta_wire_ok (StageRing_list r)" "length (StageRing_list r) \<le> 1024"
    using ring_metas_ok [OF r(3)] r(1,2) by (simp_all add: StageRing_list_def ring_inv_def)
  obtain m where m: "MapBuilder_to_vec d (build_map
      [MapBuilder_array (key STAGE_ITEMS) (map stage_entry (StageRing_list r))]) = Inr m"
    "MapReader_from_slice d m = Inr (field_map [(key STAGE_ITEMS, VArray (map stage_entry (StageRing_list r)))])"
    "length m \<le> 620000"
    by (rule list_payload [OF d metas])
  have enc: "FrameType_is_encrypted StageListReq" "FrameType_is_encrypted StageList"
    and len: "length q \<le> 1000000" "length m \<le> 1000000" using q m by simp_all
  obtain ph1 req pc1 pc2 reply ph2 where x: "Session_seal_frame d ph StageListReq q = (ph1, Inr req)"
    "frame_fits req" "Session_on_frame d pc req t1 r1 = dispatch d StageListReq pc1 q"
    "paused pc1 = paused pc" "Session_seal_frame d pc1 StageList m = (pc2, Inr reply)"
    "frame_fits reply" "Session_on_frame d ph1 reply t2 r2 = dispatch d StageList ph2 m"
    "paired_sessions d ph2 pc2" "frame_ty reply = StageList" "exchanged ph pc ph2 pc2"
    by (rule request_reply [OF d p room enc len])
  have "Session_request_stage_list d ph = (ph1, Inr req)"
    "Session_send_stage_list d pc1 (StageRing_list r) = (pc2, Inr reply)"
    using q(1) m(1) x(1,5)
    by (simp_all add: Session_request_stage_list_def Session_send_stage_list_def del: key.simps)
  moreover have "Session_on_frame d ph1 reply t2 r2 = (ph2, [Emit (EvStageList (StageRing_list r))])"
    using x(7) by (simp add: dispatch_def on_stage_list_read [OF m(2) metas(1)])
  ultimately show ?thesis using x(2,3,6,8-10) by (auto simp: dispatch_def)
qed

lemma item_ends:
  assumes d: "deps_ok d" and p: "paired_sessions d ph pc" and room: "has_room ph" "has_room pc"
    and r: "ring_inv r" "StageRing_get r i = Some c" "length i = 8"
  shows "\<exists>ph1 req pc1 pc2 reply ph2.
    Session_request_stage_item d ph i = (ph1, Inr req) \<and> frame_fits req \<and>
    Session_on_frame d pc req t1 r1 = (pc1, [Emit (StageItemRequested i)]) \<and>
    Session_send_stage_item d pc1 c = (pc2, Inr reply) \<and> frame_fits reply \<and>
    Session_on_frame d ph1 reply t2 r2 = (ph2, [Emit (EvStageItem i (sc_content_type c) (sc_body c))]) \<and>
    paired_sessions d ph2 pc2 \<and> frame_ty reply = StageItem \<and> exchanged ph pc ph2 pc2"
proof -
  have c: "sc_stage_id c = i" "length (sc_body c) \<le> MAX_TEXT_CLIP"
    using get_in [OF r(2)] r(1) by (auto simp: ring_inv_def)
  obtain q where q: "MapBuilder_to_vec d (build_map [MapBuilder_bytes (key STAGE_ID) i]) = Inr q"
    "\<forall>s. on_stage_get d s q = (s, [Emit (StageItemRequested i)])" "length q \<le> 100"
    by (rule get_payload [OF d r(3)])
  obtain m where m: "MapBuilder_to_vec d (build_map
      [MapBuilder_bytes (key ITEM_ID) i,
       MapBuilder_u64 (key ITEM_TYPE) (ucast (ContentType_as_u8 (sc_content_type c))),
       MapBuilder_bytes (key ITEM_BODY) (sc_body c)]) = Inr m"
    "MapReader_from_slice d m = Inr (field_map (item_fields i (sc_content_type c) (sc_body c)))"
    "length m \<le> 262400"
    by (rule item_payload [OF d r(3) c(2)])
  have enc: "FrameType_is_encrypted StageGet" "FrameType_is_encrypted StageItem"
    and len: "length q \<le> 1000000" "length m \<le> 1000000" using q m by simp_all
  obtain ph1 req pc1 pc2 reply ph2 where x: "Session_seal_frame d ph StageGet q = (ph1, Inr req)"
    "frame_fits req" "Session_on_frame d pc req t1 r1 = dispatch d StageGet pc1 q"
    "paused pc1 = paused pc" "Session_seal_frame d pc1 StageItem m = (pc2, Inr reply)"
    "frame_fits reply" "Session_on_frame d ph1 reply t2 r2 = dispatch d StageItem ph2 m"
    "paired_sessions d ph2 pc2" "frame_ty reply = StageItem" "exchanged ph pc ph2 pc2"
    by (rule request_reply [OF d p room enc len])
  have "Session_request_stage_item d ph i = (ph1, Inr req)"
    "Session_send_stage_item d pc1 c = (pc2, Inr reply)"
    using q(1) m(1) x(1,5) c(1)
    by (simp_all add: Session_request_stage_item_def Session_send_stage_item_def del: key.simps)
  moreover have "Session_on_frame d pc req t1 r1 = (pc1, [Emit (StageItemRequested i)])"
    "Session_on_frame d ph1 reply t2 r2 = (ph2, [Emit (EvStageItem i (sc_content_type c) (sc_body c))])"
    using x(3,7) q(2) by (simp_all add: dispatch_def on_stage_item_read [OF m(2) r(3)])
  ultimately show ?thesis using x(2,6,8-10) by blast
qed

text \<open>Asking for a clip that is no longer staged: the PC answers with an empty list.\<close>

lemma evicted_ends:
  assumes d: "deps_ok d" and p: "paired_sessions d ph pc" and room: "has_room ph" "has_room pc"
    and i: "length i = 8"
  shows "\<exists>ph1 req pc1 pc2 reply ph2.
    Session_request_stage_item d ph i = (ph1, Inr req) \<and> frame_fits req \<and>
    Session_on_frame d pc req t1 r1 = (pc1, [Emit (StageItemRequested i)]) \<and>
    Session_send_stage_list d pc1 [] = (pc2, Inr reply) \<and> frame_fits reply \<and>
    Session_on_frame d ph1 reply t2 r2 = (ph2, [Emit (EvStageList [])]) \<and>
    paired_sessions d ph2 pc2 \<and> frame_ty reply = StageList \<and> exchanged ph pc ph2 pc2"
proof -
  obtain q where q: "MapBuilder_to_vec d (build_map [MapBuilder_bytes (key STAGE_ID) i]) = Inr q"
    "\<forall>s. on_stage_get d s q = (s, [Emit (StageItemRequested i)])" "length q \<le> 100"
    by (rule get_payload [OF d i])
  have e: "list_all meta_wire_ok []" "length ([] :: StageMeta list) \<le> 1024" by simp_all
  obtain m where m: "MapBuilder_to_vec d (build_map
      [MapBuilder_array (key STAGE_ITEMS) (map stage_entry [])]) = Inr m"
    "MapReader_from_slice d m = Inr (field_map [(key STAGE_ITEMS, VArray (map stage_entry []))])"
    "length m \<le> 620000"
    by (rule list_payload [OF d e])
  have enc: "FrameType_is_encrypted StageGet" "FrameType_is_encrypted StageList"
    and len: "length q \<le> 1000000" "length m \<le> 1000000" using q m by simp_all
  obtain ph1 req pc1 pc2 reply ph2 where x: "Session_seal_frame d ph StageGet q = (ph1, Inr req)"
    "frame_fits req" "Session_on_frame d pc req t1 r1 = dispatch d StageGet pc1 q"
    "paused pc1 = paused pc" "Session_seal_frame d pc1 StageList m = (pc2, Inr reply)"
    "frame_fits reply" "Session_on_frame d ph1 reply t2 r2 = dispatch d StageList ph2 m"
    "paired_sessions d ph2 pc2" "frame_ty reply = StageList" "exchanged ph pc ph2 pc2"
    by (rule request_reply [OF d p room enc len])
  have "Session_request_stage_item d ph i = (ph1, Inr req)"
    "Session_send_stage_list d pc1 [] = (pc2, Inr reply)"
    using q(1) m(1) x(1,5)
    by (simp_all add: Session_request_stage_item_def Session_send_stage_list_def del: key.simps)
  moreover have "Session_on_frame d pc req t1 r1 = (pc1, [Emit (StageItemRequested i)])"
    "Session_on_frame d ph1 reply t2 r2 = (ph2, [Emit (EvStageList [])])"
    using x(3,7) q(2) on_stage_list_read [OF m(2) e(1)] by (simp_all add: dispatch_def)
  ultimately show ?thesis using x(2,6,8-10) by blast
qed

text \<open>The ends a handshake leaves can be used.\<close>

lemma fresh_sent: "fresh_channel s \<Longrightarrow> sent s = 0"
  by (auto simp: fresh_channel_def sent_def)

lemma fresh_has_room: "fresh_channel s \<Longrightarrow> has_room s"
  by (auto simp: fresh_channel_def has_room_def)

lemma paired_set_paused [simp]:
  "paired_sessions d a (Session_set_paused b p) \<longleftrightarrow> paired_sessions d a b"
  "has_room (Session_set_paused b p) \<longleftrightarrow> has_room b"
  "sent (Session_set_paused b p) = sent b"
  by (simp_all add: paired_sessions_def has_room_def sent_def Session_set_paused_def)

section \<open>Properties\<close>

text \<open>
  C7: A clip arrives exactly as sent, once, and is acknowledged. Between established, mirrored
  ends with the PC not paused, pushing a clip within the size cap produces a frame that fits
  the wire; the PC reports a clip with the same identifier, type, body, source name and time,
  and answers with an acknowledgement that fits the wire too; the phone reads it as success
  for that identifier; afterwards the ends are still established and mirrored.
\<close>

theorem clip_delivered_and_acknowledged:
  assumes d: "deps_ok d" and p: "paired_sessions d ph pc" and np: "\<not> paused pc"
    and room: "has_room ph" "has_room pc" and i: "length clip_id = 8"
    and body: "length body \<le> MAX_TEXT_CLIP"
    and name: "valid_str name" "str_len name \<le> MAX_TEXT_CLIP"
  shows "\<exists>ph1 push pc1 ack ph2.
    Session_push_clip d ph ct body name t (Some clip_id) = (ph1, Inr (push, clip_id)) \<and>
    frame_fits push \<and>
    Session_on_frame d pc push t2 r2 =
      (pc1, [Emit (ClipArrived clip_id ct body name t), Send ack]) \<and>
    frame_fits ack \<and>
    Session_on_frame d ph1 ack t3 r3 = (ph2, [Emit (ClipAcked clip_id 0)]) \<and>
    paired_sessions d ph2 pc1"
  using clip_ends [OF assms] by metis

theorem clip_delivered_and_acknowledged_witness:
  "\<exists>ph1 push pc1 ack ph2.
    Session_push_clip demo_deps demo_phone_end Text [72, 105] (lit ''iPhone'') 7 (Some (replicate 8 9)) =
      (ph1, Inr (push, replicate 8 9)) \<and> frame_fits push \<and>
    Session_on_frame demo_deps demo_pc_end push 8 None =
      (pc1, [Emit (ClipArrived (replicate 8 9) Text [72, 105] (lit ''iPhone'') 7), Send ack]) \<and>
    frame_fits ack \<and>
    Session_on_frame demo_deps ph1 ack 9 None = (ph2, [Emit (ClipAcked (replicate 8 9) 0)]) \<and>
    paired_sessions demo_deps ph2 pc1"
  by (rule clip_delivered_and_acknowledged [OF demo_deps_ok demo_paired demo_ends(1) demo_room])
    (simp_all add: MAX_TEXT_CLIP_def valid_str_def valid_char_def lit_def str_len_def as_bytes_def
      utf8_char_def)

text \<open>
  The staged list reaches the phone. The phone's request makes the PC report it; the reply
  built from the PC's ring (within its invariant, identifiers of eight bytes) fits the wire, and
  the phone reports exactly the ring's metadata in the ring's order.
\<close>

theorem staged_list_pulled:
  assumes d: "deps_ok d" and p: "paired_sessions d ph pc" and room: "has_room ph" "has_room pc"
    and r: "ring_inv r" "ring_depth r \<le> 1024" "\<forall>c \<in> set (ring_items r). length (sc_stage_id c) = 8"
  shows "\<exists>ph1 req pc1 pc2 reply ph2.
    Session_request_stage_list d ph = (ph1, Inr req) \<and> frame_fits req \<and>
    Session_on_frame d pc req t1 r1 = (pc1, [Emit StageListRequested]) \<and>
    Session_send_stage_list d pc1 (StageRing_list r) = (pc2, Inr reply) \<and> frame_fits reply \<and>
    Session_on_frame d ph1 reply t2 r2 = (ph2, [Emit (EvStageList (StageRing_list r))]) \<and>
    paired_sessions d ph2 pc2"
  using list_ends [OF assms] by metis

definition demo_ring :: StageRing where
  "demo_ring = push_clip_attempt (push_clip_attempt (StageRing_new 5) (demo_clip 1)) (demo_clip 2)"

lemma demo_ring_facts:
  "ring_inv demo_ring" "ring_depth demo_ring \<le> 1024"
  "\<forall>c \<in> set (ring_items demo_ring). length (sc_stage_id c) = 8"
  "StageRing_get demo_ring (replicate 8 2) = Some (demo_clip 2)"
  by (simp_all add: demo_ring_def push_clip_attempt_def StageRing_push_with_id_def StageRing_new_def
      demo_clip_def ring_inv_def MAX_TEXT_CLIP_def StageRing_get_def replicate_eq_replicate)

theorem staged_list_pulled_witness:
  "\<exists>ph1 req pc1 pc2 reply ph2.
    Session_request_stage_list demo_deps demo_phone_end = (ph1, Inr req) \<and> frame_fits req \<and>
    Session_on_frame demo_deps demo_pc_end req 1 None = (pc1, [Emit StageListRequested]) \<and>
    Session_send_stage_list demo_deps pc1 (StageRing_list demo_ring) = (pc2, Inr reply) \<and> frame_fits reply \<and>
    Session_on_frame demo_deps ph1 reply 2 None = (ph2, [Emit (EvStageList (StageRing_list demo_ring))]) \<and>
    paired_sessions demo_deps ph2 pc2"
  by (rule staged_list_pulled [OF demo_deps_ok demo_paired demo_room demo_ring_facts(1,2,3)])

text \<open>
  A staged clip reaches the phone. Requesting the identifier of a staged clip makes the PC
  report that identifier; the reply built from the clip the ring holds under it fits the wire,
  and the phone reports that clip's identifier, type and body.
\<close>

theorem staged_item_pulled:
  assumes d: "deps_ok d" and p: "paired_sessions d ph pc" and room: "has_room ph" "has_room pc"
    and r: "ring_inv r" "StageRing_get r i = Some c" "length i = 8"
  shows "\<exists>ph1 req pc1 pc2 reply ph2.
    Session_request_stage_item d ph i = (ph1, Inr req) \<and> frame_fits req \<and>
    Session_on_frame d pc req t1 r1 = (pc1, [Emit (StageItemRequested i)]) \<and>
    Session_send_stage_item d pc1 c = (pc2, Inr reply) \<and> frame_fits reply \<and>
    Session_on_frame d ph1 reply t2 r2 = (ph2, [Emit (EvStageItem i (sc_content_type c) (sc_body c))]) \<and>
    paired_sessions d ph2 pc2"
  using item_ends [OF assms] by metis

theorem staged_item_pulled_witness:
  "\<exists>ph1 req pc1 pc2 reply ph2.
    Session_request_stage_item demo_deps demo_phone_end (replicate 8 2) = (ph1, Inr req) \<and> frame_fits req \<and>
    Session_on_frame demo_deps demo_pc_end req 1 None = (pc1, [Emit (StageItemRequested (replicate 8 2))]) \<and>
    Session_send_stage_item demo_deps pc1 (demo_clip 2) = (pc2, Inr reply) \<and> frame_fits reply \<and>
    Session_on_frame demo_deps ph1 reply 2 None =
      (ph2, [Emit (EvStageItem (replicate 8 2) (sc_content_type (demo_clip 2)) (sc_body (demo_clip 2)))]) \<and>
    paired_sessions demo_deps ph2 pc2"
  by (rule staged_item_pulled [OF demo_deps_ok demo_paired demo_room demo_ring_facts(1,4)]) simp

text \<open>
  C29: A paused PC refuses clips with the protocol's error. Pushing to a paused PC makes it send
  one error frame and close without reporting a clip; the phone reads the error as code 5 with
  its message and closes too.
\<close>

theorem paused_pc_refuses_clip:
  assumes d: "deps_ok d" and p: "paired_sessions d ph pc" and pz: "paused pc"
    and room: "has_room ph" "has_room pc" and i: "length clip_id = 8"
    and body: "length body \<le> MAX_TEXT_CLIP"
    and name: "valid_str name" "str_len name \<le> MAX_TEXT_CLIP"
  shows "\<exists>ph1 push pc1 err ph2.
    Session_push_clip d ph ct body name t (Some clip_id) = (ph1, Inr (push, clip_id)) \<and>
    Session_on_frame d pc push t2 r2 = (pc1, [Send err, Close ''beaming paused'']) \<and>
    frame_fits err \<and> sess_state pc1 = Closed \<and>
    Session_on_frame d ph1 err t3 r3 =
      (ph2, [Emit (PeerError 5 (lit ''beaming paused'')), Close ''peer sent ERROR'']) \<and>
    sess_state ph2 = Closed"
proof -
  obtain m where m: "MapBuilder_to_vec d (build_map
      [MapBuilder_bytes (key CLIP_ID) clip_id,
       MapBuilder_u64 (key CONTENT_TYPE) (ucast (ContentType_as_u8 ct)),
       MapBuilder_bytes (key BODY) body, MapBuilder_u64 (key CREATED_AT) t,
       MapBuilder_text (key SOURCE_NAME) name]) = Inr m"
    "MapReader_from_slice d m = Inr (field_map (push_fields clip_id ct body t name))"
    "length m \<le> 524500"
    by (rule push_payload [OF d i body name])
  have msg: "valid_str (lit ''beaming paused'')" "str_len (lit ''beaming paused'') \<le> 1000"
    by (simp_all add: valid_str_def valid_char_def lit_def str_len_def as_bytes_def utf8_char_def)
  obtain k where k: "MapBuilder_to_vec d (build_map
      [MapBuilder_u64 (key ERR_CODE) (ucast (WireErrorCode_as_u16 RateLimited)),
       MapBuilder_text (key ERR_MSG) (lit ''beaming paused'')]) = Inr k"
    "\<forall>s. on_error d s k = (s\<lparr> sess_state := Closed \<rparr>,
       [Emit (PeerError (WireErrorCode_as_u16 RateLimited) (lit ''beaming paused'')), Close ''peer sent ERROR''])"
    "length k \<le> 2000"
    by (rule error_payload [OF d msg])
  have enc: "FrameType_is_encrypted ClipPush" "FrameType_is_encrypted ErrorFrame"
    and len: "length m \<le> 1000000" "length k \<le> 1000000" using m(3) k(3) by simp_all
  obtain ph1 push pc' pc1 err ph2 where x: "Session_seal_frame d ph ClipPush m = (ph1, Inr push)"
    "frame_fits push" "Session_on_frame d pc push t2 r2 = dispatch d ClipPush pc' m"
    "paused pc' = paused pc" "Session_seal_frame d pc' ErrorFrame k = (pc1, Inr err)"
    "frame_fits err" "Session_on_frame d ph1 err t3 r3 = dispatch d ErrorFrame ph2 k"
    "paired_sessions d ph2 pc1"
    by (rule request_reply [OF d p room enc len])
  have "Session_push_clip d ph ct body name t (Some clip_id) = (ph1, Inr (push, clip_id))"
    using body m(1) x(1) by (simp add: Session_push_clip_def Session_push_clip_with_id_def not_less)
  moreover have "Session_on_frame d pc push t2 r2 =
      (pc1\<lparr> sess_state := Closed \<rparr>, [Send err, Close ''beaming paused''])"
    using x(3,4) pz wire_error_sealed [OF k(1) x(5)]
    by (simp add: dispatch_def on_clip_push_read [OF m(2) i])
  moreover have "Session_on_frame d ph1 err t3 r3 = (ph2\<lparr> sess_state := Closed \<rparr>,
      [Emit (PeerError 5 (lit ''beaming paused'')), Close ''peer sent ERROR''])"
    using x(7) k(2) by (simp add: dispatch_def)
  ultimately show ?thesis using x(6) by auto
qed

theorem paused_pc_refuses_clip_witness:
  "\<exists>ph1 push pc1 err ph2.
    Session_push_clip demo_deps demo_phone_end Url [72, 105] (lit ''iPhone'') 7 (Some (replicate 8 9)) =
      (ph1, Inr (push, replicate 8 9)) \<and>
    Session_on_frame demo_deps (Session_set_paused demo_pc_end True) push 8 None =
      (pc1, [Send err, Close ''beaming paused'']) \<and>
    frame_fits err \<and> sess_state pc1 = Closed \<and>
    Session_on_frame demo_deps ph1 err 9 None =
      (ph2, [Emit (PeerError 5 (lit ''beaming paused'')), Close ''peer sent ERROR'']) \<and>
    sess_state ph2 = Closed"
proof (rule paused_pc_refuses_clip [OF demo_deps_ok])
  show "paired_sessions demo_deps demo_phone_end (Session_set_paused demo_pc_end True)"
    using demo_paired by (simp add: paired_sessions_def Session_set_paused_def)
  show "has_room (Session_set_paused demo_pc_end True)"
    using demo_room(2) by (simp add: has_room_def Session_set_paused_def)
qed (simp_all add: Session_set_paused_def MAX_TEXT_CLIP_def valid_str_def valid_char_def lit_def
    str_len_def as_bytes_def utf8_char_def demo_room(1))

text \<open>
  C21: Every reported clip was checked. Whatever frame a session in a good state receives, with
  no assumption on the ciphers or the encoding: if it reports a clip, then the session was
  established and not paused, the frame is a CLIP_PUSH that the channel authenticated, the
  identifier is eight bytes, the body is within the cap, and exactly one acknowledgement
  follows the report.
\<close>

theorem reported_clip_was_checked:
  assumes "session_inv s" "Session_on_frame d s f now rnd = (s', acts)"
    and "Emit (ClipArrived i ct body name t) \<in> set acts"
  shows "sess_state s = Established \<and> \<not> paused s \<and> frame_ty f = ClipPush \<and>
    (\<exists>ch ch' m. channel s = Some ch \<and> AeadChannel_open d ch ClipPush (frame_payload f) = (ch', Inr m)) \<and>
    length i = 8 \<and> length body \<le> MAX_TEXT_CLIP \<and>
    (\<exists>ack. acts = [Emit (ClipArrived i ct body name t), Send ack] \<and> frame_ty ack = ClipAck)"
proof -
  have "list_ex is_arrival (snd (Session_on_frame d s f now rnd))"
    using assms(2,3) unfolding list_ex_iff is_arrival_def snd_conv by (simp, blast)
  then obtain ch ch' m where c: "sess_state s = Established" "channel s = Some ch" "frame_ty f = ClipPush"
    "AeadChannel_open d ch ClipPush (frame_payload f) = (ch', Inr m)"
    "Session_on_frame d s f now rnd = on_clip_push d (s\<lparr> last_activity_ms := now, channel := Some ch' \<rparr>) m"
    using only_clip_push_arrives [OF _ assms(1)] by metis
  have "acts = snd (on_clip_push d (s\<lparr> last_activity_ms := now, channel := Some ch' \<rparr>) m)"
    using c(5) assms(2) by (metis snd_conv)
  then show ?thesis
    using arrival_checked [of i ct body name t d _ m] assms(3) c by fastforce
qed

text \<open>
  C13: A processed frame is never processed again. Once an established session has handled a
  frame and stayed open, then after any further traffic in either direction and any pausing,
  the same frame makes it close and do nothing else.
\<close>

theorem replayed_frame_only_closes:
  assumes "sess_state s = Established" "Session_on_frame d s f now rnd = (s1, acts)"
    and "sess_state s1 \<noteq> Closed" "(session_move d)\<^sup>*\<^sup>* s1 s2"
  shows "\<exists>why. snd (Session_on_frame d s2 f now2 rnd2) = [Close why]"
proof -
  have s1: "sess_state s1 = Established" "session_floor s1 = Suc (frame_counter (frame_payload f))"
    using established_step [OF assms(1-3)] by simp_all
  have s2: "sess_state s2 = Closed \<or>
      sess_state s2 = Established \<and> Suc (frame_counter (frame_payload f)) \<le> session_floor s2"
    using moves_floor [OF assms(4) s1(1)] s1(2) by simp
  show ?thesis
  proof (cases rule: on_frame_cases [where d = d and s = s2 and f = f and now = now2 and rnd = rnd2])
    case enc
    let ?s = "s2\<lparr> last_activity_ms := now2 \<rparr>"
    show ?thesis
    proof (cases rule: on_encrypted_cases [where s = ?s and d = d and f = f])
      case (opened ch ch' plain)
      then show ?thesis
        using chan.open_seq [OF opened(2)] s2 enc(1) by (simp add: session_floor_def)
    qed (use enc in auto)
  qed (use s2 in auto)
qed

theorem replayed_frame_only_closes_witness:
  "\<exists>f s1 acts why. Session_on_frame demo_deps demo_pc_end f 1 None = (s1, acts) \<and>
     acts = [Emit StageListRequested] \<and> snd (Session_on_frame demo_deps s1 f 2 None) = [Close why]"
proof -
  have e: "FrameType_is_encrypted StageListReq" "length ([] :: bytes) \<le> 2 ^ 32" by simp_all
  obtain a f b where s: "Session_on_frame demo_deps demo_pc_end f 1 None = dispatch demo_deps StageListReq b []"
    "paired_sessions demo_deps a b"
    by (rule sealed_frame_received [OF demo_deps_ok demo_paired demo_room(1) e])
  then have r: "Session_on_frame demo_deps demo_pc_end f 1 None = (b, [Emit StageListRequested])"
    by (simp add: dispatch_def)
  have "sess_state b \<noteq> Closed" using s(2) by (simp add: paired_sessions_def)
  from replayed_frame_only_closes [OF demo_ends(3) r this rtranclp.rtrancl_refl] r
  show ?thesis by blast
qed

text \<open>
  Idle means sixty seconds without a frame. On the unsigned clock the code uses, a session
  is idle exactly when at least 60000 milliseconds have passed since the last activity, a clock
  that went backwards never makes it idle, and every frame an open session in a good state is
  given sets the last activity to its time.
\<close>

theorem idle_after_sixty_seconds:
  assumes "session_inv s" "sess_state s \<noteq> Closed"
  shows "(Session_is_idle s now \<longleftrightarrow> unat (last_activity_ms s) + 60000 \<le> unat now) \<and>
    last_activity_ms (fst (Session_on_frame d s f t rnd)) = t"
proof -
  have "unat (60000 :: u64) = 60000" by simp
  then have "Session_is_idle s now \<longleftrightarrow> 60000 \<le> unat now - unat (last_activity_ms s)"
    by (simp add: Session_is_idle_def SESSION_IDLE_TIMEOUT_MS_def word_le_nat_alt unat_saturating_sub)
  also have "\<dots> \<longleftrightarrow> unat (last_activity_ms s) + 60000 \<le> unat now" by linarith
  finally show ?thesis
    using on_frame_shape [OF assms, of d f t rnd] by (metis prod.collapse)
qed

theorem idle_after_sixty_seconds_witness:
  "Session_is_idle demo_pc_end 60000 \<and> \<not> Session_is_idle demo_pc_end 59999"
  using idle_after_sixty_seconds [OF demo_ends(2), of 60000]
    idle_after_sixty_seconds [OF demo_ends(2), of 59999]
  by (simp add: demo_ends) (simp add: demo_pc_end_def Session_new_pc_def)

theorem reported_clip_was_checked_witness:
  "\<exists>f s' acts ack. Session_on_frame demo_deps demo_pc_end f 8 None = (s', acts) \<and>
     acts = [Emit (ClipArrived (replicate 8 9) Text [72, 105] (lit ''iPhone'') 7), Send ack] \<and>
     frame_ty f = ClipPush \<and> frame_ty ack = ClipAck"
proof -
  have m: "length (replicate 8 (9 :: byte)) = 8" "length ([72, 105] :: bytes) \<le> MAX_TEXT_CLIP"
    "valid_str (lit ''iPhone'')" "str_len (lit ''iPhone'') \<le> MAX_TEXT_CLIP"
    by (simp_all add: MAX_TEXT_CLIP_def valid_str_def valid_char_def lit_def str_len_def as_bytes_def
        utf8_char_def)
  obtain f s' acts ack where r: "Session_on_frame demo_deps demo_pc_end f 8 None = (s', acts)"
    "acts = [Emit (ClipArrived (replicate 8 9) Text [72, 105] (lit ''iPhone'') 7), Send ack]"
    using clip_ends [OF demo_deps_ok demo_paired demo_ends(1) demo_room m] by blast
  with reported_clip_was_checked [OF demo_ends(2) r(1)] show ?thesis by fastforce
qed

end
