(* ===== verification/Pairing.thy ===== *)
theory Pairing
  imports CborMap Crypto SansIo
begin

text \<open>
  Pairing (\<open>pairing.rs\<close>): the QR payload and its URL form, the persisted record, and the two
  sans-io state machines that compare the short authentication string and exchange the
  confirming MAC. The URL parser, base64 and hex codecs are library parameters; the URL is
  built by hand in the source and so it is here.
\<close>

section \<open>Constants and records\<close>

definition PAIR_TOKEN_TTL_MS :: u64 where "PAIR_TOKEN_TTL_MS = 10 * 60 * 1000"
definition QR_SCHEME :: string where "QR_SCHEME = ''airclip''"

datatype pairing_key =
  PAIR_TOKEN | DEVICE_ID | PK_ID | DISPLAY_NAME | EPH_PK | ACK_EPH_PK | CONFIRM_MAC

fun pkey :: "pairing_key \<Rightarrow> u64" where
  "pkey PAIR_TOKEN = 1"
| "pkey DEVICE_ID = 2"
| "pkey PK_ID = 3"
| "pkey DISPLAY_NAME = 4"
| "pkey EPH_PK = 5"
| "pkey ACK_EPH_PK = 1"
| "pkey CONFIRM_MAC = 1"

record PairingRecord =
  pr_device_id :: rstr
  pr_public_key :: rstr
  pr_display_name :: rstr
  pr_created_at_ms :: u64
  pr_last_seen_ms :: u64

definition PairingRecord_new :: "deps \<Rightarrow> DeviceId \<Rightarrow> bytes \<Rightarrow> rstr \<Rightarrow> u64 \<Rightarrow> PairingRecord" where
  "PairingRecord_new d device_id pk name now_ms =
     \<lparr> pr_device_id = DeviceId_hex device_id, pr_public_key = base64url_encode d pk,
       pr_display_name = name, pr_created_at_ms = now_ms, pr_last_seen_ms = now_ms \<rparr>"

text \<open>\<open>try_into\<close> of a byte vector to a fixed array.\<close>

definition to_array :: "nat \<Rightarrow> bytes \<Rightarrow> string \<Rightarrow> bytes result" where
  "to_array n raw msg = (if length raw = n then Inr raw else Inl (Cbor (lit msg)))"

definition PairingRecord_public_key_bytes :: "deps \<Rightarrow> PairingRecord \<Rightarrow> bytes result" where
  "PairingRecord_public_key_bytes d r =
     try_r (ok_or (base64url_decode d (pr_public_key r))
              (Cbor (lit ''pairing record: bad base64 public key''))) (\<lambda>raw.
       to_array 32 raw ''pairing record: public key must be 32 bytes'')"

definition PairingRecord_device_id_bytes :: "deps \<Rightarrow> PairingRecord \<Rightarrow> DeviceId result" where
  "PairingRecord_device_id_bytes d r =
     try_r (ok_or (hex_decode d (pr_device_id r))
              (Cbor (lit ''pairing record: bad hex device id''))) (\<lambda>raw.
     try_r (to_array 16 raw ''pairing record: device id must be 16 bytes'') (\<lambda>arr.
       Inr (DeviceId arr)))"

section \<open>The QR payload\<close>

record QrPayload =
  qr_version :: u8
  qr_device_id :: DeviceId
  qr_public_key :: bytes
  qr_display_name :: rstr
  qr_hosts :: "rstr list"
  qr_pair_token :: bytes

definition urlencode_byte :: "byte \<Rightarrow> rstr" where
  "urlencode_byte b =
     (if unreserved (unat b) then [unat b] else lit ''%'' @ fmt_02X b)"

definition urlencode :: "rstr \<Rightarrow> rstr" where
  "urlencode s = concat (map urlencode_byte (as_bytes s))"

definition QrPayload_to_url :: "deps \<Rightarrow> QrPayload \<Rightarrow> rstr" where
  "QrPayload_to_url d q =
     lit QR_SCHEME @ lit ''://pair?v='' @ show_nat (unat (qr_version q)) @
     lit ''&id='' @ DeviceId_hex (qr_device_id q) @
     lit ''&pk='' @ base64url_encode d (qr_public_key q) @
     lit ''&nm='' @ urlencode (qr_display_name q) @
     lit ''&hosts='' @ urlencode (join_with 44 (qr_hosts q)) @
     lit ''&tok='' @ base64url_encode d (qr_pair_token q)"

text \<open>The local variables of the parsing loop.\<close>

record qr_fields =
  qf_version :: "u8 option"
  qf_device_id :: "DeviceId option"
  qf_public_key :: "bytes option"
  qf_display_name :: rstr
  qf_hosts :: "rstr list"
  qf_pair_token :: "bytes option"

definition qr_param :: "deps \<Rightarrow> rstr \<Rightarrow> rstr \<Rightarrow> qr_fields \<Rightarrow> qr_fields result" where
  "qr_param d k v st =
     (if k = lit ''v'' then Inr (st\<lparr> qf_version := parse_u8 v \<rparr>)
      else if k = lit ''id'' then
        try_r (ok_or (hex_decode d v) (Cbor (lit ''QR url: bad id hex''))) (\<lambda>raw.
        try_r (to_array 16 raw ''QR url: id must be 16 bytes'') (\<lambda>arr.
          Inr (st\<lparr> qf_device_id := Some (DeviceId arr) \<rparr>)))
      else if k = lit ''pk'' then
        try_r (ok_or (base64url_decode d v) (Cbor (lit ''QR url: bad pk base64''))) (\<lambda>raw.
        try_r (to_array 32 raw ''QR url: pk must be 32 bytes'') (\<lambda>arr.
          Inr (st\<lparr> qf_public_key := Some arr \<rparr>)))
      else if k = lit ''nm'' then Inr (st\<lparr> qf_display_name := v \<rparr>)
      else if k = lit ''hosts'' then
        Inr (st\<lparr> qf_hosts := filter (\<lambda>s. s \<noteq> []) (split_on 44 v) \<rparr>)
      else if k = lit ''tok'' then
        try_r (ok_or (base64url_decode d v) (Cbor (lit ''QR url: bad token base64''))) (\<lambda>raw.
        try_r (to_array 16 raw ''QR url: token must be 16 bytes'') (\<lambda>arr.
          Inr (st\<lparr> qf_pair_token := Some arr \<rparr>)))
      else Inr st)"

fun qr_params :: "deps \<Rightarrow> (rstr \<times> rstr) list \<Rightarrow> qr_fields \<Rightarrow> qr_fields result" where
  "qr_params d [] st = Inr st"
| "qr_params d ((k, v) # kvs) st = try_r (qr_param d k v st) (\<lambda>st'. qr_params d kvs st')"

definition QrPayload_parse :: "deps \<Rightarrow> rstr \<Rightarrow> QrPayload result" where
  "QrPayload_parse d url =
     (case url_parse d url of
        Inl e \<Rightarrow> Inl (Cbor (lit ''bad QR url: '' @ e))
      | Inr u \<Rightarrow>
          if url_scheme u \<noteq> lit QR_SCHEME then Inl (Cbor (lit ''QR url: wrong scheme''))
          else if url_host u \<noteq> Some (lit ''pair'')
          then Inl (Cbor (lit ''QR url: expected airclip://pair''))
          else
            try_r (qr_params d (url_query_pairs u)
                \<lparr> qf_version = None, qf_device_id = None, qf_public_key = None,
                  qf_display_name = [], qf_hosts = [], qf_pair_token = None \<rparr>) (\<lambda>st.
            try_r (ok_or (qf_version st) (Cbor (lit ''QR url: missing v''))) (\<lambda>version.
            if version \<noteq> PROTOCOL_VERSION
            then Inl (Cbor (lit ''QR url: unsupported version '' @ show_nat (unat version)))
            else
            try_r (ok_or (qf_device_id st) (Cbor (lit ''QR url: missing id''))) (\<lambda>device_id.
            try_r (ok_or (qf_public_key st) (Cbor (lit ''QR url: missing pk''))) (\<lambda>public_key.
            try_r (ok_or (qf_pair_token st) (Cbor (lit ''QR url: missing tok''))) (\<lambda>pair_token.
            if device_id_from_pk d public_key \<noteq> device_id
            then Inl (Cbor (lit ''QR url: id does not match pk''))
            else Inr \<lparr> qr_version = version, qr_device_id = device_id, qr_public_key = public_key,
                       qr_display_name = qf_display_name st, qr_hosts = qf_hosts st,
                       qr_pair_token = pair_token \<rparr>))))))"

section \<open>Actions\<close>

datatype PairingAction =
    PSend Frame
  | ShowSas "rstr list"
  | Completed PairingRecord
  | PFailed string

section \<open>The PC side\<close>

datatype PcState = AwaitingReq | AwaitingConfirm | PcDone | PcFailed

record PeerHandshake =
  ph_device_id :: DeviceId
  ph_pk :: bytes
  ph_display_name :: rstr

record PcPairing =
  pcp_identity :: IdentityKeypair
  pcp_display_name :: rstr
  pcp_hosts :: "rstr list"
  pcp_token :: bytes
  pcp_issued_ms :: u64
  pcp_ttl_ms :: u64
  pcp_token_used :: bool
  pcp_state :: PcState
  pcp_eph :: "EphemeralKeypair option"
  pcp_peer :: "PeerHandshake option"
  pcp_sas_input :: "bytes option"

definition PcPairing_with_token ::
  "IdentityKeypair \<Rightarrow> rstr \<Rightarrow> rstr list \<Rightarrow> bytes \<Rightarrow> u64 \<Rightarrow> PcPairing" where
  "PcPairing_with_token identity display_name hosts token now_ms =
     \<lparr> pcp_identity = identity, pcp_display_name = display_name, pcp_hosts = hosts,
       pcp_token = token, pcp_issued_ms = now_ms, pcp_ttl_ms = PAIR_TOKEN_TTL_MS,
       pcp_token_used = False, pcp_state = AwaitingReq, pcp_eph = None, pcp_peer = None,
       pcp_sas_input = None \<rparr>"

definition PcPairing_new ::
  "IdentityKeypair \<Rightarrow> rstr \<Rightarrow> rstr list \<Rightarrow> u64 \<Rightarrow> bytes option \<Rightarrow> PcPairing result" where
  "PcPairing_new identity display_name hosts now_ms rnd =
     try_r (ok_or rnd Crypto) (\<lambda>token.
       Inr \<lparr> pcp_identity = identity, pcp_display_name = display_name, pcp_hosts = hosts,
             pcp_token = token, pcp_issued_ms = now_ms, pcp_ttl_ms = PAIR_TOKEN_TTL_MS,
             pcp_token_used = False, pcp_state = AwaitingReq, pcp_eph = None, pcp_peer = None,
             pcp_sas_input = None \<rparr>)"

definition PcPairing_qr_payload :: "deps \<Rightarrow> PcPairing \<Rightarrow> QrPayload" where
  "PcPairing_qr_payload d p =
     \<lparr> qr_version = PROTOCOL_VERSION,
       qr_device_id = IdentityKeypair_device_id d (pcp_identity p),
       qr_public_key = IdentityKeypair_public_bytes (pcp_identity p),
       qr_display_name = pcp_display_name p, qr_hosts = pcp_hosts p,
       qr_pair_token = pcp_token p \<rparr>"

definition PcPairing_qr_url :: "deps \<Rightarrow> PcPairing \<Rightarrow> rstr" where
  "PcPairing_qr_url d p = QrPayload_to_url d (PcPairing_qr_payload d p)"

definition token_valid :: "PcPairing \<Rightarrow> bytes \<Rightarrow> u64 \<Rightarrow> string option" where
  "token_valid p presented now_ms =
     (if presented \<noteq> pcp_token p then Some ''bad pair token''
      else if pcp_token_used p then Some ''pair token already used''
      else if saturating_sub now_ms (pcp_issued_ms p) > pcp_ttl_ms p
      then Some ''pair token expired''
      else None)"

definition pc_fail :: "PcPairing \<Rightarrow> string \<Rightarrow> PcPairing \<times> PairingAction list" where
  "pc_fail p msg = (p\<lparr> pcp_state := PcFailed \<rparr>, [PFailed msg])"

definition on_pair_req ::
  "deps \<Rightarrow> PcPairing \<Rightarrow> Frame \<Rightarrow> u64 \<Rightarrow> bytes option \<Rightarrow> PcPairing \<times> PairingAction list" where
  "on_pair_req d p frame now_ms rnd =
     (case MapReader_from_slice d (frame_payload frame) of
        Inl e \<Rightarrow> pc_fail p ''malformed PAIR_REQ''
      | Inr r \<Rightarrow>
     (case (ok_r (MapReader_byte_array 16 r (pkey PAIR_TOKEN)),
            ok_r (MapReader_byte_array 16 r (pkey DEVICE_ID)),
            ok_r (MapReader_byte_array 32 r (pkey PK_ID)),
            ok_r (MapReader_byte_array 32 r (pkey EPH_PK))) of
        (Some token, Some peer_id, Some peer_pk, Some eph_pk_i) \<Rightarrow>
          let peer_name = unwrap_or (MapReader_text r (pkey DISPLAY_NAME)) (lit ''iPhone'') in
          (case token_valid p token now_ms of
             Some reason \<Rightarrow> pc_fail p reason
           | None \<Rightarrow>
               if device_id_from_pk d peer_pk \<noteq> DeviceId peer_id
               then pc_fail p ''PAIR_REQ device id does not match public key''
               else
                 let p = p\<lparr> pcp_token_used := True \<rparr> in
                 (case EphemeralKeypair_generate d rnd of
                    Inl e \<Rightarrow> pc_fail p ''ephemeral keygen failed''
                  | Inr eph \<Rightarrow>
                      let ss_eph = EphemeralKeypair_dh d eph eph_pk_i;
                          inp = sas_input ss_eph peer_pk
                                  (IdentityKeypair_public_bytes (pcp_identity p)) (pcp_token p);
                          sas = sas_emoji (sas_digest d inp)
                      in (case MapBuilder_to_vec d (build_map
                              [MapBuilder_bytes (pkey ACK_EPH_PK)
                                 (EphemeralKeypair_public_bytes eph)]) of
                            Inl e \<Rightarrow> pc_fail p ''failed to encode PAIR_ACK''
                          | Inr ack \<Rightarrow>
                              (p\<lparr> pcp_eph := Some eph,
                                  pcp_peer := Some \<lparr> ph_device_id = DeviceId peer_id,
                                    ph_pk = peer_pk, ph_display_name = peer_name \<rparr>,
                                  pcp_sas_input := Some inp,
                                  pcp_state := AwaitingConfirm \<rparr>,
                               [PSend (Frame_new PairAck ack), ShowSas sas]))))
      | _ \<Rightarrow> pc_fail p ''malformed PAIR_REQ fields''))"

definition on_confirm ::
  "deps \<Rightarrow> PcPairing \<Rightarrow> Frame \<Rightarrow> u64 \<Rightarrow> PcPairing \<times> PairingAction list" where
  "on_confirm d p frame now_ms =
     (case MapReader_from_slice d (frame_payload frame) of
        Inl e \<Rightarrow> pc_fail p ''malformed PAIR_CONFIRM''
      | Inr r \<Rightarrow>
     (case MapReader_byte_array 32 r (pkey CONFIRM_MAC) of
        Inl e \<Rightarrow> pc_fail p ''malformed PAIR_CONFIRM mac''
      | Inr mac \<Rightarrow>
     (case (pcp_peer p, pcp_sas_input p) of
        (Some peer, Some inp) \<Rightarrow>
          let k = IdentityKeypair_dh d (pcp_identity p) (ph_pk peer) in
          if \<not> verify_mac d k inp mac then pc_fail p ''PAIR_CONFIRM mac mismatch''
          else
            (p\<lparr> pcp_state := PcDone \<rparr>,
             [Completed (PairingRecord_new d (ph_device_id peer) (ph_pk peer)
                           (ph_display_name peer) now_ms)])
      | _ \<Rightarrow> pc_fail p ''confirm without request'')))"

definition PcPairing_on_frame ::
  "deps \<Rightarrow> PcPairing \<Rightarrow> Frame \<Rightarrow> u64 \<Rightarrow> bytes option \<Rightarrow> PcPairing \<times> PairingAction list" where
  "PcPairing_on_frame d p frame now_ms rnd =
     (case (pcp_state p, frame_ty frame) of
        (AwaitingReq, PairReq) \<Rightarrow> on_pair_req d p frame now_ms rnd
      | (AwaitingConfirm, PairConfirm) \<Rightarrow> on_confirm d p frame now_ms
      | _ \<Rightarrow> (p\<lparr> pcp_state := PcFailed \<rparr>, [PFailed ''unexpected frame for pairing state'']))"

definition PcPairing_is_done :: "PcPairing \<Rightarrow> bool" where
  "PcPairing_is_done p \<longleftrightarrow> pcp_state p = PcDone"

section \<open>The phone side\<close>

datatype PhoneState = AwaitingAck | AwaitingUserConfirm | PhoneDone | PhoneFailed

record PhonePairing =
  php_identity :: IdentityKeypair
  php_display_name :: rstr
  php_qr :: QrPayload
  php_eph :: EphemeralKeypair
  php_state :: PhoneState
  php_sas_input :: "bytes option"

definition PhonePairing_start_with_ephemeral ::
  "deps \<Rightarrow> IdentityKeypair \<Rightarrow> rstr \<Rightarrow> QrPayload \<Rightarrow> EphemeralKeypair \<Rightarrow> (PhonePairing \<times> Frame) result" where
  "PhonePairing_start_with_ephemeral d identity display_name qr eph =
     try_r (MapBuilder_to_vec d (build_map
         [MapBuilder_bytes (pkey PAIR_TOKEN) (qr_pair_token qr),
          MapBuilder_bytes (pkey DEVICE_ID) (device_bytes (IdentityKeypair_device_id d identity)),
          MapBuilder_bytes (pkey PK_ID) (IdentityKeypair_public_bytes identity),
          MapBuilder_text (pkey DISPLAY_NAME) display_name,
          MapBuilder_bytes (pkey EPH_PK) (EphemeralKeypair_public_bytes eph)])) (\<lambda>payload.
       Inr (\<lparr> php_identity = identity, php_display_name = display_name, php_qr = qr,
              php_eph = eph, php_state = AwaitingAck, php_sas_input = None \<rparr>,
            Frame_new PairReq payload))"

definition PhonePairing_start ::
  "deps \<Rightarrow> IdentityKeypair \<Rightarrow> rstr \<Rightarrow> QrPayload \<Rightarrow> bytes option \<Rightarrow> (PhonePairing \<times> Frame) result" where
  "PhonePairing_start d identity display_name qr rnd =
     try_r (EphemeralKeypair_generate d rnd) (\<lambda>eph.
       PhonePairing_start_with_ephemeral d identity display_name qr eph)"

definition phone_fail :: "PhonePairing \<Rightarrow> string \<Rightarrow> PhonePairing \<times> PairingAction list" where
  "phone_fail p msg = (p\<lparr> php_state := PhoneFailed \<rparr>, [PFailed msg])"

definition on_ack :: "deps \<Rightarrow> PhonePairing \<Rightarrow> Frame \<Rightarrow> PhonePairing \<times> PairingAction list" where
  "on_ack d p frame =
     (case MapReader_from_slice d (frame_payload frame) of
        Inl e \<Rightarrow> phone_fail p ''malformed PAIR_ACK''
      | Inr r \<Rightarrow>
     (case MapReader_byte_array 32 r (pkey ACK_EPH_PK) of
        Inl e \<Rightarrow> phone_fail p ''malformed PAIR_ACK ephemeral key''
      | Inr eph_pk_r \<Rightarrow>
          let ss_eph = EphemeralKeypair_dh d (php_eph p) eph_pk_r;
              inp = sas_input ss_eph (IdentityKeypair_public_bytes (php_identity p))
                      (qr_public_key (php_qr p)) (qr_pair_token (php_qr p));
              sas = sas_emoji (sas_digest d inp)
          in (p\<lparr> php_sas_input := Some inp, php_state := AwaitingUserConfirm \<rparr>, [ShowSas sas])))"

definition PhonePairing_on_frame :: "deps \<Rightarrow> PhonePairing \<Rightarrow> Frame \<Rightarrow> PhonePairing \<times> PairingAction list" where
  "PhonePairing_on_frame d p frame =
     (case (php_state p, frame_ty frame) of
        (AwaitingAck, PairAck) \<Rightarrow> on_ack d p frame
      | _ \<Rightarrow> (p\<lparr> php_state := PhoneFailed \<rparr>, [PFailed ''unexpected frame for pairing state'']))"

definition confirm_sas :: "deps \<Rightarrow> PhonePairing \<Rightarrow> u64 \<Rightarrow> PhonePairing \<times> PairingAction list" where
  "confirm_sas d p now_ms =
     (if php_state p \<noteq> AwaitingUserConfirm then (p, [PFailed ''confirm before SAS was shown''])
      else case php_sas_input p of
             None \<Rightarrow> (p, [PFailed ''confirm without SAS basis''])
           | Some inp \<Rightarrow>
               let k = IdentityKeypair_dh d (php_identity p) (qr_public_key (php_qr p));
                   mac = keyed_mac d k inp
               in (case MapBuilder_to_vec d (build_map [MapBuilder_bytes (pkey CONFIRM_MAC) mac]) of
                     Inl e \<Rightarrow> (p\<lparr> php_state := PhoneFailed \<rparr>, [PFailed ''failed to encode PAIR_CONFIRM''])
                   | Inr payload \<Rightarrow>
                       (p\<lparr> php_state := PhoneDone \<rparr>,
                        [PSend (Frame_new PairConfirm payload),
                         Completed (PairingRecord_new d (qr_device_id (php_qr p))
                           (qr_public_key (php_qr p)) (qr_display_name (php_qr p)) now_ms)])))"

definition reject_sas :: "PhonePairing \<Rightarrow> PhonePairing \<times> PairingAction list" where
  "reject_sas p = (p\<lparr> php_state := PhoneFailed \<rparr>, [PFailed ''user rejected SAS''])"

definition PhonePairing_is_done :: "PhonePairing \<Rightarrow> bool" where
  "PhonePairing_is_done p \<longleftrightarrow> php_state p = PhoneDone"

definition PhonePairing_display_name :: "PhonePairing \<Rightarrow> rstr" where
  "PhonePairing_display_name p = php_display_name p"

end
