(* ===== verification/PairingFacts.thy ===== *)
theory PairingFacts
  imports Pairing
begin

text \<open>
  What pairing guarantees: the QR code carries its payload faithfully and a parsed code is
  consistent; the honest run shows the same emoji on both sides and leaves matching records;
  the PC records a device only after a request with its live token and a MAC that proves the
  matching static key; the phone sends its confirmation only after the user compared.
\<close>

section \<open>URL encoding\<close>

lemma unreserved_bounds: "unreserved c \<Longrightarrow> c < 128 \<and> c \<noteq> 37 \<and> c \<noteq> 43 \<and> valid_char c"
  by (auto simp: unreserved_def valid_char_def)

lemma hex_val_upper: "n < 16 \<Longrightarrow> hex_val (hex_digit_upper n) = Some n"
  by (simp add: hex_val_def hex_digit_upper_def)

lemma lit_percent: "lit ''%'' = [37]"
  by (simp add: lit_def)

lemma percent_decode_byte: "percent_decode (urlencode_byte b @ r) = b # percent_decode r"
proof (cases "unreserved (unat b)")
  case True
  then show ?thesis
    using unreserved_bounds [OF True] by (simp add: urlencode_byte_def utf8_char_def)
next
  case False
  have "unat b div 16 < 16" using unat_bound [of b] by simp
  then have "percent_decode (37 # fmt_02X b @ r) = of_nat (16 * (unat b div 16) + unat b mod 16) # percent_decode r"
    by (simp add: fmt_02X_def hex_val_upper del: of_nat_add of_nat_mult)
  also have "16 * (unat b div 16) + unat b mod 16 = unat b" by simp
  finally show ?thesis using False by (simp add: urlencode_byte_def lit_percent)
qed

lemma percent_decode_urlencode: "percent_decode (concat (map urlencode_byte bs)) = bs"
proof (induction bs)
  case (Cons b bs)
  then show ?case by (simp add: percent_decode_byte)
qed simp

lemma form_decode_urlencode: "valid_str s \<Longrightarrow> form_decode (urlencode s) = s"
  by (simp add: form_decode_def urlencode_def percent_decode_urlencode from_utf8_lossy_as_bytes)

lemma form_decode_plain:
  assumes "list_all unreserved s"
  shows "form_decode s = s"
proof -
  have "percent_decode s = as_bytes s"
    using assms by (induction s) (auto simp: as_bytes_def dest: unreserved_bounds)
  moreover have "valid_str s"
    using assms by (auto simp: valid_str_def list_all_iff dest: unreserved_bounds)
  ultimately show ?thesis by (simp add: form_decode_def from_utf8_lossy_as_bytes)
qed

lemma query_char_urlencode: "list_all query_char (urlencode s)"
proof -
  have digit: "unreserved (hex_digit_upper n)" if "n < 16" for n
    using that by (simp add: unreserved_def hex_digit_upper_def)
  have "unat b div 16 < 16" for b :: byte using unat_bound [of b] by simp
  then have "list_all query_char (urlencode_byte b)" for b
    by (simp add: urlencode_byte_def query_char_def fmt_02X_def digit lit_percent)
  then show ?thesis by (simp add: urlencode_def list_all_iff)
qed

lemma query_char_unreserved: "list_all unreserved s \<Longrightarrow> list_all query_char s"
  by (auto simp: list_all_iff query_char_def)

lemma unreserved_show_nat: "list_all unreserved (show_nat n)"
  using show_nat_digits [of n] by (auto simp: list_all_iff is_digit_def unreserved_def)

section \<open>The QR code\<close>

definition qr_ok :: "deps \<Rightarrow> QrPayload \<Rightarrow> bool" where
  "qr_ok d q \<longleftrightarrow> qr_version q = PROTOCOL_VERSION \<and>
     qr_device_id q = device_id_from_pk d (qr_public_key q) \<and>
     length (qr_public_key q) = 32 \<and> length (qr_pair_token q) = 16 \<and>
     valid_str (qr_display_name q) \<and>
     (\<forall>h \<in> set (qr_hosts q). h \<noteq> [] \<and> 44 \<notin> set h \<and> valid_str h)"

definition qr_pairs :: "deps \<Rightarrow> QrPayload \<Rightarrow> (rstr \<times> rstr) list" where
  "qr_pairs d q =
     [(lit ''v'', show_nat (unat (qr_version q))), (lit ''id'', DeviceId_hex (qr_device_id q)),
      (lit ''pk'', base64url_encode d (qr_public_key q)), (lit ''nm'', urlencode (qr_display_name q)),
      (lit ''hosts'', urlencode (join_with 44 (qr_hosts q))),
      (lit ''tok'', base64url_encode d (qr_pair_token q))]"

lemma to_url_query:
  "QrPayload_to_url d q = lit ''airclip://'' @ lit ''pair'' @ 63 # query_string (qr_pairs d q)"
  by (simp add: QrPayload_to_url_def query_string_def qr_pairs_def QR_SCHEME_def lit_def)

lemma valid_join:
  "\<forall>h \<in> set hs. valid_str h \<Longrightarrow> valid_str (join_with 44 hs)"
  by (induction "44 :: rchar" hs rule: join_with.induct) (auto simp: valid_str_def valid_char_def)

lemma split_join_hosts:
  assumes "\<forall>h \<in> set hs. h \<noteq> [] \<and> 44 \<notin> set h"
  shows "filter (\<lambda>s. s \<noteq> []) (split_on 44 (join_with 44 hs)) = hs"
proof (cases "hs = []")
  case False
  then have "split_on 44 (join_with 44 hs) = hs" using assms by (intro split_join) auto
  then show ?thesis using assms by (simp add: filter_id_conv)
qed simp

lemma qr_params_pairs:
  assumes d: "base64_faithful d" "hex_faithful d" "fixed_widths d" and q: "qr_ok d q"
  shows "qr_params d (map (\<lambda>(k, v). (k, form_decode v)) (qr_pairs d q)) st =
    Inr \<lparr> qf_version = Some (qr_version q), qf_device_id = Some (qr_device_id q),
          qf_public_key = Some (qr_public_key q), qf_display_name = qr_display_name q,
          qf_hosts = qr_hosts q, qf_pair_token = Some (qr_pair_token q) \<rparr>"
proof -
  have b64: "base64url_decode d (base64url_encode d b) = Some b"
      "form_decode (base64url_encode d b) = base64url_encode d b" for b
    using d(1) by (simp_all add: base64_faithful_def form_decode_plain)
  have hx: "form_decode (DeviceId_hex i) = DeviceId_hex i" "hex_decode d (DeviceId_hex i) = Some (device_bytes i)" for i
    using d(2) by (simp_all add: hex_faithful_def DeviceId_hex_def form_decode_plain unreserved_hex)
  have i16: "length (device_bytes (qr_device_id q)) = 16"
    using q d(3) by (simp add: qr_ok_def)
  have "form_decode (urlencode (join_with 44 (qr_hosts q))) = join_with 44 (qr_hosts q)"
    "form_decode (urlencode (qr_display_name q)) = qr_display_name q"
    using q by (simp_all add: qr_ok_def valid_join form_decode_urlencode)
  then show ?thesis
    using q i16
    by (cases st) (simp add: qr_pairs_def qr_param_def lit_def b64 hx to_array_def
        form_decode_plain [OF unreserved_show_nat] split_join_hosts qr_ok_def)
qed

lemma qr_roundtrip_lemma:
  assumes d: "base64_faithful d" "hex_faithful d" "url_faithful d" "fixed_widths d" and q: "qr_ok d q"
  shows "QrPayload_parse d (QrPayload_to_url d q) = Inr q"
proof -
  have "list_all (\<lambda>(k, v). k \<noteq> [] \<and> list_all unreserved k \<and> list_all query_char v) (qr_pairs d q)"
    using d(1) by (simp add: qr_pairs_def query_char_urlencode query_char_unreserved unreserved_show_nat
        base64_faithful_def DeviceId_hex_def unreserved_hex) (simp add: lit_def unreserved_def)
  then have "url_parse d (QrPayload_to_url d q) =
      Inr \<lparr> url_scheme = lit ''airclip'', url_host = Some (lit ''pair''),
            url_query_pairs = map (\<lambda>(k, v). (k, form_decode v)) (qr_pairs d q) \<rparr>"
    unfolding to_url_query using d(3) unfolding url_faithful_def
    by (intro d(3) [unfolded url_faithful_def, rule_format]) (simp add: lit_def qr_pairs_def)
  then show ?thesis
    using q by (simp add: QrPayload_parse_def QR_SCHEME_def qr_params_pairs [OF d(1,2,4) q])
      (simp add: qr_ok_def)
qed

section \<open>The honest run\<close>

definition req_fields :: "bytes \<Rightarrow> DeviceId \<Rightarrow> bytes \<Rightarrow> rstr \<Rightarrow> bytes \<Rightarrow> (u64 \<times> Value) list" where
  "req_fields tok i pk name e =
     [(pkey PAIR_TOKEN, VBytes tok), (pkey DEVICE_ID, VBytes (device_bytes i)), (pkey PK_ID, VBytes pk),
      (pkey DISPLAY_NAME, VText name), (pkey EPH_PK, VBytes e)]"

lemma req_read:
  assumes "length tok = 16" "length (device_bytes i) = 16" "length pk = 32" "length e = 32"
  shows "MapReader_byte_array 16 (field_map (req_fields tok i pk name e)) (pkey PAIR_TOKEN) = Inr tok"
    "MapReader_byte_array 16 (field_map (req_fields tok i pk name e)) (pkey DEVICE_ID) = Inr (device_bytes i)"
    "MapReader_byte_array 32 (field_map (req_fields tok i pk name e)) (pkey PK_ID) = Inr pk"
    "MapReader_text (field_map (req_fields tok i pk name e)) (pkey DISPLAY_NAME) = Inr name"
    "MapReader_byte_array 32 (field_map (req_fields tok i pk name e)) (pkey EPH_PK) = Inr e"
  using assms by (auto simp: req_fields_def intro!: MapReader_field)

text \<open>A payload with one fixed-width field, as the acknowledgement and the confirmation are.\<close>

lemma one_field_payload:
  assumes "cbor_faithful d" "length b = n" "n < 2 ^ 64"
  obtains m r where "MapBuilder_to_vec d (build_map [MapBuilder_bytes k b]) = Inr m"
    "MapReader_from_slice d m = Inr r" "MapReader_byte_array n r k = Inr b" "length m \<le> 27 + n"
proof -
  obtain m where "MapBuilder_to_vec d (build_map [MapBuilder_bytes k b]) = Inr m"
    "MapReader_from_slice d m = Inr (field_map [(k, VBytes b)])"
    "length m \<le> 9 + sum_list (map (\<lambda>(k, v). 9 + cbor_bound v) [(k, VBytes b)])"
    by (rule payload_roundtrip [OF assms(1), where kvs = "[(k, VBytes b)]"
          and b = "build_map [MapBuilder_bytes k b]"])
      (use assms in \<open>simp_all add: MapBuilder_defs\<close>)
  moreover have "MapReader_byte_array n (field_map [(k, VBytes b)]) k = Inr b"
    by (rule MapReader_field) (simp_all add: assms)
  ultimately show ?thesis using that assms(2) by simp
qed

lemma start_pairing_ok:
  assumes d: "cbor_faithful d" "fixed_widths d"
    and len: "length (qr_pair_token qr) = 16" "length (id_public me) = 32" "length (eph_public eph) = 32"
    and name: "valid_str name" "str_len name < 2 ^ 64"
  obtains payload where
    "length payload \<le> 1000 + str_len name"
    "PhonePairing_start_with_ephemeral d me name qr eph =
       Inr (\<lparr> php_identity = me, php_display_name = name, php_qr = qr, php_eph = eph,
              php_state = AwaitingAck, php_sas_input = None \<rparr>, Frame_new PairReq payload)"
    "MapReader_from_slice d payload = Inr (field_map (req_fields (qr_pair_token qr)
       (IdentityKeypair_device_id d me) (id_public me) name (eph_public eph)))"
proof -
  have i: "length (device_bytes (IdentityKeypair_device_id d me)) = 16"
    using d(2) by (simp add: IdentityKeypair_device_id_def)
  let ?calls = "[MapBuilder_bytes (pkey PAIR_TOKEN) (qr_pair_token qr),
          MapBuilder_bytes (pkey DEVICE_ID) (device_bytes (IdentityKeypair_device_id d me)),
          MapBuilder_bytes (pkey PK_ID) (id_public me),
          MapBuilder_text (pkey DISPLAY_NAME) name,
          MapBuilder_bytes (pkey EPH_PK) (eph_public eph)]"
  obtain payload where "MapBuilder_to_vec d (build_map ?calls) = Inr payload"
    "MapReader_from_slice d payload = Inr (field_map (req_fields (qr_pair_token qr)
       (IdentityKeypair_device_id d me) (id_public me) name (eph_public eph)))"
    "length payload \<le> 9 + sum_list (map (\<lambda>(k, v). 9 + cbor_bound v) (req_fields (qr_pair_token qr)
       (IdentityKeypair_device_id d me) (id_public me) name (eph_public eph)))"
    by (rule payload_roundtrip [OF d(1), where b = "build_map ?calls"
          and kvs = "req_fields (qr_pair_token qr) (IdentityKeypair_device_id d me) (id_public me) name (eph_public eph)"])
      (use len name i in \<open>simp_all add: req_fields_def MapBuilder_defs\<close>)
  moreover from this(3) have "length payload \<le> 1000 + str_len name"
    using len i by (simp add: req_fields_def)
  ultimately show ?thesis
    by (intro that [of payload]) (simp_all add: PhonePairing_start_with_ephemeral_def
        IdentityKeypair_public_bytes_def EphemeralKeypair_public_bytes_def)
qed

text \<open>When the token is accepted.\<close>

lemma token_valid_iff:
  "token_valid p t now = None \<longleftrightarrow>
     t = pcp_token p \<and> \<not> pcp_token_used p \<and> unat now - unat (pcp_issued_ms p) \<le> unat (pcp_ttl_ms p)"
  by (simp add: token_valid_def word_less_nat_alt unat_saturating_sub not_less)

lemma on_pair_req_ok:
  assumes d: "deps_ok d"
    and len: "length (pcp_token p) = 16" "length (device_bytes i) = 16" "length pk = 32" "length e = 32"
    and read: "MapReader_from_slice d (frame_payload f) = Inr (field_map (req_fields (pcp_token p) i pk name e))"
    and ok: "token_valid p (pcp_token p) now = None" "device_id_from_pk d pk = i"
    and eph: "eph = EphemeralKeypair_from_seed d seed"
    and inp: "inp = sas_input (EphemeralKeypair_dh d eph e) pk (id_public (pcp_identity p)) (pcp_token p)"
  obtains ack r where
    "on_pair_req d p f now (Some seed) =
      (p\<lparr> pcp_token_used := True, pcp_eph := Some eph,
          pcp_peer := Some \<lparr> ph_device_id = i, ph_pk = pk, ph_display_name = name \<rparr>,
          pcp_sas_input := Some inp, pcp_state := AwaitingConfirm \<rparr>,
       [PSend (Frame_new PairAck ack), ShowSas (sas_emoji (sas_digest d inp))])"
    "MapReader_from_slice d ack = Inr r" "MapReader_byte_array 32 r (pkey ACK_EPH_PK) = Inr (eph_public eph)"
    "length ack \<le> 59"
proof -
  have e32: "length (eph_public eph) = 32" using deps_okD(2) [OF d] by (simp add: eph)
  obtain ack r where a: "MapBuilder_to_vec d (build_map [MapBuilder_bytes (pkey ACK_EPH_PK) (eph_public eph)]) = Inr ack"
    "MapReader_from_slice d ack = Inr r" "MapReader_byte_array 32 r (pkey ACK_EPH_PK) = Inr (eph_public eph)"
    "length ack \<le> 27 + 32"
    by (rule one_field_payload [OF deps_okD(6) [OF d] e32]) simp
  have "on_pair_req d p f now (Some seed) =
      (p\<lparr> pcp_token_used := True, pcp_eph := Some eph,
          pcp_peer := Some \<lparr> ph_device_id = i, ph_pk = pk, ph_display_name = name \<rparr>,
          pcp_sas_input := Some inp, pcp_state := AwaitingConfirm \<rparr>,
       [PSend (Frame_new PairAck ack), ShowSas (sas_emoji (sas_digest d inp))])"
    unfolding on_pair_req_def read
    by (simp add: req_read [OF len] ok Let_def EphemeralKeypair_generate_def eph [symmetric] a(1)
        IdentityKeypair_public_bytes_def EphemeralKeypair_public_bytes_def inp del: pkey.simps)
  then show ?thesis using a(2-4) by (intro that) simp_all
qed

section \<open>Machines and traces\<close>

fun is_failed :: "PairingAction \<Rightarrow> bool" where
  "is_failed (PFailed m) = True"
| "is_failed (PSend f) = False"
| "is_failed (ShowSas s) = False"
| "is_failed (Completed r) = False"

definition pc_step :: "deps \<Rightarrow> PcPairing \<Rightarrow> Frame \<times> u64 \<times> bytes option \<Rightarrow> PcPairing \<times> PairingAction list" where
  "pc_step d p i = (case i of (f, now, rnd) \<Rightarrow> PcPairing_on_frame d p f now rnd)"

text \<open>A request the PC accepts, and what it then waits for.\<close>

definition req_authentic :: "deps \<Rightarrow> PcPairing \<Rightarrow> Frame \<Rightarrow> u64 \<Rightarrow> bytes \<Rightarrow> PeerHandshake \<Rightarrow> bytes \<Rightarrow> bool" where
  "req_authentic d p f now seed peer inp \<longleftrightarrow>
     (\<exists>r eph_pk_i. MapReader_from_slice d (frame_payload f) = Inr r \<and>
        MapReader_byte_array 16 r (pkey PAIR_TOKEN) = Inr (pcp_token p) \<and>
        MapReader_byte_array 16 r (pkey DEVICE_ID) = Inr (device_bytes (ph_device_id peer)) \<and>
        MapReader_byte_array 32 r (pkey PK_ID) = Inr (ph_pk peer) \<and>
        MapReader_byte_array 32 r (pkey EPH_PK) = Inr eph_pk_i \<and>
        \<not> pcp_token_used p \<and> unat now - unat (pcp_issued_ms p) \<le> unat (pcp_ttl_ms p) \<and>
        device_id_from_pk d (ph_pk peer) = ph_device_id peer \<and>
        inp = sas_input (EphemeralKeypair_dh d (EphemeralKeypair_from_seed d seed) eph_pk_i) (ph_pk peer)
                (id_public (pcp_identity p)) (pcp_token p))"

lemma on_pair_req_cases:
  obtains (refused) p' msg where "on_pair_req d p f now rnd = (p', [PFailed msg])"
      "pcp_state p' = PcFailed"
  | (accepted) seed eph peer inp ack where "rnd = Some seed" "req_authentic d p f now seed peer inp"
      "on_pair_req d p f now rnd =
        (p\<lparr> pcp_token_used := True, pcp_eph := Some eph, pcp_peer := Some peer,
            pcp_sas_input := Some inp, pcp_state := AwaitingConfirm \<rparr>,
         [PSend ack, ShowSas (sas_emoji (sas_digest d inp))])"
proof -
  have "(\<exists>p' msg. on_pair_req d p f now rnd = (p', [PFailed msg]) \<and> pcp_state p' = PcFailed) \<or>
    (\<exists>seed eph peer inp ack. rnd = Some seed \<and> req_authentic d p f now seed peer inp \<and>
      on_pair_req d p f now rnd =
        (p\<lparr> pcp_token_used := True, pcp_eph := Some eph, pcp_peer := Some peer,
            pcp_sas_input := Some inp, pcp_state := AwaitingConfirm \<rparr>,
         [PSend ack, ShowSas (sas_emoji (sas_digest d inp))]))"
  proof (cases "\<exists>p' msg. on_pair_req d p f now rnd = (p', [PFailed msg]) \<and> pcp_state p' = PcFailed")
    case True
    then show ?thesis by blast
  next
    case False
    note n = this [unfolded on_pair_req_def]
    obtain r where r: "MapReader_from_slice d (frame_payload f) = Inr r"
      using n by (cases "MapReader_from_slice d (frame_payload f)") (auto simp: pc_fail_def)
    note n = n [unfolded r sum.case]
    obtain tok i pk e where g: "MapReader_byte_array 16 r (pkey PAIR_TOKEN) = Inr tok"
      "MapReader_byte_array 16 r (pkey DEVICE_ID) = Inr i" "MapReader_byte_array 32 r (pkey PK_ID) = Inr pk"
      "MapReader_byte_array 32 r (pkey EPH_PK) = Inr e"
      using n
      by (cases "MapReader_byte_array 16 r (pkey PAIR_TOKEN)"; cases "MapReader_byte_array 16 r (pkey DEVICE_ID)";
          cases "MapReader_byte_array 32 r (pkey PK_ID)"; cases "MapReader_byte_array 32 r (pkey EPH_PK)")
        (auto simp: pc_fail_def)
    note n = n [unfolded g ok_r_simps prod.case option.case Let_def]
    have v: "token_valid p tok now = None"
      using n by (cases "token_valid p tok now") (auto simp: pc_fail_def)
    have i: "device_id_from_pk d pk = DeviceId i"
      using n v by (auto simp: pc_fail_def split: if_splits)
    obtain seed where s: "rnd = Some seed"
      using n v i by (cases rnd) (auto simp: pc_fail_def EphemeralKeypair_generate_def)
    let ?eph = "EphemeralKeypair_from_seed d seed"
    let ?inp = "sas_input (EphemeralKeypair_dh d ?eph e) pk (id_public (pcp_identity p)) (pcp_token p)"
    let ?ack = "MapBuilder_to_vec d (build_map [MapBuilder_bytes (pkey ACK_EPH_PK) (EphemeralKeypair_public_bytes ?eph)])"
    obtain ack where a: "?ack = Inr ack"
      using n v i s by (cases ?ack) (auto simp: pc_fail_def EphemeralKeypair_generate_def)
    let ?peer = "\<lparr> ph_device_id = DeviceId i, ph_pk = pk,
      ph_display_name = unwrap_or (MapReader_text r (pkey DISPLAY_NAME)) (lit ''iPhone'') \<rparr>"
    have "req_authentic d p f now seed ?peer ?inp"
      using r g v i by (auto simp: req_authentic_def token_valid_iff)
    moreover have "on_pair_req d p f now rnd =
        (p\<lparr> pcp_token_used := True, pcp_eph := Some ?eph, pcp_peer := Some ?peer,
            pcp_sas_input := Some ?inp, pcp_state := AwaitingConfirm \<rparr>,
         [PSend (Frame_new PairAck ack), ShowSas (sas_emoji (sas_digest d ?inp))])"
      unfolding on_pair_req_def
      by (simp add: r g v i s a Let_def EphemeralKeypair_generate_def IdentityKeypair_public_bytes_def
          del: pkey.simps)
    ultimately show ?thesis using s by blast
  qed
  then show ?thesis using refused accepted by blast
qed

definition confirm_authentic :: "deps \<Rightarrow> PcPairing \<Rightarrow> Frame \<Rightarrow> PeerHandshake \<Rightarrow> bytes \<Rightarrow> bool" where
  "confirm_authentic d p f peer inp \<longleftrightarrow>
     (\<exists>r. MapReader_from_slice d (frame_payload f) = Inr r \<and>
        MapReader_byte_array 32 r (pkey CONFIRM_MAC) =
          Inr (keyed_mac d (IdentityKeypair_dh d (pcp_identity p) (ph_pk peer)) inp))"

lemma on_confirm_cases:
  obtains (refused) msg where "on_confirm d p f now = (p\<lparr> pcp_state := PcFailed \<rparr>, [PFailed msg])"
  | (accepted) peer inp where "pcp_peer p = Some peer" "pcp_sas_input p = Some inp"
      "confirm_authentic d p f peer inp"
      "on_confirm d p f now = (p\<lparr> pcp_state := PcDone \<rparr>,
         [Completed (PairingRecord_new d (ph_device_id peer) (ph_pk peer) (ph_display_name peer) now)])"
proof -
  have "(\<exists>msg. on_confirm d p f now = (p\<lparr> pcp_state := PcFailed \<rparr>, [PFailed msg])) \<or>
    (\<exists>peer inp. pcp_peer p = Some peer \<and> pcp_sas_input p = Some inp \<and> confirm_authentic d p f peer inp \<and>
      on_confirm d p f now = (p\<lparr> pcp_state := PcDone \<rparr>,
         [Completed (PairingRecord_new d (ph_device_id peer) (ph_pk peer) (ph_display_name peer) now)]))"
    by (auto simp: on_confirm_def pc_fail_def confirm_authentic_def Let_def simp del: pkey.simps
        split: sum.splits option.splits dest: verify_macD)
  then show ?thesis using refused accepted by blast
qed

lemma pc_on_frame_cases:
  obtains (req) "pcp_state p = AwaitingReq" "frame_ty f = PairReq"
      "PcPairing_on_frame d p f now rnd = on_pair_req d p f now rnd"
  | (conf) "pcp_state p = AwaitingConfirm" "frame_ty f = PairConfirm"
      "PcPairing_on_frame d p f now rnd = on_confirm d p f now"
  | (unexpected) "PcPairing_on_frame d p f now rnd =
      (p\<lparr> pcp_state := PcFailed \<rparr>, [PFailed ''unexpected frame for pairing state''])"
  by (cases "pcp_state p"; cases "frame_ty f") (simp_all add: PcPairing_on_frame_def)

lemma pc_step_failed_iff:
  "pcp_state (fst (PcPairing_on_frame d p f now rnd)) = PcFailed \<longleftrightarrow>
     list_ex is_failed (snd (PcPairing_on_frame d p f now rnd))"
proof (cases rule: pc_on_frame_cases [where p = p and f = f and d = d and now = now and rnd = rnd])
  case req
  show ?thesis
    by (cases rule: on_pair_req_cases [where d = d and p = p and f = f and now = now and rnd = rnd])
      (use req in auto)
next
  case conf
  show ?thesis
    by (cases rule: on_confirm_cases [where d = d and p = p and f = f and now = now]) (simp_all add: conf)
qed simp

interpretation pc_pairing: sans_io "pc_step d" "\<lambda>p. pcp_state p = PcFailed" is_failed "\<lambda>p. True"
  for d :: deps
proof unfold_locales
  fix p :: PcPairing and i :: "Frame \<times> u64 \<times> bytes option"
  obtain f now rnd where i: "i = (f, now, rnd)" by (cases i)
  show "fst (pc_step d p i) = p \<and> list_all is_failed (snd (pc_step d p i))" if "pcp_state p = PcFailed"
    using that by (cases p) (simp add: pc_step_def i PcPairing_on_frame_def)
  show "(pcp_state (fst (pc_step d p i)) = PcFailed) = list_ex is_failed (snd (pc_step d p i))"
    by (simp add: pc_step_def i pc_step_failed_iff)
qed simp_all

lemma phone_on_frame_cases:
  obtains (failed) msg where "PhonePairing_on_frame d p f = (p\<lparr> php_state := PhoneFailed \<rparr>, [PFailed msg])"
  | (shown) inp where "php_state p = AwaitingAck"
      "PhonePairing_on_frame d p f = (p\<lparr> php_sas_input := Some inp, php_state := AwaitingUserConfirm \<rparr>,
         [ShowSas (sas_emoji (sas_digest d inp))])"
proof -
  have "(\<exists>msg. PhonePairing_on_frame d p f = (p\<lparr> php_state := PhoneFailed \<rparr>, [PFailed msg])) \<or>
    (\<exists>inp. php_state p = AwaitingAck \<and> PhonePairing_on_frame d p f =
       (p\<lparr> php_sas_input := Some inp, php_state := AwaitingUserConfirm \<rparr>,
         [ShowSas (sas_emoji (sas_digest d inp))]))"
    by (auto simp: PhonePairing_on_frame_def on_ack_def phone_fail_def Let_def
        split: PhoneState.split FrameType.split sum.split)
  then show ?thesis using failed shown by blast
qed

interpretation phone_pairing: sans_io "PhonePairing_on_frame d" "\<lambda>p. php_state p = PhoneFailed" is_failed
  "\<lambda>p. True" for d :: deps
proof unfold_locales
  fix p :: PhonePairing and f :: Frame
  show "fst (PhonePairing_on_frame d p f) = p \<and> list_all is_failed (snd (PhonePairing_on_frame d p f))"
    if "php_state p = PhoneFailed"
    using that by (cases p) (simp add: PhonePairing_on_frame_def)
  show "(php_state (fst (PhonePairing_on_frame d p f)) = PhoneFailed) =
      list_ex is_failed (snd (PhonePairing_on_frame d p f))"
    by (cases rule: phone_on_frame_cases [where d = d and p = p and f = f]) simp_all
qed simp_all

section \<open>What leads to a record\<close>

text \<open>After success or failure no step completes a pairing.\<close>

lemma no_more_completed:
  "pcp_state p = PcFailed \<or> pcp_state p = PcDone \<Longrightarrow>
   Completed r \<notin> set (concat (snd (run (pc_step d) p is)))"
proof (induction "is" arbitrary: p)
  case (Cons i "is")
  obtain f now rnd where i: "i = (f, now, rnd)" by (cases i)
  have "pc_step d p i = (p\<lparr> pcp_state := PcFailed \<rparr>, [PFailed ''unexpected frame for pairing state''])"
    using Cons.prems by (auto simp: pc_step_def i PcPairing_on_frame_def)
  then show ?case using Cons.IH [of "p\<lparr> pcp_state := PcFailed \<rparr>"] by simp
qed simp

lemma no_more_completedD:
  "x \<in> set (snd (run (pc_step d) p is)) \<Longrightarrow> Completed r \<in> set x \<Longrightarrow>
   pcp_state p \<noteq> PcFailed \<and> pcp_state p \<noteq> PcDone"
  using no_more_completed [of p r d "is"] by auto

lemma completed_from_confirm:
  assumes "pcp_state p = AwaitingConfirm" "Completed rec \<in> set (concat (snd (run (pc_step d) p is)))"
  obtains f now rnd rest peer inp where "is = (f, now, rnd) # rest" "frame_ty f = PairConfirm"
    "pcp_peer p = Some peer" "pcp_sas_input p = Some inp" "confirm_authentic d p f peer inp"
    "rec = PairingRecord_new d (ph_device_id peer) (ph_pk peer) (ph_display_name peer) now"
proof -
  obtain f now rnd rest where c: "is = (f, now, rnd) # rest" using assms(2) by (cases "is") auto
  show ?thesis
  proof (cases rule: pc_on_frame_cases [where p = p and f = f and d = d and now = now and rnd = rnd])
    case conf
    show ?thesis
      by (cases rule: on_confirm_cases [where d = d and p = p and f = f and now = now])
        (use conf c assms(2) that in \<open>auto simp: pc_step_def dest: no_more_completedD\<close>)
  qed (use assms c in \<open>auto simp: pc_step_def dest: no_more_completedD\<close>)
qed

text \<open>The phone, driven by frames and by the user.\<close>

datatype phone_input = InFrame Frame | Confirm u64 | Reject

fun phone_step :: "deps \<Rightarrow> PhonePairing \<Rightarrow> phone_input \<Rightarrow> PhonePairing \<times> PairingAction list" where
  "phone_step d p (InFrame f) = PhonePairing_on_frame d p f"
| "phone_step d p (Confirm now) = confirm_sas d p now"
| "phone_step d p Reject = reject_sas p"

lemma confirm_sas_cases:
  obtains (failed) p' msg where "confirm_sas d p now = (p', [PFailed msg])"
      "php_state p' = php_state p \<or> php_state p' = PhoneFailed"
  | (sent) inp f where "php_state p = AwaitingUserConfirm" "php_sas_input p = Some inp"
      "confirm_sas d p now = (p\<lparr> php_state := PhoneDone \<rparr>,
        [PSend f, Completed (PairingRecord_new d (qr_device_id (php_qr p)) (qr_public_key (php_qr p))
           (qr_display_name (php_qr p)) now)])"
proof -
  have "(\<exists>p' msg. confirm_sas d p now = (p', [PFailed msg]) \<and>
      (php_state p' = php_state p \<or> php_state p' = PhoneFailed)) \<or>
    (\<exists>inp f. php_state p = AwaitingUserConfirm \<and> php_sas_input p = Some inp \<and>
      confirm_sas d p now = (p\<lparr> php_state := PhoneDone \<rparr>,
        [PSend f, Completed (PairingRecord_new d (qr_device_id (php_qr p)) (qr_public_key (php_qr p))
           (qr_display_name (php_qr p)) now)]))"
    by (auto simp: confirm_sas_def Let_def simp del: pkey.simps split: option.split sum.split)
  then show ?thesis using failed sent by blast
qed

text \<open>A phone sends only from the state the comparison was shown in, on the user's word.\<close>

lemma phone_sends:
  assumes "PSend f \<in> set (snd (phone_step d p i))"
  shows "php_state p = AwaitingUserConfirm \<and> php_state (fst (phone_step d p i)) = PhoneDone \<and>
    (\<exists>now. i = Confirm now \<and> snd (phone_step d p i) = [PSend f, Completed (PairingRecord_new d
       (qr_device_id (php_qr p)) (qr_public_key (php_qr p)) (qr_display_name (php_qr p)) now)])"
proof (cases i)
  case (InFrame g)
  then show ?thesis
    using assms by (cases rule: phone_on_frame_cases [where d = d and p = p and f = g]) auto
next
  case (Confirm now)
  then show ?thesis
    using assms by (cases rule: confirm_sas_cases [where d = d and p = p and now = now]) auto
next
  case Reject
  then show ?thesis using assms by (simp add: reject_sas_def)
qed

text \<open>The scanned code stays what it was, and a phone that is done or failed never sends again.\<close>

lemma phone_step_qr: "php_qr (fst (phone_step d p i)) = php_qr p"
proof (cases i)
  case (InFrame g)
  then show ?thesis by (cases rule: phone_on_frame_cases [where d = d and p = p and f = g]) auto
qed (auto simp: confirm_sas_def reject_sas_def Let_def simp del: pkey.simps split: option.split sum.split)

lemma phone_run_qr: "php_qr (fst (run (phone_step d) p is)) = php_qr p"
  by (induction "is" arbitrary: p) (simp_all add: phone_step_qr)

lemma phone_step_over:
  assumes "php_state p \<in> {PhoneDone, PhoneFailed}"
  shows "php_state (fst (phone_step d p i)) \<in> {PhoneDone, PhoneFailed}"
proof (cases i)
  case (InFrame g)
  then show ?thesis
    using assms by (cases rule: phone_on_frame_cases [where d = d and p = p and f = g]) auto
next
  case (Confirm now)
  then show ?thesis
    using assms by (cases rule: confirm_sas_cases [where d = d and p = p and now = now]) auto
next
  case Reject
  then show ?thesis by (simp add: reject_sas_def)
qed

lemma silent_once_over:
  "php_state p \<in> {PhoneDone, PhoneFailed} \<Longrightarrow> PSend f \<notin> set (concat (snd (run (phone_step d) p is)))"
proof (induction "is" arbitrary: p)
  case (Cons i "is")
  then show ?case
    using Cons.IH [OF phone_step_over [OF Cons.prems, of d i]] phone_sends [of f d p i] by auto
qed simp

lemma phone_reaches_compare:
  assumes "php_state (fst (phone_step d p i)) = AwaitingUserConfirm"
  shows "php_state p = AwaitingUserConfirm \<or> (\<exists>f sas. i = InFrame f \<and> snd (phone_step d p i) = [ShowSas sas])"
proof (cases i)
  case (InFrame g)
  then show ?thesis
    using assms by (cases rule: phone_on_frame_cases [where d = d and p = p and f = g]) auto
next
  case (Confirm now)
  then show ?thesis
    using assms by (cases rule: confirm_sas_cases [where d = d and p = p and now = now]) auto
next
  case Reject
  then show ?thesis using assms by (simp add: reject_sas_def)
qed

lemma compare_was_shown:
  assumes "php_state (fst (run (phone_step d) p is)) = AwaitingUserConfirm" "php_state p \<noteq> AwaitingUserConfirm"
  shows "\<exists>i < length is. \<exists>f sas. is ! i = InFrame f \<and> snd (run (phone_step d) p is) ! i = [ShowSas sas]"
  using assms
proof (induction "is" arbitrary: p)
  case (Cons x xs)
  show ?case
  proof (cases "php_state (fst (phone_step d p x)) = AwaitingUserConfirm")
    case True
    then show ?thesis using phone_reaches_compare [OF True] Cons.prems(2) by (intro exI [of _ 0]) auto
  next
    case False
    then obtain i f sas where "i < length xs" "xs ! i = InFrame f"
      "snd (run (phone_step d) (fst (phone_step d p x)) xs) ! i = [ShowSas sas]"
      using Cons.IH [of "fst (phone_step d p x)"] Cons.prems(1) by auto
    then show ?thesis by (intro exI [of _ "Suc i"]) auto
  qed
qed simp

lemma run_nth:
  "j < length is \<Longrightarrow> snd (run step s is) ! j = snd (step (fst (run step s (take j is))) (is ! j))"
proof (induction "is" arbitrary: s j)
  case (Cons x xs)
  then show ?case by (cases j) auto
qed simp

lemma length_run [simp]: "length (snd (run step s is)) = length is"
  by (induction "is" arbitrary: s) simp_all

text \<open>Two steps of a run never both send: the earlier one would have ended the pairing.\<close>

lemma no_send_after:
  assumes "j < k" "k < length is" "PSend f \<in> set (snd (run (phone_step d) p is) ! j)"
  shows "PSend g \<notin> set (snd (run (phone_step d) p is) ! k)"
proof -
  let ?q = "fst (run (phone_step d) p (take j is))"
  let ?s = "fst (run (phone_step d) p (take (Suc j) is))"
  have j: "j < length is" using assms(1,2) by simp
  have "?s = fst (phone_step d ?q (is ! j))"
    using j by (simp add: take_Suc_conv_app_nth run_append)
  then have over: "php_state ?s \<in> {PhoneDone, PhoneFailed}"
    using phone_sends [of f d ?q "is ! j"] assms(3) j by (simp add: run_nth)
  have "snd (run (phone_step d) p is) ! k = snd (run (phone_step d) ?s (drop (Suc j) is)) ! (k - Suc j)"
    using assms(1,2) j run_append(2) [of "phone_step d" p "take (Suc j) is" "drop (Suc j) is"]
    by (simp add: nth_append)
  then have "set (snd (run (phone_step d) p is) ! k) \<subseteq> set (concat (snd (run (phone_step d) ?s (drop (Suc j) is))))"
    using assms(1,2) by (auto intro!: bexI [OF _ nth_mem])
  then show ?thesis using silent_once_over [OF over] by blast
qed

lemma only_one_send:
  assumes "j < length is" "k < length is" "PSend f \<in> set (snd (run (phone_step d) p is) ! j)"
    and "PSend g \<in> set (snd (run (phone_step d) p is) ! k)"
  shows "k = j"
  using no_send_after [of j k "is" f d p g] no_send_after [of k j "is" g d p f] assms by (metis nat_neq_iff)

text \<open>What the parsing loop keeps.\<close>

definition qf_inv :: "qr_fields \<Rightarrow> bool" where
  "qf_inv st \<longleftrightarrow>
     (\<forall>k. qf_public_key st = Some k \<longrightarrow> length k = 32) \<and>
     (\<forall>t. qf_pair_token st = Some t \<longrightarrow> length t = 16) \<and>
     (\<forall>h \<in> set (qf_hosts st). h \<noteq> [] \<and> 44 \<notin> set h)"

lemma split_on_clean: "w \<in> set (split_on c s) \<Longrightarrow> c \<notin> set w"
  by (induction s arbitrary: w) (auto split: if_splits list.splits)

lemma qr_param_inv: "qf_inv st \<Longrightarrow> qr_param d k v st = Inr st' \<Longrightarrow> qf_inv st'"
  by (auto simp: qr_param_def qf_inv_def to_array_def try_r_eq_Inr split: if_splits dest: split_on_clean)

lemma qr_params_inv_gen: "qf_inv st \<Longrightarrow> qr_params d kvs st = Inr st' \<Longrightarrow> qf_inv st'"
  by (induction d kvs st rule: qr_params.induct) (auto simp: try_r_eq_Inr dest: qr_param_inv)

lemma qr_params_inv:
  "qr_params d kvs \<lparr> qf_version = None, qf_device_id = None, qf_public_key = None,
     qf_display_name = [], qf_hosts = [], qf_pair_token = None \<rparr> = Inr st \<Longrightarrow> qf_inv st"
  by (rule qr_params_inv_gen) (simp_all add: qf_inv_def)

text \<open>Pairing from the code to both records, and an instance of it.\<close>

lemma pairing_ends:
  assumes d: "deps_ok d"
    and ids: "phone = IdentityKeypair_from_seed d a" "pc = IdentityKeypair_from_seed d b"
    and lens: "length a = 32" "length b = 32" "length e = 32" "length f = 32" "length tok = 16"
    and name: "valid_str name" "str_len name < 2 ^ 64"
    and ttl: "unat t1 - unat t0 \<le> unat PAIR_TOKEN_TTL_MS"
    and p: "p = PcPairing_with_token pc pc_name hosts tok t0"
  shows "\<exists>ph req p1 ack sas ph1 ph2 conf p2.
    PhonePairing_start d phone name (PcPairing_qr_payload d p) (Some e) = Inr (ph, req) \<and>
    PcPairing_on_frame d p req t1 (Some f) = (p1, [PSend ack, ShowSas sas]) \<and>
    PhonePairing_on_frame d ph ack = (ph1, [ShowSas sas]) \<and>
    confirm_sas d ph1 t2 = (ph2, [PSend conf, Completed
      (PairingRecord_new d (IdentityKeypair_device_id d pc) (id_public pc) pc_name t2)]) \<and>
    PcPairing_on_frame d p1 conf t3 r3 = (p2, [Completed
      (PairingRecord_new d (IdentityKeypair_device_id d phone) (id_public phone) name t3)]) \<and>
    PhonePairing_is_done ph2 \<and> PcPairing_is_done p2 \<and>
    frame_ty req = PairReq \<and> frame_ty ack = PairAck \<and> frame_fits ack \<and> frame_fits conf \<and>
    (str_len name \<le> MAX_TEXT_CLIP \<longrightarrow> frame_fits req)"
proof -
  note ok = deps_okD [OF d]
  define eph where "eph = EphemeralKeypair_from_seed d e"
  define epr where "epr = EphemeralKeypair_from_seed d f"
  define qr where "qr = PcPairing_qr_payload d p"
  have qr: "qr_pair_token qr = tok" "qr_public_key qr = id_public pc"
    "qr_device_id qr = IdentityKeypair_device_id d pc" "qr_display_name qr = pc_name"
    by (simp_all add: qr_def PcPairing_qr_payload_def p PcPairing_with_token_def IdentityKeypair_public_bytes_def)
  have len: "length (qr_pair_token qr) = 16" "length (id_public phone) = 32" "length (eph_public eph) = 32"
    "length (device_bytes (IdentityKeypair_device_id d phone)) = 16"
    using ok(2) lens(5) by (simp_all add: qr ids eph_def IdentityKeypair_device_id_def)
  obtain req where size: "length req \<le> 1000 + str_len name" and start: "PhonePairing_start_with_ephemeral d phone name qr eph =
       Inr (\<lparr> php_identity = phone, php_display_name = name, php_qr = qr, php_eph = eph,
              php_state = AwaitingAck, php_sas_input = None \<rparr>, Frame_new PairReq req)"
    "MapReader_from_slice d req = Inr (field_map (req_fields (qr_pair_token qr)
       (IdentityKeypair_device_id d phone) (id_public phone) name (eph_public eph)))"
    by (rule start_pairing_ok [OF ok(6,2) len(1-3) name])
  define inp where "inp = sas_input (EphemeralKeypair_dh d epr (eph_public eph)) (id_public phone) (id_public pc) tok"
  obtain ack r where req: "on_pair_req d p (Frame_new PairReq req) t1 (Some f) =
      (p\<lparr> pcp_token_used := True, pcp_eph := Some epr,
          pcp_peer := Some \<lparr> ph_device_id = IdentityKeypair_device_id d phone, ph_pk = id_public phone,
            ph_display_name = name \<rparr>,
          pcp_sas_input := Some inp, pcp_state := AwaitingConfirm \<rparr>,
       [PSend (Frame_new PairAck ack), ShowSas (sas_emoji (sas_digest d inp))])"
    "MapReader_from_slice d ack = Inr r" "MapReader_byte_array 32 r (pkey ACK_EPH_PK) = Inr (eph_public epr)"
    "length ack \<le> 59"
    by (rule on_pair_req_ok [OF d _ len(4,2,3), where p = p and name = name and f = "Frame_new PairReq req"
          and now = t1 and eph = epr and seed = f and inp = inp])
      (use lens(5) ttl start(2) qr in \<open>simp_all add: p PcPairing_with_token_def token_valid_iff inp_def epr_def
         IdentityKeypair_device_id_def IdentityKeypair_public_bytes_def\<close>)
  have same: "EphemeralKeypair_dh d eph (eph_public epr) = EphemeralKeypair_dh d epr (eph_public eph)"
    unfolding eph_def epr_def by (rule shared_secrets(2) [OF ok(1) lens(3,4)])
  have key: "IdentityKeypair_dh d phone (id_public pc) = IdentityKeypair_dh d pc (id_public phone)"
    unfolding ids by (rule shared_secrets(1) [OF ok(1) lens(1,2)])
  obtain conf rc where conf: "MapBuilder_to_vec d (build_map [MapBuilder_bytes (pkey CONFIRM_MAC)
      (keyed_mac d (IdentityKeypair_dh d pc (id_public phone)) inp)]) = Inr conf"
    "MapReader_from_slice d conf = Inr rc"
    "MapReader_byte_array 32 rc (pkey CONFIRM_MAC) = Inr (keyed_mac d (IdentityKeypair_dh d pc (id_public phone)) inp)"
    "length conf \<le> 27 + 32"
    by (rule one_field_payload [OF ok(6) length_keyed_mac [OF ok(2)]]) simp
  note defs = PhonePairing_on_frame_def on_ack_def PcPairing_on_frame_def on_confirm_def confirm_sas_def
    PhonePairing_is_done_def PcPairing_is_done_def IdentityKeypair_public_bytes_def
  show ?thesis
    unfolding PhonePairing_start_def EphemeralKeypair_generate_def qr_def [symmetric]
    using start(1) req conf(2-4) same key size
    by (simp add: eph_def [symmetric] defs p PcPairing_with_token_def Let_def qr inp_def [symmetric] conf(1)
        verify_mac_iff [OF ok(2)] frame_fits_def unat_MAX_FRAME_LEN MAX_TEXT_CLIP_def del: pkey.simps)
qed

lemma pairing_run:
  assumes d: "deps_ok d"
    and ids: "phone = IdentityKeypair_from_seed d a" "pc = IdentityKeypair_from_seed d b"
    and lens: "length a = 32" "length b = 32" "length e = 32" "length f = 32" "length tok = 16"
    and name: "valid_str name" "str_len name < 2 ^ 64"
    and ttl: "unat t1 - unat t0 \<le> unat PAIR_TOKEN_TTL_MS"
    and p: "p = PcPairing_with_token pc pc_name hosts tok t0"
  shows "\<exists>ph req p1 ack sas ph1 ph2 conf p2.
    PhonePairing_start d phone name (PcPairing_qr_payload d p) (Some e) = Inr (ph, req) \<and>
    PcPairing_on_frame d p req t1 (Some f) = (p1, [PSend ack, ShowSas sas]) \<and>
    PhonePairing_on_frame d ph ack = (ph1, [ShowSas sas]) \<and>
    confirm_sas d ph1 t2 = (ph2, [PSend conf, Completed
      (PairingRecord_new d (IdentityKeypair_device_id d pc) (id_public pc) pc_name t2)]) \<and>
    PcPairing_on_frame d p1 conf t3 r3 = (p2, [Completed
      (PairingRecord_new d (IdentityKeypair_device_id d phone) (id_public phone) name t3)]) \<and>
    PhonePairing_is_done ph2 \<and> PcPairing_is_done p2"
  using pairing_ends [OF assms] by metis

definition demo_pc_pairing :: PcPairing where
  "demo_pc_pairing = PcPairing_with_token (IdentityKeypair_from_seed demo_deps (replicate 32 2))
     (lit ''PC'') [lit ''10.0.0.5:49517''] (replicate 16 7) 1000"

lemma pairing_run_example:
  "\<exists>ph req p1 ack sas ph1 ph2 conf p2.
    PhonePairing_start demo_deps (IdentityKeypair_from_seed demo_deps (replicate 32 1)) (lit ''iPhone'')
      (PcPairing_qr_payload demo_deps demo_pc_pairing) (Some (replicate 32 3)) = Inr (ph, req) \<and>
    PcPairing_on_frame demo_deps demo_pc_pairing req 5000 (Some (replicate 32 4)) =
      (p1, [PSend ack, ShowSas sas]) \<and>
    PhonePairing_on_frame demo_deps ph ack = (ph1, [ShowSas sas]) \<and>
    confirm_sas demo_deps ph1 6000 = (ph2, [PSend conf, Completed
      (PairingRecord_new demo_deps
        (IdentityKeypair_device_id demo_deps (IdentityKeypair_from_seed demo_deps (replicate 32 2)))
        (id_public (IdentityKeypair_from_seed demo_deps (replicate 32 2))) (lit ''PC'') 6000)]) \<and>
    PcPairing_on_frame demo_deps p1 conf 7000 None = (p2, [Completed
      (PairingRecord_new demo_deps
        (IdentityKeypair_device_id demo_deps (IdentityKeypair_from_seed demo_deps (replicate 32 1)))
        (id_public (IdentityKeypair_from_seed demo_deps (replicate 32 1))) (lit ''iPhone'') 7000)]) \<and>
    PhonePairing_is_done ph2 \<and> PcPairing_is_done p2"
  by (rule pairing_run [OF demo_deps_ok refl refl _ _ _ _ _ _ _ _ demo_pc_pairing_def])
    (simp_all add: PAIR_TOKEN_TTL_MS_def valid_str_def valid_char_def lit_def str_len_def as_bytes_def
      utf8_char_def)

section \<open>Properties\<close>

text \<open>
  C10: Pairing completes and both sides agree. A phone that read the PC's code and a PC whose
  token is still valid: the request is accepted, both sides show the same four emoji, and once
  the user confirms, the phone records the PC and the PC records the phone, each under the
  other's true device identifier and public key.
\<close>

theorem pairing_completes:
  assumes d: "deps_ok d"
    and ids: "phone = IdentityKeypair_from_seed d a" "pc = IdentityKeypair_from_seed d b"
    and lens: "length a = 32" "length b = 32" "length e = 32" "length f = 32" "length tok = 16"
    and name: "valid_str name" "str_len name < 2 ^ 64"
    and ttl: "unat t1 - unat t0 \<le> unat PAIR_TOKEN_TTL_MS"
    and p: "p = PcPairing_with_token pc pc_name hosts tok t0"
  shows "\<exists>ph req p1 ack sas ph1 ph2 conf p2.
    PhonePairing_start d phone name (PcPairing_qr_payload d p) (Some e) = Inr (ph, req) \<and>
    PcPairing_on_frame d p req t1 (Some f) = (p1, [PSend ack, ShowSas sas]) \<and>
    PhonePairing_on_frame d ph ack = (ph1, [ShowSas sas]) \<and>
    confirm_sas d ph1 t2 = (ph2, [PSend conf, Completed
      (PairingRecord_new d (IdentityKeypair_device_id d pc) (id_public pc) pc_name t2)]) \<and>
    PcPairing_on_frame d p1 conf t3 r3 = (p2, [Completed
      (PairingRecord_new d (IdentityKeypair_device_id d phone) (id_public phone) name t3)]) \<and>
    PhonePairing_is_done ph2 \<and> PcPairing_is_done p2"
  using assms by (rule pairing_run)

theorem pairing_completes_witness:
  "\<exists>ph req p1 ack sas ph1 ph2 conf p2.
    PhonePairing_start demo_deps (IdentityKeypair_from_seed demo_deps (replicate 32 1)) (lit ''iPhone'')
      (PcPairing_qr_payload demo_deps demo_pc_pairing) (Some (replicate 32 3)) = Inr (ph, req) \<and>
    PcPairing_on_frame demo_deps demo_pc_pairing req 5000 (Some (replicate 32 4)) =
      (p1, [PSend ack, ShowSas sas]) \<and>
    PhonePairing_on_frame demo_deps ph ack = (ph1, [ShowSas sas]) \<and>
    confirm_sas demo_deps ph1 6000 = (ph2, [PSend conf, Completed
      (PairingRecord_new demo_deps
        (IdentityKeypair_device_id demo_deps (IdentityKeypair_from_seed demo_deps (replicate 32 2)))
        (id_public (IdentityKeypair_from_seed demo_deps (replicate 32 2))) (lit ''PC'') 6000)]) \<and>
    PcPairing_on_frame demo_deps p1 conf 7000 None = (p2, [Completed
      (PairingRecord_new demo_deps
        (IdentityKeypair_device_id demo_deps (IdentityKeypair_from_seed demo_deps (replicate 32 1)))
        (id_public (IdentityKeypair_from_seed demo_deps (replicate 32 1))) (lit ''iPhone'') 7000)]) \<and>
    PhonePairing_is_done ph2 \<and> PcPairing_is_done p2"
  by (rule pairing_completes [OF demo_deps_ok refl refl _ _ _ _ _ _ _ _ demo_pc_pairing_def])
    (simp_all add: PAIR_TOKEN_TTL_MS_def valid_str_def valid_char_def lit_def str_len_def as_bytes_def
      utf8_char_def)

text \<open>
  C6: A PC records a device only on proof. Whatever frames reach a PC that shows a code, if it
  ever records a device, then the first frame was a request carrying its token within the
  lifetime and a device identifier that matches the public key, at which point the PC showed its
  emoji, and the second was a confirmation whose MAC, under the static secret shared with that
  very key, covers the string the emoji came from; the record names that device and key.
\<close>

theorem pc_records_only_on_proof:
  assumes "Completed rec \<in> set (concat (snd (run (pc_step d) (PcPairing_with_token me nm hosts tok t0) is)))"
  shows "\<exists>f1 t1 seed f2 t2 r2 rest peer inp ack.
    is = (f1, t1, Some seed) # (f2, t2, r2) # rest \<and>
    frame_ty f1 = PairReq \<and>
    req_authentic d (PcPairing_with_token me nm hosts tok t0) f1 t1 seed peer inp \<and>
    snd (run (pc_step d) (PcPairing_with_token me nm hosts tok t0) is) ! 0 =
      [PSend ack, ShowSas (sas_emoji (sas_digest d inp))] \<and>
    frame_ty f2 = PairConfirm \<and>
    confirm_authentic d (PcPairing_with_token me nm hosts tok t0) f2 peer inp \<and>
    rec = PairingRecord_new d (ph_device_id peer) (ph_pk peer) (ph_display_name peer) t2"
proof -
  let ?p = "PcPairing_with_token me nm hosts tok t0"
  obtain f1 t1 r1 rest1 where c: "is = (f1, t1, r1) # rest1" using assms by (cases "is") auto
  have st: "pcp_state ?p = AwaitingReq" by (simp add: PcPairing_with_token_def)
  show ?thesis
  proof (cases rule: pc_on_frame_cases [where p = ?p and f = f1 and d = d and now = t1 and rnd = r1])
    case req
    show ?thesis
    proof (cases rule: on_pair_req_cases [where d = d and p = ?p and f = f1 and now = t1 and rnd = r1])
      case (refused p' msg)
      then show ?thesis
        using assms c req by (auto simp: pc_step_def dest: no_more_completedD)
    next
      case (accepted seed eph peer inp ack)
      define p1 where "p1 = ?p\<lparr> pcp_token_used := True, pcp_eph := Some eph, pcp_peer := Some peer,
            pcp_sas_input := Some inp, pcp_state := AwaitingConfirm \<rparr>"
      have step: "pc_step d ?p (f1, t1, r1) = (p1, [PSend ack, ShowSas (sas_emoji (sas_digest d inp))])"
        using accepted(3) req by (simp add: pc_step_def p1_def)
      have p1: "pcp_state p1 = AwaitingConfirm" "pcp_peer p1 = Some peer" "pcp_sas_input p1 = Some inp"
        "pcp_identity p1 = me" by (simp_all add: p1_def PcPairing_with_token_def)
      have "Completed rec \<in> set (concat (snd (run (pc_step d) p1 rest1)))"
        using assms c step by simp
      then obtain f2 t2 r2 rest where c2: "rest1 = (f2, t2, r2) # rest" "frame_ty f2 = PairConfirm"
        "confirm_authentic d p1 f2 peer inp"
        "rec = PairingRecord_new d (ph_device_id peer) (ph_pk peer) (ph_display_name peer) t2"
        by (rule completed_from_confirm [OF p1(1)]) (use p1 in auto)
      then have "confirm_authentic d ?p f2 peer inp"
        using p1(4) by (simp add: confirm_authentic_def PcPairing_with_token_def)
      moreover have "snd (run (pc_step d) ?p is) ! 0 = [PSend ack, ShowSas (sas_emoji (sas_digest d inp))]"
        using c step by simp
      ultimately show ?thesis using c c2 req(2) accepted(1,2) by blast
    qed
  qed (use assms c st in \<open>auto simp: pc_step_def dest: no_more_completedD\<close>)
qed

theorem pc_records_only_on_proof_witness:
  "\<exists>(is :: (Frame \<times> u64 \<times> bytes option) list) peer inp f2. length is = 2 \<and> f2 = fst (is ! 1) \<and> frame_ty (fst (is ! 0)) = PairReq \<and>
     confirm_authentic demo_deps demo_pc_pairing f2 peer inp"
proof -
  obtain req p1 ack sas conf p2 rec where x:
    "PcPairing_on_frame demo_deps demo_pc_pairing req 5000 (Some (replicate 32 4)) = (p1, [PSend ack, ShowSas sas])"
    "PcPairing_on_frame demo_deps p1 conf 7000 None = (p2, [Completed rec])"
    using pairing_run_example by blast
  let ?is = "[(req, 5000, Some (replicate 32 4)), (conf, 7000, None)]"
  have "Completed rec \<in> set (concat (snd (run (pc_step demo_deps) demo_pc_pairing ?is)))"
    using x by (simp add: pc_step_def)
  from pc_records_only_on_proof [OF this [unfolded demo_pc_pairing_def]]
  show ?thesis unfolding demo_pc_pairing_def [symmetric] by (intro exI [of _ ?is]) auto
qed

text \<open>
  C20: The phone confirms only after the user did. Whatever frames arrive and whatever the user
  does, in any order: a phone in pairing sends nothing except in the very step in which the user
  confirms, and only if in an earlier step a frame made it show emoji to compare. That step's
  actions are one frame and the record of the PC whose code was scanned, and leave the phone
  done; no other step, before or after, sends anything, so one frame is sent in all.
\<close>

theorem phone_confirms_only_after_user:
  assumes "PhonePairing_start d me name qr rnd = Inr (p, req)"
    and "j < length is" "PSend f \<in> set (snd (run (phone_step d) p is) ! j)"
  shows "(\<exists>now. is ! j = Confirm now) \<and>
    (\<exists>i < j. \<exists>g sas. is ! i = InFrame g \<and> snd (run (phone_step d) p is) ! i = [ShowSas sas]) \<and>
    php_state (fst (run (phone_step d) p (take (Suc j) is))) = PhoneDone \<and>
    (\<exists>now. is ! j = Confirm now \<and> snd (run (phone_step d) p is) ! j = [PSend f, Completed
       (PairingRecord_new d (qr_device_id qr) (qr_public_key qr) (qr_display_name qr) now)]) \<and>
    (\<forall>k < length is. k \<noteq> j \<longrightarrow> (\<forall>g. PSend g \<notin> set (snd (run (phone_step d) p is) ! k)))"
proof -
  let ?q = "fst (run (phone_step d) p (take j is))"
  have p: "php_state p = AwaitingAck"
    using assms(1) by (auto simp: PhonePairing_start_def PhonePairing_start_with_ephemeral_def try_r_eq_Inr)
  have qr: "php_qr p = qr"
    using assms(1) by (auto simp: PhonePairing_start_def PhonePairing_start_with_ephemeral_def try_r_eq_Inr)
  have s: "PSend f \<in> set (snd (phone_step d ?q (is ! j)))"
    using assms(2,3) by (simp add: run_nth)
  note sends = phone_sends [OF s]
  obtain i g sas where i: "i < j" "take j is ! i = InFrame g"
      "snd (run (phone_step d) p (take j is)) ! i = [ShowSas sas]"
    using compare_was_shown [of d p "take j is"] sends p assms(2) by auto
  have "is = take j is @ is ! j # drop (Suc j) is" using assms(2) by (simp add: id_take_nth_drop)
  then have shown: "snd (run (phone_step d) p is) ! i = [ShowSas sas]"
    using i assms(2) run_append(2) [of "phone_step d" p "take j is" "is ! j # drop (Suc j) is"]
    by (simp add: nth_append)
  have after: "fst (run (phone_step d) p (take (Suc j) is)) = fst (phone_step d ?q (is ! j))"
    using assms(2) by (simp add: take_Suc_conv_app_nth run_append)
  have only: "k = j" if k: "k < length is" "PSend g \<in> set (snd (run (phone_step d) p is) ! k)" for k g
    using only_one_send [OF assms(2) k(1) assms(3) k(2)] by simp
  obtain now where now: "is ! j = Confirm now" "snd (run (phone_step d) p is) ! j = [PSend f, Completed
      (PairingRecord_new d (qr_device_id qr) (qr_public_key qr) (qr_display_name qr) now)]"
    using sends unfolding run_nth [OF assms(2)] phone_run_qr qr by blast
  have frame: "is ! i = InFrame g" using i(1,2) by simp
  have ended: "php_state (fst (run (phone_step d) p (take (Suc j) is))) = PhoneDone"
    unfolding after using sends by blast
  show ?thesis using now frame shown ended i(1) only by blast
qed

theorem phone_confirms_only_after_user_witness:
  "\<exists>p req ack f. PhonePairing_start demo_deps (IdentityKeypair_from_seed demo_deps (replicate 32 1)) (lit ''iPhone'')
      (PcPairing_qr_payload demo_deps demo_pc_pairing) (Some (replicate 32 3)) = Inr (p, req) \<and>
     PSend f \<in> set (snd (run (phone_step demo_deps) p [InFrame ack, Confirm 6000, Confirm 6001]) ! 1) \<and>
     (\<forall>g. PSend g \<notin> set (snd (run (phone_step demo_deps) p [InFrame ack, Confirm 6000, Confirm 6001]) ! 2))"
proof -
  obtain ph req ack sas ph1 ph2 conf rec where x:
    "PhonePairing_start demo_deps (IdentityKeypair_from_seed demo_deps (replicate 32 1)) (lit ''iPhone'')
      (PcPairing_qr_payload demo_deps demo_pc_pairing) (Some (replicate 32 3)) = Inr (ph, req)"
    "PhonePairing_on_frame demo_deps ph ack = (ph1, [ShowSas sas])"
    "confirm_sas demo_deps ph1 6000 = (ph2, [PSend conf, rec])"
    using pairing_run_example by blast
  have sent: "PSend conf \<in> set (snd (run (phone_step demo_deps) ph [InFrame ack, Confirm 6000, Confirm 6001]) ! 1)"
    using x(2,3) by simp
  have "\<forall>g. PSend g \<notin> set (snd (run (phone_step demo_deps) ph [InFrame ack, Confirm 6000, Confirm 6001]) ! 2)"
    using phone_confirms_only_after_user [OF x(1) _ sent, THEN conjunct2, THEN conjunct2, THEN conjunct2, THEN conjunct2,
        rule_format, of 2] by simp
  with x(1) sent show ?thesis by blast
qed

text \<open>
  A failed pairing stays failed. Each machine, fed any frames: up to some point it reports
  no failure; from the first failure on, every frame is answered by a failure and nothing else,
  so a PC or a phone that gave up neither sends, nor shows emoji, nor records anything.
\<close>

theorem pairing_failure_is_final:
  assumes "pcp_state (fst (run (pc_step d) p is)) = PcFailed"
    and "php_state (fst (run (PhonePairing_on_frame d) q fs)) = PhoneFailed"
  shows "(\<exists>tail. snd (run (pc_step d) p (is @ js)) = snd (run (pc_step d) p is) @ tail \<and>
      list_all (list_all is_failed) tail) \<and>
    (\<exists>tail. snd (run (PhonePairing_on_frame d) q (fs @ gs)) = snd (run (PhonePairing_on_frame d) q fs) @ tail \<and>
      list_all (list_all is_failed) tail)"
  using pc_pairing.silent_after_close [OF assms(1), of js]
    phone_pairing.silent_after_close [OF assms(2), of gs] by simp

theorem pairing_failure_is_final_witness:
  "\<exists>tail. snd (run (pc_step demo_deps) demo_pc_pairing
      ([(Frame_new Ping [], 0, None)] @ [(Frame_new PairReq [], 0, None)])) =
    snd (run (pc_step demo_deps) demo_pc_pairing [(Frame_new Ping [], 0, None)]) @ tail \<and>
    list_all (list_all is_failed) tail"
proof (rule pairing_failure_is_final [THEN conjunct1])
  show "pcp_state (fst (run (pc_step demo_deps) demo_pc_pairing [(Frame_new Ping [], 0, None)])) = PcFailed"
    by (simp add: pc_step_def PcPairing_on_frame_def demo_pc_pairing_def PcPairing_with_token_def)
  show "php_state (fst (run (PhonePairing_on_frame demo_deps)
      \<lparr> php_identity = IdentityKeypair_from_seed demo_deps [], php_display_name = [], php_qr = PcPairing_qr_payload demo_deps demo_pc_pairing,
        php_eph = EphemeralKeypair_from_seed demo_deps [], php_state = AwaitingAck, php_sas_input = None \<rparr>
      [Frame_new Ping []])) = PhoneFailed"
    by (simp add: PhonePairing_on_frame_def)
qed

text \<open>
  The QR code carries its payload. Encoding a well-formed payload as a URL and parsing it
  returns the payload: version, identifier, key, display name in any script, the host list and
  the token.
\<close>

theorem qr_code_roundtrip:
  assumes "base64_faithful d" "hex_faithful d" "url_faithful d" "fixed_widths d" "qr_ok d q"
  shows "QrPayload_parse d (QrPayload_to_url d q) = Inr q"
  using assms by (rule qr_roundtrip_lemma)

theorem qr_code_roundtrip_witness:
  "QrPayload_parse demo_deps (PcPairing_qr_url demo_deps demo_pc_pairing) =
     Inr (PcPairing_qr_payload demo_deps demo_pc_pairing)"
  unfolding PcPairing_qr_url_def
  by (rule qr_code_roundtrip [OF demo_text(2,1) demo_url deps_okD(2) [OF demo_deps_ok]])
    (simp add: qr_ok_def PcPairing_qr_payload_def demo_pc_pairing_def PcPairing_with_token_def
      IdentityKeypair_device_id_def IdentityKeypair_public_bytes_def IdentityKeypair_from_seed_def
      demo_deps_def valid_str_def valid_char_def lit_def)

text \<open>
  A parsed code is consistent. Whatever URL is scanned and however the parameters are
  ordered or repeated: if parsing succeeds, the version is this protocol's, the key is 32 bytes
  and the token 16, the device identifier is the one the key hashes to, and no host entry is
  empty or contains a comma.
\<close>

theorem parsed_qr_is_consistent:
  assumes "QrPayload_parse d url = Inr q"
  shows "qr_version q = PROTOCOL_VERSION \<and> length (qr_public_key q) = 32 \<and>
    length (qr_pair_token q) = 16 \<and> qr_device_id q = device_id_from_pk d (qr_public_key q) \<and>
    (\<forall>h \<in> set (qr_hosts q). h \<noteq> [] \<and> 44 \<notin> set h)"
proof -
  obtain kvs st where st: "qr_params d kvs \<lparr> qf_version = None, qf_device_id = None, qf_public_key = None,
        qf_display_name = [], qf_hosts = [], qf_pair_token = None \<rparr> = Inr st"
    and q: "qr_version q = PROTOCOL_VERSION" "qr_device_id q = device_id_from_pk d (qr_public_key q)"
    "qf_public_key st = Some (qr_public_key q)" "qf_pair_token st = Some (qr_pair_token q)"
    "qr_hosts q = qf_hosts st"
    using assms by (fastforce simp: QrPayload_parse_def try_r_eq_Inr split: sum.splits if_splits)
  from qr_params_inv [OF st] q show ?thesis by (simp add: qf_inv_def)
qed

theorem parsed_qr_is_consistent_witness:
  "qr_version (PcPairing_qr_payload demo_deps demo_pc_pairing) = PROTOCOL_VERSION"
proof -
  have "QrPayload_parse demo_deps (PcPairing_qr_url demo_deps demo_pc_pairing) =
     Inr (PcPairing_qr_payload demo_deps demo_pc_pairing)"
    unfolding PcPairing_qr_url_def
    by (rule qr_roundtrip_lemma [OF demo_text(2,1) demo_url deps_okD(2) [OF demo_deps_ok]])
      (simp add: qr_ok_def PcPairing_qr_payload_def demo_pc_pairing_def PcPairing_with_token_def
        IdentityKeypair_device_id_def IdentityKeypair_public_bytes_def IdentityKeypair_from_seed_def
        demo_deps_def valid_str_def valid_char_def lit_def)
  from parsed_qr_is_consistent [OF this] show ?thesis by simp
qed

end
