(* ===== verification/Keystore.thy ===== *)
theory Keystore
  imports Pairing
begin

text \<open>
  Identity and pairing persistence of the Windows agent (\<open>keystore.rs\<close>). The directory is a
  map from file names to contents. DPAPI and serde\_json are parameters of the model, collected
  in \<open>platform\<close>; what the operating system answers to a read, write or rename is an argument,
  so that every early return of the source is a branch. A failed write may leave any
  partial contents in the temporary file.

  Errors are \<open>anyhow\<close> messages. The interface \<open>record_store\<close> states what a store of records
  keyed by device promises; it is interpreted here on the files and in the FFI theory on the
  phone's in-memory list.
\<close>

section \<open>Platform\<close>

type_synonym 'a anyhow = "rstr + 'a"
type_synonym fs = "string \<rightharpoonup> bytes"

record platform =
  crypt_protect :: "bytes \<Rightarrow> rstr + bytes"
  crypt_unprotect :: "bytes \<Rightarrow> rstr + bytes"
  json_to_vec :: "PairingRecord list \<Rightarrow> rstr + bytes"
  json_from_slice :: "bytes \<Rightarrow> rstr + PairingRecord list"

text \<open>Failures of the operating system, per file name; a failed write leaves partial contents.\<close>

record io_faults =
  io_read :: "string \<Rightarrow> rstr option"
  io_write :: "string \<Rightarrow> (bytes \<times> rstr) option"
  io_rename :: "string \<Rightarrow> rstr option"

definition no_faults :: io_faults where
  "no_faults = \<lparr> io_read = (\<lambda>f. None), io_write = (\<lambda>f. None), io_rename = (\<lambda>f. None) \<rparr>"

definition dpapi_faithful :: "platform \<Rightarrow> bool" where
  "dpapi_faithful w \<longleftrightarrow>
     (\<forall>b. \<exists>s. crypt_protect w b = Inr s \<and> s \<noteq> [] \<and> crypt_unprotect w s = Inr b)"

definition json_faithful :: "platform \<Rightarrow> bool" where
  "json_faithful w \<longleftrightarrow> (\<forall>rs. \<exists>b. json_to_vec w rs = Inr b \<and> json_from_slice w b = Inr rs)"

section \<open>Files\<close>

definition IDENTITY_FILE :: string where "IDENTITY_FILE = ''identity.bin''"
definition PAIRINGS_FILE :: string where "PAIRINGS_FILE = ''pairings.bin''"

text \<open>\<open>Path::with_extension\<close> on a name that has one: replace what follows the last dot.\<close>

definition with_extension :: "string \<Rightarrow> string \<Rightarrow> string" where
  "with_extension name ext = rev (dropWhile (\<lambda>c. c \<noteq> CHR ''.'') (rev name)) @ ext"

definition fs_read :: "io_faults \<Rightarrow> fs \<Rightarrow> string \<Rightarrow> bytes anyhow" where
  "fs_read io fs name =
     (case io_read io name of
        Some e \<Rightarrow> Inl e
      | None \<Rightarrow> ok_or (fs name) (lit ''file not found''))"

definition write_atomic :: "io_faults \<Rightarrow> fs \<Rightarrow> string \<Rightarrow> bytes \<Rightarrow> fs \<times> unit anyhow" where
  "write_atomic io fs path b =
     (let tmp = with_extension path ''tmp'' in
      case io_write io tmp of
        Some (partial, e) \<Rightarrow> (fs(tmp \<mapsto> partial), Inl e)
      | None \<Rightarrow>
          let fs1 = fs(tmp \<mapsto> b) in
          (case io_rename io tmp of
             Some e \<Rightarrow> (fs1, Inl e)
           | None \<Rightarrow> (fs1(path \<mapsto> b, tmp := None), Inr ())))"

definition protect :: "platform \<Rightarrow> bytes \<Rightarrow> bytes anyhow" where
  "protect w plain =
     try_r (crypt_protect w plain) (\<lambda>sealed.
       if sealed = [] then Inl (lit ''CryptProtectData returned an empty blob'') else Inr sealed)"

definition unprotect :: "platform \<Rightarrow> bytes \<Rightarrow> bytes anyhow" where
  "unprotect w sealed = crypt_unprotect w sealed"

definition seal :: "platform \<Rightarrow> bytes \<Rightarrow> bytes anyhow" where
  "seal w plain = protect w plain"

definition unseal :: "platform \<Rightarrow> bytes \<Rightarrow> bytes anyhow" where
  "unseal w sealed = unprotect w sealed"

text \<open>\<open>anyhow::Context::context\<close> replaces the message shown.\<close>

definition context_r :: "'a anyhow \<Rightarrow> string \<Rightarrow> 'a anyhow" where
  "context_r r msg = (case r of Inl e \<Rightarrow> Inl (lit msg) | Inr v \<Rightarrow> Inr v)"

section \<open>The directory\<close>

text \<open>
  \<open>PathBuf::join\<close> with a relative path on Windows: a separator goes in between unless the base is
  empty, ends with one, or is a bare drive.
\<close>

definition path_join :: "rstr \<Rightarrow> string \<Rightarrow> rstr" where
  "path_join base rel =
     (let bare_drive = (length base = 2 \<and> base ! 1 = 58 \<and>
            (65 \<le> base ! 0 \<and> base ! 0 \<le> 90 \<or> 97 \<le> base ! 0 \<and> base ! 0 \<le> 122))
      in if base = [] \<or> last base = 92 \<or> last base = 47 \<or> bare_drive then base @ lit rel
         else base @ [92] @ lit rel)"

text \<open>
  Opening the store, on the environment variables \<open>LOCALAPPDATA\<close> and \<open>HOME\<close>, and on what creating
  the directory answered. The files of the other operations are those of the directory opened.
\<close>

definition dirs_fallback :: "rstr option \<Rightarrow> rstr option" where
  "dirs_fallback home = map_option (\<lambda>h. path_join h ''.local/share'') home"

definition Keystore_open :: "rstr option \<Rightarrow> rstr option \<Rightarrow> (rstr \<Rightarrow> rstr option) \<Rightarrow> rstr anyhow" where
  "Keystore_open localappdata home create_dir_all =
     try_r (ok_or (case localappdata of Some p \<Rightarrow> Some p | None \<Rightarrow> dirs_fallback home)
              (lit ''cannot determine LOCALAPPDATA'')) (\<lambda>base.
       let dir = path_join base ''AirClip'' in
       (case create_dir_all dir of
          Some e \<Rightarrow> Inl (lit ''creating '' @ dir)
        | None \<Rightarrow> Inr dir))"

definition Keystore_at :: "rstr \<Rightarrow> (rstr \<Rightarrow> rstr option) \<Rightarrow> rstr anyhow" where
  "Keystore_at dir create_dir_all = (case create_dir_all dir of Some e \<Rightarrow> Inl e | None \<Rightarrow> Inr dir)"

section \<open>Identity\<close>

definition load_or_create_identity ::
  "deps \<Rightarrow> platform \<Rightarrow> io_faults \<Rightarrow> fs \<Rightarrow> bytes option \<Rightarrow> fs \<times> IdentityKeypair anyhow" where
  "load_or_create_identity d w io fs rnd =
     (if fs IDENTITY_FILE \<noteq> None then
        (fs,
         try_r (fs_read io fs IDENTITY_FILE) (\<lambda>sealed.
         try_r (context_r (unseal w sealed) ''unsealing identity (wrong Windows user?)'') (\<lambda>seed.
           if length seed \<noteq> 32 then Inl (lit ''identity seed must be 32 bytes'')
           else Inr (IdentityKeypair_from_seed d seed))))
      else
        (case IdentityKeypair_generate d rnd of
           Inl e \<Rightarrow> (fs, Inl (lit ''crypto failure''))
         | Inr identity \<Rightarrow>
             (case seal w (IdentityKeypair_secret_bytes identity) of
                Inl e \<Rightarrow> (fs, Inl e)
              | Inr sealed \<Rightarrow>
                  (case write_atomic io fs IDENTITY_FILE sealed of
                     (fs', Inl e) \<Rightarrow> (fs', Inl e)
                   | (fs', Inr u) \<Rightarrow> (fs', Inr identity)))))"

section \<open>Pairings\<close>

definition load_pairings :: "platform \<Rightarrow> io_faults \<Rightarrow> fs \<Rightarrow> PairingRecord list anyhow" where
  "load_pairings w io fs =
     (if fs PAIRINGS_FILE = None then Inr []
      else
        try_r (fs_read io fs PAIRINGS_FILE) (\<lambda>sealed.
        try_r (context_r (unseal w sealed) ''unsealing pairings'') (\<lambda>json.
          json_from_slice w json)))"

definition save_pairings ::
  "platform \<Rightarrow> io_faults \<Rightarrow> fs \<Rightarrow> PairingRecord list \<Rightarrow> fs \<times> unit anyhow" where
  "save_pairings w io fs records =
     (case json_to_vec w records of
        Inl e \<Rightarrow> (fs, Inl e)
      | Inr json \<Rightarrow>
          (case seal w json of
             Inl e \<Rightarrow> (fs, Inl e)
           | Inr sealed \<Rightarrow> write_atomic io fs PAIRINGS_FILE sealed))"

definition upsert_pairing ::
  "platform \<Rightarrow> io_faults \<Rightarrow> fs \<Rightarrow> PairingRecord \<Rightarrow> fs \<times> PairingRecord list anyhow" where
  "upsert_pairing w io fs record =
     (let all = unwrap_or (load_pairings w io fs) [];
          all = filter (\<lambda>r. pr_device_id r \<noteq> pr_device_id record) all @ [record]
      in case save_pairings w io fs all of
           (fs', Inl e) \<Rightarrow> (fs', Inl e)
         | (fs', Inr u) \<Rightarrow> (fs', Inr all))"

definition remove_pairing ::
  "platform \<Rightarrow> io_faults \<Rightarrow> fs \<Rightarrow> rstr \<Rightarrow> fs \<times> PairingRecord list anyhow" where
  "remove_pairing w io fs device_id_hex =
     (let all = unwrap_or (load_pairings w io fs) [];
          all = filter (\<lambda>r. pr_device_id r \<noteq> device_id_hex) all
      in case save_pairings w io fs all of
           (fs', Inl e) \<Rightarrow> (fs', Inl e)
         | (fs', Inr u) \<Rightarrow> (fs', Inr all))"

section \<open>Stores of records by key\<close>

datatype ('k, 'r) store_op = Put 'r | Del 'k

fun store_apply :: "('s \<Rightarrow> 'r \<Rightarrow> 's) \<Rightarrow> ('s \<Rightarrow> 'k \<Rightarrow> 's) \<Rightarrow> 's \<Rightarrow> ('k, 'r) store_op \<Rightarrow> 's" where
  "store_apply put del s (Put r) = put s r"
| "store_apply put del s (Del k) = del s k"

fun map_apply :: "('r \<Rightarrow> 'k) \<Rightarrow> ('k \<rightharpoonup> 'r) \<Rightarrow> ('k, 'r) store_op \<Rightarrow> ('k \<rightharpoonup> 'r)" where
  "map_apply key m (Put r) = m(key r \<mapsto> r)"
| "map_apply key m (Del k) = m(k := None)"

locale record_store =
  fixes lookup :: "'s \<Rightarrow> 'k \<Rightarrow> 'r option"
    and put :: "'s \<Rightarrow> 'r \<Rightarrow> 's"
    and del :: "'s \<Rightarrow> 'k \<Rightarrow> 's"
    and key :: "'r \<Rightarrow> 'k"
    and inv :: "'s \<Rightarrow> bool"
  assumes put_inv: "inv s \<Longrightarrow> inv (put s r)"
    and del_inv: "inv s \<Longrightarrow> inv (del s k)"
    and lookup_put: "inv s \<Longrightarrow> lookup (put s r) k = (if k = key r then Some r else lookup s k)"
    and lookup_del: "inv s \<Longrightarrow> lookup (del s j) k = (if k = j then None else lookup s k)"
begin

lemma refines_map:
  "inv s \<Longrightarrow> inv (foldl (store_apply put del) s ops) \<and>
     lookup (foldl (store_apply put del) s ops) = foldl (map_apply key) (lookup s) ops"
proof (induction ops arbitrary: s)
  case (Cons x ops)
  have "inv (store_apply put del s x)" using Cons.prems by (cases x) (simp_all add: put_inv del_inv)
  moreover have "lookup (store_apply put del s x) = map_apply key (lookup s) x"
    using Cons.prems by (cases x) (auto simp: lookup_put lookup_del)
  ultimately show ?case using Cons.IH [of "store_apply put del s x"] by simp
qed simp

end

text \<open>Looking a record up in a list: the first entry with the key.\<close>

definition record_for :: "PairingRecord list \<Rightarrow> rstr \<Rightarrow> PairingRecord option" where
  "record_for rs k = find (\<lambda>r. pr_device_id r = k) rs"

lemma record_for_put:
  "record_for (filter (\<lambda>r. pr_device_id r \<noteq> pr_device_id x) rs @ [x]) k =
     (if k = pr_device_id x then Some x else record_for rs k)"
  by (induction rs) (auto simp: record_for_def)

lemma record_for_del:
  "record_for (filter (\<lambda>r. pr_device_id r \<noteq> j) rs) k = (if k = j then None else record_for rs k)"
  by (induction rs) (auto simp: record_for_def)

section \<open>The files as a store\<close>

lemma tmp_names [simp]:
  "with_extension PAIRINGS_FILE ''tmp'' \<noteq> PAIRINGS_FILE"
  "with_extension IDENTITY_FILE ''tmp'' \<noteq> IDENTITY_FILE"
  "with_extension PAIRINGS_FILE ''tmp'' \<noteq> IDENTITY_FILE"
  "with_extension IDENTITY_FILE ''tmp'' \<noteq> PAIRINGS_FILE"
  "PAIRINGS_FILE \<noteq> IDENTITY_FILE"
  by (simp_all add: with_extension_def PAIRINGS_FILE_def IDENTITY_FILE_def)

definition platform_ok :: "platform \<Rightarrow> bool" where
  "platform_ok w \<longleftrightarrow> dpapi_faithful w \<and> json_faithful w"

text \<open>A directory whose pairing file, if any, can be read.\<close>

definition readable :: "platform \<Rightarrow> fs \<Rightarrow> bool" where
  "readable w fs \<longleftrightarrow> platform_ok w \<and> is_ok (load_pairings w no_faults fs)"

lemma save_then_load:
  assumes "platform_ok w"
  shows "\<exists>sealed. save_pairings w no_faults fs rs =
      (fs(with_extension PAIRINGS_FILE ''tmp'' := None, PAIRINGS_FILE \<mapsto> sealed), Inr ()) \<and>
    load_pairings w no_faults (fs(with_extension PAIRINGS_FILE ''tmp'' := None, PAIRINGS_FILE \<mapsto> sealed)) = Inr rs"
proof -
  obtain b where b: "json_to_vec w rs = Inr b" "json_from_slice w b = Inr rs"
    using assms by (auto simp: platform_ok_def json_faithful_def)
  obtain s where "crypt_protect w b = Inr s" "s \<noteq> []" "crypt_unprotect w s = Inr b"
    using assms by (auto simp: platform_ok_def dpapi_faithful_def)
  then show ?thesis
    using b tmp_names(1) [symmetric]
    by (intro exI [of _ s])
      (auto simp: save_pairings_def seal_def unseal_def protect_def unprotect_def write_atomic_def
        no_faults_def load_pairings_def fs_read_def context_r_def Let_def)
qed

lemma upsert_readable:
  assumes "readable w fs"
  shows "\<exists>rs fs'. load_pairings w no_faults fs = Inr rs \<and>
    upsert_pairing w no_faults fs r = (fs', Inr (filter (\<lambda>x. pr_device_id x \<noteq> pr_device_id r) rs @ [r])) \<and>
    load_pairings w no_faults fs' = Inr (filter (\<lambda>x. pr_device_id x \<noteq> pr_device_id r) rs @ [r])"
proof -
  obtain rs where rs: "load_pairings w no_faults fs = Inr rs"
    using assms by (cases "load_pairings w no_faults fs") (auto simp: readable_def)
  from save_then_load [of w fs "filter (\<lambda>x. pr_device_id x \<noteq> pr_device_id r) rs @ [r]"] assms rs
  show ?thesis by (auto simp: upsert_pairing_def readable_def Let_def)
qed

lemma remove_readable:
  assumes "readable w fs"
  shows "\<exists>rs fs'. load_pairings w no_faults fs = Inr rs \<and>
    remove_pairing w no_faults fs k = (fs', Inr (filter (\<lambda>x. pr_device_id x \<noteq> k) rs)) \<and>
    load_pairings w no_faults fs' = Inr (filter (\<lambda>x. pr_device_id x \<noteq> k) rs)"
proof -
  obtain rs where rs: "load_pairings w no_faults fs = Inr rs"
    using assms by (cases "load_pairings w no_faults fs") (auto simp: readable_def)
  from save_then_load [of w fs "filter (\<lambda>x. pr_device_id x \<noteq> k) rs"] assms rs
  show ?thesis by (auto simp: remove_pairing_def readable_def Let_def)
qed

definition stored :: "platform \<Rightarrow> fs \<Rightarrow> rstr \<Rightarrow> PairingRecord option" where
  "stored w fs k = record_for (unwrap_or (load_pairings w no_faults fs) []) k"

interpretation files: record_store "stored w" "\<lambda>fs r. fst (upsert_pairing w no_faults fs r)"
  "\<lambda>fs k. fst (remove_pairing w no_faults fs k)" pr_device_id "readable w" for w :: platform
proof unfold_locales
  fix fs :: fs and r :: PairingRecord and k j :: rstr
  assume inv: "readable w fs"
  obtain rs fs1 where u: "load_pairings w no_faults fs = Inr rs"
    "upsert_pairing w no_faults fs r = (fs1, Inr (filter (\<lambda>x. pr_device_id x \<noteq> pr_device_id r) rs @ [r]))"
    "load_pairings w no_faults fs1 = Inr (filter (\<lambda>x. pr_device_id x \<noteq> pr_device_id r) rs @ [r])"
    using upsert_readable [OF inv, of r] by blast
  obtain fs2 where v: "remove_pairing w no_faults fs j = (fs2, Inr (filter (\<lambda>x. pr_device_id x \<noteq> j) rs))"
    "load_pairings w no_faults fs2 = Inr (filter (\<lambda>x. pr_device_id x \<noteq> j) rs)"
    using remove_readable [OF inv, of j] u(1) by auto
  show "readable w (fst (upsert_pairing w no_faults fs r))"
    using inv u by (simp add: readable_def)
  show "stored w (fst (upsert_pairing w no_faults fs r)) k = (if k = pr_device_id r then Some r else stored w fs k)"
    using u by (simp add: stored_def record_for_put)
  show "stored w (fst (remove_pairing w no_faults fs j)) k = (if k = j then None else stored w fs k)"
    using u(1) v by (simp add: stored_def record_for_del)
next
  fix fs :: fs and k :: rstr
  assume inv: "readable w fs"
  then show "readable w (fst (remove_pairing w no_faults fs k))"
    using remove_readable [OF inv, of k] by (auto simp: readable_def)
qed

section \<open>A concrete platform\<close>

text \<open>For the examples: sealing adds a byte, and the record format is a prefix code.\<close>

fun demo_str :: "rstr \<Rightarrow> bytes" where
  "demo_str [] = [0]"
| "demo_str (c # s) = 5 # replicate c 2 @ 1 # demo_str s"

function demo_read_str :: "bytes \<Rightarrow> rstr \<times> bytes" where
  "demo_read_str [] = ([], [])"
| "demo_read_str (b # r) =
     (if b = 5 then
        let n = length (takeWhile (\<lambda>x. x = 2) r); (s, r') = demo_read_str (drop (Suc n) r)
        in (n # s, r')
      else ([], r))"
  by pat_completeness auto
termination by (relation "measure length") auto

declare demo_read_str.simps [simp del]

lemma demo_read_str_str [simp]: "demo_read_str (demo_str s @ r) = (s, r)"
proof (induction s)
  case (Cons c s)
  have "takeWhile (\<lambda>x. x = 2) (replicate c (2 :: byte) @ 1 # q) = replicate c 2" for q
    by (induction c) simp_all
  then show ?case using Cons by (simp add: demo_read_str.simps Let_def)
qed (simp add: demo_read_str.simps)

fun demo_records :: "PairingRecord list \<Rightarrow> bytes" where
  "demo_records [] = [0]"
| "demo_records (r # rs) =
     7 # u64_to_le_bytes (pr_created_at_ms r) @ u64_to_le_bytes (pr_last_seen_ms r) @
       demo_str (pr_device_id r) @ demo_str (pr_public_key r) @ demo_str (pr_display_name r) @ demo_records rs"

fun demo_read_records :: "nat \<Rightarrow> bytes \<Rightarrow> PairingRecord list" where
  "demo_read_records 0 b = []"
| "demo_read_records (Suc n) b =
     (if b \<noteq> [] \<and> hd b = 7 then
        let c = take 8 (tl b); l = take 8 (drop 9 b);
            (i, r1) = demo_read_str (drop 17 b); (k, r2) = demo_read_str r1; (nm, r3) = demo_read_str r2
        in \<lparr> pr_device_id = i, pr_public_key = k, pr_display_name = nm,
             pr_created_at_ms = u64_from_le_bytes c, pr_last_seen_ms = u64_from_le_bytes l \<rparr>
           # demo_read_records n r3
      else [])"

lemma demo_records_read: "length rs < n \<Longrightarrow> demo_read_records n (demo_records rs) = rs"
proof (induction rs arbitrary: n)
  case Nil
  then show ?case by (cases n) simp_all
next
  case (Cons r rs)
  then obtain m where n: "n = Suc m" "length rs < m" by (cases n) auto
  show ?case using Cons.IH [OF n(2)] by (cases r) (simp add: n(1) Let_def)
qed

lemma length_demo_records: "length rs < length (demo_records rs)"
  by (induction rs) simp_all

definition demo_platform :: platform where
  "demo_platform =
     \<lparr> crypt_protect = (\<lambda>b. Inr (1 # b)),
       crypt_unprotect = (\<lambda>b. if b = [] then Inl [] else Inr (tl b)),
       json_to_vec = (\<lambda>rs. Inr (demo_records rs)),
       json_from_slice = (\<lambda>b. Inr (demo_read_records (length b) b)) \<rparr>"

lemma demo_platform_ok: "platform_ok demo_platform"
  by (simp add: platform_ok_def dpapi_faithful_def json_faithful_def demo_platform_def
      demo_records_read length_demo_records)

lemma demo_readable: "readable demo_platform Map.empty"
  by (simp add: readable_def demo_platform_ok load_pairings_def)

section \<open>Properties\<close>

text \<open>
  C17: The pairing file is a map from device to record. From any readable directory and over any
  sequence of additions and removals, the file stays readable, and what it holds for a device is
  exactly what the latest operation on that device left: the record added last, or nothing.
\<close>

theorem pairings_file_is_a_map:
  assumes "readable w fs"
  shows "readable w (foldl (store_apply (\<lambda>fs r. fst (upsert_pairing w no_faults fs r))
        (\<lambda>fs k. fst (remove_pairing w no_faults fs k))) fs ops) \<and>
    stored w (foldl (store_apply (\<lambda>fs r. fst (upsert_pairing w no_faults fs r))
        (\<lambda>fs k. fst (remove_pairing w no_faults fs k))) fs ops) =
      foldl (map_apply pr_device_id) (stored w fs) ops"
  using files.refines_map [OF assms] .

definition demo_record :: "nat \<Rightarrow> PairingRecord" where
  "demo_record n = \<lparr> pr_device_id = [n], pr_public_key = [n], pr_display_name = [n],
     pr_created_at_ms = 0, pr_last_seen_ms = 0 \<rparr>"

theorem pairings_file_is_a_map_witness:
  "stored demo_platform (foldl (store_apply (\<lambda>fs r. fst (upsert_pairing demo_platform no_faults fs r))
        (\<lambda>fs k. fst (remove_pairing demo_platform no_faults fs k))) Map.empty
        [Put (demo_record 1), Put (demo_record 2), Del [1]]) [2] = Some (demo_record 2)"
  using pairings_file_is_a_map [OF demo_readable, of "[Put (demo_record 1), Put (demo_record 2), Del [1]]"]
  by (simp add: demo_record_def)

text \<open>
  C18: A failed save loses nothing. If adding or removing a pairing fails, for whatever reason
  and at whatever point, including a write that stopped half way, the pairing file and the
  identity file are exactly what they were.
\<close>

theorem failed_save_loses_nothing:
  "(case upsert_pairing w io fs r of
      (fs', Inl e) \<Rightarrow> fs' PAIRINGS_FILE = fs PAIRINGS_FILE \<and> fs' IDENTITY_FILE = fs IDENTITY_FILE
    | (fs', Inr all) \<Rightarrow> fs' IDENTITY_FILE = fs IDENTITY_FILE) \<and>
   (case remove_pairing w io fs k of
      (fs', Inl e) \<Rightarrow> fs' PAIRINGS_FILE = fs PAIRINGS_FILE \<and> fs' IDENTITY_FILE = fs IDENTITY_FILE
    | (fs', Inr all) \<Rightarrow> fs' IDENTITY_FILE = fs IDENTITY_FILE)"
proof -
  have save: "fs' IDENTITY_FILE = fs IDENTITY_FILE \<and> (is_ok x \<or> fs' PAIRINGS_FILE = fs PAIRINGS_FILE)"
    if "save_pairings w io fs rs = (fs', x)" for rs fs' x
    using that tmp_names(1,3,5) [symmetric]
    by (auto simp: save_pairings_def write_atomic_def Let_def split: sum.splits option.splits)
  show ?thesis
    by (auto simp: upsert_pairing_def remove_pairing_def Let_def split: prod.splits sum.splits dest!: save)
qed

text \<open>
  The identity is created once. On a working platform, the first call creates an identity
  from the random seed, and every later call, whatever randomness it would draw and after any
  change to the pairings, returns the same key pair.
\<close>

theorem identity_is_stable:
  assumes "platform_ok w" "fs IDENTITY_FILE = None" "length seed = 32"
    and "load_or_create_identity d w no_faults fs (Some seed) = (fs1, r)"
  shows "r = Inr (IdentityKeypair_from_seed d seed) \<and>
    load_or_create_identity d w no_faults (fst (upsert_pairing w io fs1 rec)) rnd =
      (fst (upsert_pairing w io fs1 rec), Inr (IdentityKeypair_from_seed d seed))"
proof -
  obtain s where s: "crypt_protect w seed = Inr s" "s \<noteq> []" "crypt_unprotect w s = Inr seed"
    using assms(1) by (auto simp: platform_ok_def dpapi_faithful_def)
  have r: "r = Inr (IdentityKeypair_from_seed d seed)" and fs1: "fs1 IDENTITY_FILE = Some s"
    using assms(2,4) s
    by (auto simp: load_or_create_identity_def IdentityKeypair_generate_def IdentityKeypair_secret_bytes_def
        IdentityKeypair_from_seed_def seal_def protect_def write_atomic_def no_faults_def Let_def
        tmp_names(2) [symmetric] simp del: tmp_names(2))
  have "fst (upsert_pairing w io fs1 rec) IDENTITY_FILE = fs1 IDENTITY_FILE"
    using tmp_names(3,5) [symmetric]
    by (auto simp: upsert_pairing_def save_pairings_def write_atomic_def Let_def
        split: prod.splits sum.splits option.splits)
  with fs1 s assms(3) have "load_or_create_identity d w no_faults (fst (upsert_pairing w io fs1 rec)) rnd =
      (fst (upsert_pairing w io fs1 rec), Inr (IdentityKeypair_from_seed d seed))"
    by (simp add: load_or_create_identity_def fs_read_def no_faults_def unseal_def unprotect_def context_r_def)
  with r show ?thesis by simp
qed

theorem identity_is_stable_witness:
  "\<exists>fs1. load_or_create_identity demo_deps demo_platform no_faults Map.empty (Some (replicate 32 5)) =
     (fs1, Inr (IdentityKeypair_from_seed demo_deps (replicate 32 5)))"
proof -
  obtain fs1 r where x: "load_or_create_identity demo_deps demo_platform no_faults Map.empty (Some (replicate 32 5)) = (fs1, r)"
    by fastforce
  with identity_is_stable [OF demo_platform_ok _ _ x, of no_faults "demo_record 1" None] show ?thesis by auto
qed

text \<open>
  C40: An unreadable pairing file is replaced, not kept. When the file exists but cannot be
  unsealed or parsed, adding a device succeeds and leaves that device as the only pairing: the
  error of the failed load is dropped and whatever the file held is overwritten.
\<close>

theorem unreadable_pairings_are_overwritten:
  assumes "platform_ok w" "load_pairings w no_faults fs = Inl e"
  shows "\<exists>fs'. upsert_pairing w no_faults fs r = (fs', Inr [r]) \<and> load_pairings w no_faults fs' = Inr [r]"
  using save_then_load [OF assms(1), of fs "[r]"] assms(2) by (auto simp: upsert_pairing_def Let_def)

theorem unreadable_pairings_are_overwritten_witness:
  "\<exists>fs'. upsert_pairing demo_platform no_faults [PAIRINGS_FILE \<mapsto> []] (demo_record 1) = (fs', Inr [demo_record 1]) \<and>
     load_pairings demo_platform no_faults fs' = Inr [demo_record 1]"
  by (rule unreadable_pairings_are_overwritten [OF demo_platform_ok, where e = "lit ''unsealing pairings''"])
    (simp add: load_pairings_def fs_read_def no_faults_def unseal_def unprotect_def demo_platform_def context_r_def)

end
