(* ===== verification/NetAddr.thy ===== *)
theory NetAddr
  imports RustStd
begin

text \<open>
  Socket addresses as the standard library has them (\<open>std::net\<close>): the types, \<open>Display\<close>, and
  the parser behind \<open>FromStr\<close>, which the client and the iOS boundary use on hosts that the
  Windows agent formats. The lemmas show that the parser reads back what \<open>Display\<close> writes, for
  IPv4 and for IPv6 with its compressed and its IPv4-mapped form.
\<close>

section \<open>Types\<close>

text \<open>The octets of an IPv4 address, the eight 16-bit segments of an IPv6 one.\<close>

datatype IpAddr = V4 bytes | V6 "u16 list"

type_synonym SocketAddr = "IpAddr \<times> u16"

definition ip_wf :: "IpAddr \<Rightarrow> bool" where
  "ip_wf a = (case a of V4 bs \<Rightarrow> length bs = 4 | V6 ss \<Rightarrow> length ss = 8)"

section \<open>Display\<close>

definition show_octets :: "bytes \<Rightarrow> rstr" where
  "show_octets bs = join_with 46 (map (\<lambda>b. show_nat (unat b)) bs)"

fun show_hex :: "nat \<Rightarrow> rstr" where
  "show_hex n = (if n < 16 then [hex_digit n] else show_hex (n div 16) @ [hex_digit (n mod 16)])"

declare show_hex.simps [simp del]

definition show_segments :: "u16 list \<Rightarrow> rstr" where
  "show_segments ss = join_with 58 (map (\<lambda>w. show_hex (unat w)) ss)"

text \<open>The first longest run of zero segments: its start and length.\<close>

definition zero_run :: "u16 list \<Rightarrow> nat" where
  "zero_run ss = length (takeWhile (\<lambda>w. w = 0) ss)"

fun longest_zeros :: "nat \<Rightarrow> u16 list \<Rightarrow> nat \<times> nat \<Rightarrow> nat \<times> nat" where
  "longest_zeros i [] best = best"
| "longest_zeros i (w # ws) best =
     longest_zeros (Suc i) ws (if zero_run (w # ws) > snd best then (i, zero_run (w # ws)) else best)"

definition show_v6 :: "u16 list \<Rightarrow> rstr" where
  "show_v6 ss =
     (if take 6 ss = [0, 0, 0, 0, 0, 0xFFFF] then
        lit ''::ffff:'' @ show_octets (concat (map (\<lambda>w. [ucast (drop_bit 8 w), ucast w]) (drop 6 ss)))
      else
        let (s, n) = longest_zeros 0 ss (0, 0) in
        if n > 1 then show_segments (take s ss) @ lit ''::'' @ show_segments (drop (s + n) ss)
        else show_segments ss)"

definition IpAddr_to_string :: "IpAddr \<Rightarrow> rstr" where
  "IpAddr_to_string a = (case a of V4 bs \<Rightarrow> show_octets bs | V6 ss \<Rightarrow> show_v6 ss)"

section \<open>The parser\<close>

text \<open>A parser returns the value read and the rest of the input, or nothing.\<close>

type_synonym 'a parser = "rstr \<Rightarrow> ('a \<times> rstr) option"

definition to_digit :: "nat \<Rightarrow> rchar \<Rightarrow> nat option" where
  "to_digit radix c =
     (let v = (if 48 \<le> c \<and> c \<le> 57 then Some (c - 48)
               else if 97 \<le> c \<and> c \<le> 122 then Some (c - 87)
               else if 65 \<le> c \<and> c \<le> 90 then Some (c - 55) else None)
      in case v of None \<Rightarrow> None | Some n \<Rightarrow> if n < radix then Some n else None)"

definition digit_run :: "nat \<Rightarrow> rstr \<Rightarrow> rstr" where
  "digit_run radix s = takeWhile (\<lambda>c. to_digit radix c \<noteq> None) s"

definition digit_value :: "nat \<Rightarrow> rstr \<Rightarrow> nat" where
  "digit_value radix ds = foldl (\<lambda>acc c. acc * radix + the (to_digit radix c)) 0 ds"

text \<open>\<open>read_number\<close>: at most \<open>max_digits\<close> digits if given, below \<open>limit\<close> (the width of the type).\<close>

definition read_number :: "nat \<Rightarrow> nat option \<Rightarrow> bool \<Rightarrow> nat \<Rightarrow> nat parser" where
  "read_number radix max_digits allow_zero_prefix limit s =
     (let ds = digit_run radix s; v = digit_value radix ds in
      if ds = [] then None
      else if (case max_digits of Some n \<Rightarrow> length ds > n | None \<Rightarrow> False) then None
      else if \<not> allow_zero_prefix \<and> hd ds = 48 \<and> length ds > 1 then None
      else if v \<ge> limit then None
      else Some (v, drop (length ds) s))"

fun read_given_char :: "rchar \<Rightarrow> unit parser" where
  "read_given_char c [] = None"
| "read_given_char c (x # s) = (if x = c then Some ((), s) else None)"

definition read_separator :: "rchar \<Rightarrow> nat \<Rightarrow> 'a parser \<Rightarrow> 'a parser" where
  "read_separator sep index inner s =
     (if index > 0
      then (case read_given_char sep s of None \<Rightarrow> None | Some (u, r) \<Rightarrow> inner r)
      else inner s)"

fun read_octets :: "nat \<Rightarrow> nat \<Rightarrow> bytes parser" where
  "read_octets i 0 s = Some ([], s)"
| "read_octets i (Suc k) s =
     (case read_separator 46 i (read_number 10 (Some 3) False 256) s of
        None \<Rightarrow> None
      | Some (v, r) \<Rightarrow>
          (case read_octets (Suc i) k r of
             None \<Rightarrow> None
           | Some (bs, r') \<Rightarrow> Some (of_nat v # bs, r')))"

definition read_ipv4_addr :: "bytes parser" where
  "read_ipv4_addr = read_octets 0 4"

text \<open>
  \<open>read_groups\<close> with \<open>i\<close> groups read and room for \<open>k\<close> more: the groups, whether they end in
  an embedded IPv4 address, the rest.
\<close>

fun read_groups :: "nat \<Rightarrow> nat \<Rightarrow> rstr \<Rightarrow> u16 list \<times> bool \<times> rstr" where
  "read_groups i 0 s = ([], False, s)"
| "read_groups i (Suc k) s =
     (case (if k \<ge> 1 then read_separator 58 i read_ipv4_addr s else None) of
        Some (bs, r) \<Rightarrow>
          ([push_bit 8 (ucast (bs ! 0)) + ucast (bs ! 1), push_bit 8 (ucast (bs ! 2)) + ucast (bs ! 3)], True, r)
      | None \<Rightarrow>
          (case read_separator 58 i (read_number 16 (Some 4) True 65536) s of
             None \<Rightarrow> ([], False, s)
           | Some (g, r) \<Rightarrow>
               (case read_groups (Suc i) k r of (gs, v4, r') \<Rightarrow> (of_nat g # gs, v4, r'))))"

definition read_ipv6_addr :: "u16 list parser" where
  "read_ipv6_addr s =
     (case read_groups 0 8 s of
        (head, head_v4, r) \<Rightarrow>
          if length head = 8 then Some (head, r)
          else if head_v4 then None
          else
            (case read_given_char 58 r of
               None \<Rightarrow> None
             | Some (u, r1) \<Rightarrow>
                 (case read_given_char 58 r1 of
                    None \<Rightarrow> None
                  | Some (u, r2) \<Rightarrow>
                      (case read_groups 0 (8 - (length head + 1)) r2 of
                         (tail, v4, r3) \<Rightarrow>
                           Some (head @ replicate (8 - length head - length tail) 0 @ tail, r3)))))"

definition read_port :: "u16 parser" where
  "read_port s =
     (case read_given_char 58 s of
        None \<Rightarrow> None
      | Some (u, r) \<Rightarrow>
          (case read_number 10 None True 65536 r of None \<Rightarrow> None | Some (n, r') \<Rightarrow> Some (of_nat n, r')))"

text \<open>\<open>%\<close> and a scope identifier of 32 bits; without one, the input is left alone.\<close>

definition skip_scope_id :: "rstr \<Rightarrow> rstr" where
  "skip_scope_id s =
     (case read_given_char 37 s of
        None \<Rightarrow> s
      | Some (u, r) \<Rightarrow>
          (case read_number 10 None True 4294967296 r of None \<Rightarrow> s | Some (n, r') \<Rightarrow> r'))"

definition read_socket_addr_v4 :: "SocketAddr parser" where
  "read_socket_addr_v4 s =
     (case read_ipv4_addr s of
        None \<Rightarrow> None
      | Some (bs, r) \<Rightarrow> (case read_port r of None \<Rightarrow> None | Some (p, r') \<Rightarrow> Some ((V4 bs, p), r')))"

definition read_socket_addr_v6 :: "SocketAddr parser" where
  "read_socket_addr_v6 s =
     (case read_given_char 91 s of
        None \<Rightarrow> None
      | Some (u, r) \<Rightarrow>
          (case read_ipv6_addr r of
             None \<Rightarrow> None
           | Some (ss, r1) \<Rightarrow>
               (case read_given_char 93 (skip_scope_id r1) of
                  None \<Rightarrow> None
                | Some (u, r2) \<Rightarrow>
                    (case read_port r2 of None \<Rightarrow> None | Some (p, r3) \<Rightarrow> Some ((V6 ss, p), r3)))))"

text \<open>\<open>FromStr\<close>: the whole input must be read. The scope of a parsed address is not modelled.\<close>

definition SocketAddr_parse :: "rstr \<Rightarrow> SocketAddr option" where
  "SocketAddr_parse s =
     (case (case read_socket_addr_v4 s of Some x \<Rightarrow> Some x | None \<Rightarrow> read_socket_addr_v6 s) of
        Some (a, []) \<Rightarrow> Some a
      | _ \<Rightarrow> None)"

definition IpAddr_parse :: "rstr \<Rightarrow> IpAddr option" where
  "IpAddr_parse s =
     (case (case read_ipv4_addr s of
              Some (bs, r) \<Rightarrow> Some (V4 bs, r)
            | None \<Rightarrow> map_option (\<lambda>(ss, r). (V6 ss, r)) (read_ipv6_addr s)) of
        Some (a, []) \<Rightarrow> Some a
      | _ \<Rightarrow> None)"

section \<open>Numbers read back\<close>

abbreviation not_digit :: "nat \<Rightarrow> rstr \<Rightarrow> bool" where
  "not_digit radix r \<equiv> r = [] \<or> to_digit radix (hd r) = None"

lemma digit_run_append:
  assumes "list_all (\<lambda>c. to_digit radix c \<noteq> None) ds" "not_digit radix r"
  shows "digit_run radix (ds @ r) = ds"
  using assms by (cases r) (auto simp: digit_run_def list_all_iff takeWhile_append2)

lemma digit_value_append [simp]:
  "digit_value radix (ds @ [c]) = digit_value radix ds * radix + the (to_digit radix c)"
  by (simp add: digit_value_def)

lemma to_digit_decimal [simp]: "n < 10 \<Longrightarrow> to_digit 10 (48 + n) = Some n"
  by (simp add: to_digit_def)

lemma to_digit_hex [simp]: "n < 16 \<Longrightarrow> to_digit 16 (hex_digit n) = Some n"
  by (simp add: to_digit_def hex_digit_def)

lemma show_nat_read:
  "list_all (\<lambda>c. to_digit 10 c \<noteq> None) (show_nat n) \<and> digit_value 10 (show_nat n) = n"
proof (induction n rule: show_nat.induct)
  case (1 n)
  show ?case
    using 1 by (subst (1 2) show_nat.simps) (auto simp: digit_value_def)
qed

lemma show_nat_head: "0 < n \<Longrightarrow> hd (show_nat n) \<noteq> 48"
proof (induction n rule: show_nat.induct)
  case (1 n)
  show ?case
    using 1 by (subst show_nat.simps) (auto simp: hd_append)
qed

lemma length_show_nat: "0 < k \<Longrightarrow> n < 10 ^ k \<Longrightarrow> length (show_nat n) \<le> k"
proof (induction k arbitrary: n)
  case (Suc k)
  show ?case
  proof (cases "n < 10")
    case True
    then show ?thesis by (subst show_nat.simps) simp
  next
    case False
    then have "0 < k" using Suc.prems by (cases k) auto
    moreover have "n div 10 < 10 ^ k" using Suc.prems by (simp add: less_mult_imp_div_less mult.commute)
    ultimately show ?thesis using Suc.IH [of "n div 10"] False by (subst show_nat.simps) simp
  qed
qed simp

lemma show_hex_read:
  "list_all (\<lambda>c. to_digit 16 c \<noteq> None) (show_hex n) \<and> digit_value 16 (show_hex n) = n"
proof (induction n rule: show_hex.induct)
  case (1 n)
  show ?case
    using 1 by (subst (1 2) show_hex.simps) (auto simp: digit_value_def)
qed

lemma length_show_hex: "0 < k \<Longrightarrow> n < 16 ^ k \<Longrightarrow> length (show_hex n) \<le> k"
proof (induction k arbitrary: n)
  case (Suc k)
  show ?case
  proof (cases "n < 16")
    case True
    then show ?thesis by (subst show_hex.simps) simp
  next
    case False
    then have "0 < k" using Suc.prems by (cases k) auto
    moreover have "n div 16 < 16 ^ k" using Suc.prems by (simp add: less_mult_imp_div_less mult.commute)
    ultimately show ?thesis using Suc.IH [of "n div 16"] False by (subst show_hex.simps) simp
  qed
qed simp

lemma show_hex_nonempty [simp]: "show_hex n \<noteq> []"
  by (subst show_hex.simps) simp

lemma read_octet:
  assumes "not_digit 10 r"
  shows "read_number 10 (Some 3) False 256 (show_nat (unat (b :: byte)) @ r) = Some (unat b, r)"
proof -
  have b: "unat b < 256" using unat_bound [of b] by simp
  then have "length (show_nat (unat b)) \<le> 3" by (intro length_show_nat) simp_all
  moreover have "length (show_nat (unat b)) \<le> 1 \<or> hd (show_nat (unat b)) \<noteq> 48"
    using show_nat_head [of "unat b"] length_show_nat [of 1 "unat b"] by (cases "unat b = 0") auto
  ultimately show ?thesis
    using show_nat_read [of "unat b"] b digit_run_append [OF _ assms]
    by (auto simp: read_number_def Let_def)
qed

lemma read_decimal:
  assumes "not_digit 10 r" "n < limit"
  shows "read_number 10 None True limit (show_nat n @ r) = Some (n, r)"
  using show_nat_read [of n] assms(2) digit_run_append [OF _ assms(1)]
  by (auto simp: read_number_def Let_def)

lemma read_segment:
  assumes "not_digit 16 r"
  shows "read_number 16 (Some 4) True 65536 (show_hex (unat (w :: u16)) @ r) = Some (unat w, r)"
proof -
  have w: "unat w < 65536" using unat_bound [of w] by simp
  then have "length (show_hex (unat w)) \<le> 4" by (intro length_show_hex) simp_all
  then show ?thesis
    using show_hex_read [of "unat w"] w digit_run_append [OF _ assms]
    by (auto simp: read_number_def Let_def)
qed

lemma port_read:
  assumes "not_digit 10 r"
  shows "read_port (58 # show_nat (unat (p :: u16)) @ r) = Some (p, r)"
  using read_decimal [OF assms, of "unat p" 65536] unat_bound [of p] by (simp add: read_port_def)

section \<open>Addresses read back\<close>

lemma join_with_Cons: "join_with c (w # ws) = w @ (if ws = [] then [] else c # join_with c ws)"
  by (cases ws) simp_all

lemma octets_read:
  assumes "bs \<noteq> []" "not_digit 10 r"
  shows "read_octets i (length bs) ((if 0 < i then [46] else []) @ show_octets bs @ r) = Some (bs, r)"
  using assms(1)
proof (induction bs arbitrary: i)
  case (Cons b bs)
  let ?r = "(if bs = [] then r else 46 # show_octets bs @ r)"
  have "not_digit 10 ?r" using assms(2) by (simp add: to_digit_def)
  from read_octet [OF this, of b]
  have "read_number 10 (Some 3) False 256 (show_octets (b # bs) @ r) = Some (unat b, ?r)"
    by (cases "bs = []") (simp_all add: show_octets_def join_with_Cons)
  moreover have "read_octets (Suc i) (length bs) ?r = Some (bs, r)"
    using Cons.IH [of "Suc i"] by (cases "bs = []") simp_all
  ultimately show ?case by (cases "bs = []"; cases i) (simp_all add: read_separator_def)
qed simp

lemma ipv4_read: "length bs = 4 \<Longrightarrow> not_digit 10 r \<Longrightarrow> read_ipv4_addr (show_octets bs @ r) = Some (bs, r)"
  using octets_read [of bs r 0] by (cases "bs = []") (simp_all add: read_ipv4_addr_def)

text \<open>Where the decimal digits are not followed by a dot, no IPv4 address is read.\<close>

lemma no_ipv4:
  assumes "digit_run 10 s = [] \<or> (\<exists>c r. s = digit_run 10 s @ c # r \<and> c \<noteq> 46)"
  shows "read_ipv4_addr s = None"
proof -
  have "read_octets 0 (Suc (Suc (Suc (Suc 0)))) s = None"
  proof (cases "read_number 10 (Some 3) False 256 s")
    case (Some vr)
    then have "digit_run 10 s \<noteq> []" "snd vr = drop (length (digit_run 10 s)) s"
      by (auto simp: read_number_def Let_def split: if_splits)
    with assms obtain c r where "snd vr = c # r" "c \<noteq> 46" by (metis append_eq_conv_conj)
    then show ?thesis using Some by (cases vr) (simp add: read_separator_def)
  qed (simp add: read_separator_def)
  then show ?thesis by (simp add: read_ipv4_addr_def numeral_eq_Suc)
qed

definition seg_end :: "rstr \<Rightarrow> bool" where
  "seg_end r \<longleftrightarrow> (\<exists>r'. r = 93 # r' \<or> r = 58 # r')"

lemma seg_end_stops: "seg_end r \<Longrightarrow> not_digit 16 r \<and> not_digit 10 r"
  by (auto simp: seg_end_def to_digit_def)

lemma takeWhile_then:
  "takeWhile P s = s \<or> (\<exists>c r. s = takeWhile P s @ c # r \<and> \<not> P c \<and> c \<in> set s)"
  by (induction s) auto

lemma hex_digit_range: "n < 16 \<Longrightarrow> hex_digit n \<noteq> 46"
  by (simp add: hex_digit_def)

lemma no_ipv4_segment:
  assumes "seg_end r"
  shows "read_ipv4_addr (show_hex n @ r) = None"
proof (rule no_ipv4, rule disjI2)
  have hex: "c \<noteq> 46" if "c \<in> set (show_hex n)" for c
    using that show_hex_read [of n] by (auto simp: list_all_iff to_digit_def)
  obtain c r' where r: "r = c # r'" "c \<noteq> 46" "to_digit 10 c = None"
    using assms by (auto simp: seg_end_def to_digit_def)
  let ?P = "\<lambda>c. to_digit 10 c \<noteq> None"
  show "\<exists>c r'. show_hex n @ r = digit_run 10 (show_hex n @ r) @ c # r' \<and> c \<noteq> 46"
  proof (cases "takeWhile ?P (show_hex n) = show_hex n")
    case True
    then have "takeWhile ?P (show_hex n @ r) = show_hex n"
      using r by (simp add: takeWhile_append takeWhile_eq_all_conv)
    then show ?thesis using r by (auto simp: digit_run_def)
  next
    case False
    then obtain c q where c: "show_hex n = takeWhile ?P (show_hex n) @ c # q" "\<not> ?P c" "c \<in> set (show_hex n)"
      using takeWhile_then [of ?P "show_hex n"] by blast
    then have "takeWhile ?P (show_hex n @ r) = takeWhile ?P (show_hex n)"
      by (intro takeWhile_append1 [of c]) simp_all
    then show ?thesis unfolding digit_run_def using c hex [OF c(3)] by (metis append.assoc append_Cons)
  qed
qed

lemma no_ipv4_end: "seg_end r \<Longrightarrow> read_ipv4_addr r = None"
  by (rule no_ipv4) (auto simp: seg_end_def digit_run_def to_digit_def)

lemma no_segment_end: "seg_end r \<Longrightarrow> read_number 16 m z l r = None"
  by (auto simp: seg_end_def read_number_def digit_run_def to_digit_def Let_def)

text \<open>What can follow a list of groups: the closing bracket, or the double colon.\<close>

definition group_end :: "rstr \<Rightarrow> bool" where
  "group_end r \<longleftrightarrow> (\<exists>r'. r = 93 # r' \<or> r = 58 # 58 # r')"

lemma group_end_seg: "group_end r \<Longrightarrow> seg_end r"
  by (auto simp: group_end_def seg_end_def)

lemma groups_stop: "group_end r \<Longrightarrow> read_groups i k r = ([], False, r)"
  by (cases k) (auto simp: group_end_def read_separator_def no_ipv4_end no_segment_end seg_end_def)

lemma show_segments_Cons:
  "show_segments (w # ws) = show_hex (unat w) @ (if ws = [] then [] else 58 # show_segments ws)"
  by (simp add: show_segments_def join_with_Cons)

lemma groups_read:
  assumes "length ss \<le> k" "group_end r"
  shows "read_groups i k ((if 0 < i \<and> ss \<noteq> [] then [58] else []) @ show_segments ss @ r) = (ss, False, r)"
  using assms(1)
proof (induction ss arbitrary: i k)
  case Nil
  then show ?case using groups_stop [OF assms(2)] by (simp add: show_segments_def)
next
  case (Cons w ws)
  then obtain k' where k: "k = Suc k'" "length ws \<le> k'" by (cases k) auto
  let ?r = "(if ws = [] then r else 58 # show_segments ws @ r)"
  have e: "seg_end ?r" using group_end_seg [OF assms(2)] by (simp add: seg_end_def)
  have w: "show_segments (w # ws) @ r = show_hex (unat w) @ ?r" by (simp add: show_segments_Cons)
  have "read_groups (Suc i) k' ?r = (ws, False, r)"
    using Cons.IH [OF k(2), of "Suc i"] by (cases "ws = []") (simp_all add: show_segments_def)
  moreover have "read_number 16 (Some 4) True 65536 (show_segments (w # ws) @ r) = Some (unat w, ?r)"
    unfolding w using read_segment seg_end_stops [OF e] by blast
  moreover have "read_ipv4_addr (show_segments (w # ws) @ r) = None"
    unfolding w by (rule no_ipv4_segment [OF e])
  ultimately show ?case by (cases "ws = []"; cases i) (simp_all add: k read_separator_def)
qed

text \<open>The run of zeros that \<open>Display\<close> replaces by the double colon.\<close>

definition zeros_at :: "u16 list \<Rightarrow> nat \<times> nat \<Rightarrow> bool" where
  "zeros_at ss b \<longleftrightarrow> ss = take (fst b) ss @ replicate (snd b) 0 @ drop (fst b + snd b) ss"

lemma zero_run_split: "ws = replicate (zero_run ws) 0 @ drop (zero_run ws) ws"
  by (induction ws) (simp_all add: zero_run_def)

lemma longest_zeros_at:
  "length pre = i \<Longrightarrow> zeros_at (pre @ ws) best \<Longrightarrow> zeros_at (pre @ ws) (longest_zeros i ws best)"
proof (induction i ws best arbitrary: pre rule: longest_zeros.induct)
  case (2 i w ws best)
  have "zeros_at (pre @ w # ws) (i, zero_run (w # ws))"
    using 2(2) zero_run_split [of "w # ws"] by (simp add: zeros_at_def)
  then show ?case using 2(1) [of "pre @ [w]"] 2(2,3) by simp
qed simp

lemma octets_of_segment:
  "push_bit 8 (ucast (ucast (drop_bit 8 w) :: byte)) + ucast (ucast w :: byte) = (w :: u16)"
proof -
  have "take_bit 8 (drop_bit 8 w) = drop_bit 8 w"
    by (simp add: take_bit_drop_bit take_bit_word_beyond_length_eq)
  then show ?thesis by (simp add: unsigned_ucast_eq bits_ident)
qed

lemma length8:
  assumes "length ss = 8" "take 6 ss = [a, b, c, e, f, g]"
  shows "\<exists>x y. ss = [a, b, c, e, f, g, x, y]"
proof -
  have "length (drop 6 ss) = Suc (Suc 0)" using assms(1) by simp
  then obtain x y where "drop 6 ss = [x, y]" by (auto simp: length_Suc_conv simp del: length_drop)
  then show ?thesis using assms(2) by (metis append_Cons append_Nil append_take_drop_id)
qed

lemma mapped_read:
  "read_ipv6_addr (show_v6 [0, 0, 0, 0, 0, 0xFFFF, x, y] @ 93 # r) = Some ([0, 0, 0, 0, 0, 0xFFFF, x, y], 93 # r)"
proof -
  let ?bs = "[ucast (drop_bit 8 x), ucast x, ucast (drop_bit 8 y), ucast y] :: byte list"
  let ?t = "lit ''ffff'' @ 58 # show_octets ?bs @ 93 # r"
  have s: "show_v6 [0, 0, 0, 0, 0, 0xFFFF, x, y] @ 93 # r = 58 # 58 # ?t"
    by (simp add: show_v6_def lit_def)
  have h: "read_groups 0 8 (58 # 58 # ?t) = ([], False, 58 # 58 # ?t)"
    by (rule groups_stop) (auto simp: group_end_def)
  have f: "lit ''ffff'' = show_hex (unat (0xFFFF :: u16))"
    by (simp add: lit_def show_hex.simps hex_digit_def)
  have e: "seg_end (58 # show_octets ?bs @ 93 # r)" by (simp add: seg_end_def)
  have "read_groups 1 6 (58 # show_octets ?bs @ 93 # r) = ([x, y], True, 93 # r)"
    using ipv4_read [of ?bs "93 # r"] octets_of_segment [of x] octets_of_segment [of y]
    by (simp add: numeral_eq_Suc read_separator_def to_digit_def)
  then have "read_groups 0 (Suc 6) ?t = ([0xFFFF, x, y], True, 93 # r)"
    unfolding f using no_ipv4_segment [OF e, of "unat (0xFFFF :: u16)"] seg_end_stops [OF e]
      read_segment [of "58 # show_octets ?bs @ 93 # r" "0xFFFF"]
    by (subst read_groups.simps(2)) (simp add: read_separator_def)
  then have t: "read_groups 0 7 ?t = ([0xFFFF, x, y], True, 93 # r)" by simp
  have "replicate 5 (0 :: u16) = [0, 0, 0, 0, 0]" by (simp add: numeral_eq_Suc)
  then show ?thesis unfolding s using h t by (simp add: read_ipv6_addr_def)
qed

lemma ipv6_read:
  assumes "length ss = 8"
  shows "read_ipv6_addr (show_v6 ss @ 93 # r) = Some (ss, 93 # r)"
proof (cases "take 6 ss = [0, 0, 0, 0, 0, 0xFFFF]")
  case True
  then show ?thesis using length8 [OF assms True] mapped_read by auto
next
  case False
  obtain s n where b: "longest_zeros 0 ss (0, 0) = (s, n)" by fastforce
  have z: "ss = take s ss @ replicate n 0 @ drop (s + n) ss"
    using longest_zeros_at [of "[]" 0 ss "(0, 0)"] b by (simp add: zeros_at_def)
  show ?thesis
  proof (cases "n > 1")
    case True
    have len: "length (take s ss) + n + length (drop (s + n) ss) = 8"
      using arg_cong [OF z, of length] assms by simp
    let ?r = "show_segments (drop (s + n) ss) @ 93 # r"
    have s: "show_v6 ss @ 93 # r = show_segments (take s ss) @ 58 # 58 # ?r"
      using False True b by (simp add: show_v6_def lit_def)
    have h: "read_groups 0 8 (show_segments (take s ss) @ 58 # 58 # ?r) = (take s ss, False, 58 # 58 # ?r)"
      using groups_read [of "take s ss" 8 "58 # 58 # ?r" 0] len by (simp add: group_end_def)
    have t: "read_groups 0 (8 - (length (take s ss) + 1)) ?r = (drop (s + n) ss, False, 93 # r)"
      using groups_read [of "drop (s + n) ss" "8 - (length (take s ss) + 1)" "93 # r" 0] len True
      by (simp add: group_end_def)
    have "8 - length (take s ss) - length (drop (s + n) ss) = n" using len by linarith
    then show ?thesis
      unfolding s using h t z len True by (simp add: read_ipv6_addr_def del: length_take length_drop)
  next
    case False
    then have "show_v6 ss = show_segments ss"
      using \<open>take 6 ss \<noteq> _\<close> b by (simp add: show_v6_def)
    then show ?thesis
      using groups_read [of ss 8 "93 # r" 0] assms by (simp add: group_end_def read_ipv6_addr_def)
  qed
qed

text \<open>How the agent writes a socket address: IPv6 addresses in brackets.\<close>

lemma socket_addr_read:
  assumes "ip_wf a"
  shows "SocketAddr_parse ((case a of V4 bs \<Rightarrow> IpAddr_to_string a | V6 ss \<Rightarrow> 91 # IpAddr_to_string a @ [93]) @
    58 # show_nat (unat p)) = Some (a, p)"
proof (cases a)
  case (V4 bs)
  have "read_ipv4_addr (show_octets bs @ 58 # show_nat (unat p)) = Some (bs, 58 # show_nat (unat p))"
    using assms V4 by (intro ipv4_read) (simp_all add: ip_wf_def to_digit_def)
  then show ?thesis
    using port_read [of "[]" p] V4
    by (simp add: SocketAddr_parse_def read_socket_addr_v4_def IpAddr_to_string_def)
next
  case (V6 ss)
  let ?s = "91 # show_v6 ss @ 93 # 58 # show_nat (unat p)"
  have "read_ipv4_addr ?s = None"
    by (rule no_ipv4) (simp add: digit_run_def to_digit_def)
  then have "read_socket_addr_v4 ?s = None" by (simp add: read_socket_addr_v4_def)
  moreover have "read_ipv6_addr (show_v6 ss @ 93 # 58 # show_nat (unat p)) = Some (ss, 93 # 58 # show_nat (unat p))"
    using assms V6 by (intro ipv6_read) (simp add: ip_wf_def)
  ultimately show ?thesis
    using port_read [of "[]" p] V6
    by (simp add: SocketAddr_parse_def read_socket_addr_v6_def IpAddr_to_string_def skip_scope_id_def)
qed

end
