(* ===== verification/Discovery.thy ===== *)
theory Discovery
  imports NetAddr Instance
begin

text \<open>
  Discovery (\<open>discovery.rs\<close>): the TXT record, the truncation of display names on a character
  boundary, the hint made of a resolved service, and advertising. The mDNS daemon is a
  library: what it answers to a call is an argument, and the calls made are part of the result.
\<close>

section \<open>Data\<close>

definition MAX_NAME_BYTES :: nat where "MAX_NAME_BYTES = 32"
definition TXT_VERSION :: string where "TXT_VERSION = ''v''"
definition TXT_ID :: string where "TXT_ID = ''id''"
definition TXT_NAME :: string where "TXT_NAME = ''nm''"

record PeerHint =
  hint_device_id :: DeviceId
  hint_name :: rstr
  hint_addrs :: "SocketAddr list"

record TxtRecord =
  txt_version :: u8
  txt_device_id :: DeviceId
  txt_name :: rstr

section \<open>Names\<close>

text \<open>\<open>str::is_char_boundary\<close> and slicing at a byte offset that is one.\<close>

definition is_char_boundary :: "rstr \<Rightarrow> nat \<Rightarrow> bool" where
  "is_char_boundary s k \<longleftrightarrow> list_ex (\<lambda>n. str_len (take n s) = k) [0..<Suc (length s)]"

fun str_slice_to :: "rstr \<Rightarrow> nat \<Rightarrow> rstr" where
  "str_slice_to [] k = []"
| "str_slice_to (c # cs) k =
     (if length (utf8_char c) \<le> k then c # str_slice_to cs (k - length (utf8_char c)) else [])"

text \<open>The loop that moves the end down to a boundary.\<close>

fun boundary_below :: "rstr \<Rightarrow> nat \<Rightarrow> nat" where
  "boundary_below name 0 = 0"
| "boundary_below name (Suc n) =
     (if \<not> is_char_boundary name (Suc n) then boundary_below name n else Suc n)"

definition truncate_name :: "rstr \<Rightarrow> rstr" where
  "truncate_name name =
     (if str_len name \<le> MAX_NAME_BYTES then name
      else str_slice_to name (boundary_below name MAX_NAME_BYTES))"

definition instance_name :: "DeviceId \<Rightarrow> rstr" where
  "instance_name device_id = DeviceId_hex device_id"

section \<open>The TXT record\<close>

definition TxtRecord_new :: "DeviceId \<Rightarrow> rstr \<Rightarrow> TxtRecord" where
  "TxtRecord_new device_id name =
     \<lparr> txt_version = PROTOCOL_VERSION, txt_device_id = device_id, txt_name = truncate_name name \<rparr>"

definition TxtRecord_to_pairs :: "TxtRecord \<Rightarrow> (rstr \<times> rstr) list" where
  "TxtRecord_to_pairs t =
     [(lit TXT_VERSION, show_nat (unat (txt_version t))),
      (lit TXT_ID, DeviceId_hex (txt_device_id t)),
      (lit TXT_NAME, txt_name t)]"

text \<open>The loop of \<open>parse\<close> over its local variables \<open>version\<close>, \<open>device_id\<close> and \<open>name\<close>.\<close>

fun txt_params ::
  "deps \<Rightarrow> (rstr \<times> rstr) list \<Rightarrow> u8 option \<times> DeviceId option \<times> rstr
     \<Rightarrow> (u8 option \<times> DeviceId option \<times> rstr) result" where
  "txt_params d [] st = Inr st"
| "txt_params d ((k, v) # kvs) (version, device_id, name) =
     (if k = lit TXT_VERSION then txt_params d kvs (parse_u8 v, device_id, name)
      else if k = lit TXT_ID then
        try_r (ok_or (hex_decode d v) (Cbor (lit ''TXT id is not hex''))) (\<lambda>raw.
          if length raw = 16 then txt_params d kvs (version, Some (DeviceId raw), name)
          else Inl (Cbor (lit ''TXT id must be 16 bytes'')))
      else if k = lit TXT_NAME then txt_params d kvs (version, device_id, v)
      else txt_params d kvs (version, device_id, name))"

definition TxtRecord_parse :: "deps \<Rightarrow> (rstr \<times> rstr) list \<Rightarrow> TxtRecord result" where
  "TxtRecord_parse d pairs =
     try_r (txt_params d pairs (None, None, [])) (\<lambda>(version, device_id, name).
     try_r (ok_or version (Cbor (lit ''TXT missing v''))) (\<lambda>version.
     if version \<noteq> PROTOCOL_VERSION
     then Inl (Cbor (lit ''TXT unsupported version '' @ show_nat (unat version)))
     else
     try_r (ok_or device_id (Cbor (lit ''TXT missing id''))) (\<lambda>device_id.
       Inr \<lparr> txt_version = version, txt_device_id = device_id, txt_name = name \<rparr>)))"

section \<open>Browsing\<close>

text \<open>What \<open>mdns-sd\<close> reports of a resolved service.\<close>

record ResolvedService =
  rs_txt_properties :: "(rstr \<times> rstr) list"
  rs_addresses :: "IpAddr list"
  rs_port :: u16

definition hint_from_resolved :: "deps \<Rightarrow> ResolvedService \<Rightarrow> PeerHint option" where
  "hint_from_resolved d info =
     (case TxtRecord_parse d (rs_txt_properties info) of
        Inl e \<Rightarrow> None
      | Inr txt \<Rightarrow>
          let addrs = map (\<lambda>a. (a, rs_port info)) (rs_addresses info)
          in if addrs = [] then None
             else Some \<lparr> hint_device_id = txt_device_id txt, hint_name = txt_name txt,
                         hint_addrs = addrs \<rparr>)"

text \<open>
  The browsing thread: resolved services become hints in order, until the receiver is
  dropped (the number of hints it still takes is an argument).
\<close>

fun browse_loop :: "deps \<Rightarrow> ResolvedService option list \<Rightarrow> nat \<Rightarrow> PeerHint list" where
  "browse_loop d [] n = []"
| "browse_loop d (None # evs) n = browse_loop d evs n"
| "browse_loop d (Some info # evs) n =
     (case hint_from_resolved d info of
        None \<Rightarrow> browse_loop d evs n
      | Some hint \<Rightarrow> (if n = 0 then [] else hint # browse_loop d evs (n - 1)))"

definition browse :: "deps \<Rightarrow> rstr option \<Rightarrow> ResolvedService option list \<Rightarrow> nat \<Rightarrow> PeerHint list result" where
  "browse d browse_err evs n =
     (case browse_err of
        Some e \<Rightarrow> Inl (Cbor (lit ''mdns browse: '' @ e))
      | None \<Rightarrow> Inr (browse_loop d evs n))"

section \<open>Advertising\<close>

datatype MdnsCall = Register rstr "(rstr \<times> rstr) list" u16 | Unregister rstr | Shutdown

record MdnsDiscovery =
  registered_fullname :: "rstr option"

text \<open>The daemon's error, if it does not start.\<close>

definition MdnsDiscovery_new :: "rstr option \<Rightarrow> MdnsDiscovery result" where
  "MdnsDiscovery_new daemon_err =
     (case daemon_err of
        Some e \<Rightarrow> Inl (Cbor (lit ''mdns daemon: '' @ e))
      | None \<Rightarrow> Inr \<lparr> registered_fullname = None \<rparr>)"

definition stop_advertising ::
  "MdnsDiscovery \<Rightarrow> (rstr \<Rightarrow> rstr option) \<Rightarrow> MdnsDiscovery \<times> MdnsCall list \<times> unit result" where
  "stop_advertising m unregister =
     (case registered_fullname m of
        None \<Rightarrow> (m, [], Inr ())
      | Some full \<Rightarrow>
          (m\<lparr> registered_fullname := None \<rparr>, [Unregister full],
           (case unregister full of
              Some e \<Rightarrow> Inl (Cbor (lit ''mdns unregister: '' @ e))
            | None \<Rightarrow> Inr ())))"

text \<open>Dropping the value stops advertising and ignores the result.\<close>

definition MdnsDiscovery_drop :: "MdnsDiscovery \<Rightarrow> (rstr \<Rightarrow> rstr option) \<Rightarrow> MdnsCall list" where
  "MdnsDiscovery_drop m unregister = (case stop_advertising m unregister of (m', calls, r) \<Rightarrow> calls)"

text \<open>
  \<open>unregister\<close> and \<open>register\<close> give the daemon's error, if any; \<open>info_new\<close> is
  \<open>ServiceInfo::new\<close>, which computes the full service name or fails.
\<close>

definition advertise ::
  "MdnsDiscovery \<Rightarrow> DeviceId \<Rightarrow> rstr \<Rightarrow> u16 \<Rightarrow> (rstr \<Rightarrow> rstr option) \<Rightarrow> (rstr \<Rightarrow> rstr + rstr)
     \<Rightarrow> rstr option \<Rightarrow> MdnsDiscovery \<times> MdnsCall list \<times> unit result" where
  "advertise m device_id name port unregister info_new register =
     (case stop_advertising m unregister of
        (m1, calls, Inl e) \<Rightarrow> (m1, calls, Inl e)
      | (m1, calls, Inr u) \<Rightarrow>
          let txt = TxtRecord_new device_id name;
              props = TxtRecord_to_pairs txt
          in (case info_new (instance_name device_id) of
                Inl e \<Rightarrow> (m1, calls, Inl (Cbor (lit ''mdns service info: '' @ e)))
              | Inr fullname \<Rightarrow>
                  (case register of
                     Some e \<Rightarrow> (m1, calls @ [Register fullname props port],
                                Inl (Cbor (lit ''mdns register: '' @ e)))
                   | None \<Rightarrow> (m1\<lparr> registered_fullname := Some fullname \<rparr>,
                             calls @ [Register fullname props port], Inr ()))))"

text \<open>A failure to withdraw the advertisement does not keep the daemon from being shut down.\<close>

definition shutdown ::
  "MdnsDiscovery \<Rightarrow> (rstr \<Rightarrow> rstr option) \<Rightarrow> rstr option \<Rightarrow> MdnsDiscovery \<times> MdnsCall list \<times> unit result" where
  "shutdown m unregister daemon_err =
     (case stop_advertising m unregister of
        (m1, calls, r) \<Rightarrow>
          (m1, calls @ [Shutdown],
           (case daemon_err of
              Some e \<Rightarrow> Inl (Cbor (lit ''mdns shutdown: '' @ e))
            | None \<Rightarrow> Inr ())))"

section \<open>Lemmas\<close>

lemma str_len_simps [simp]: "str_len [] = 0" "str_len (c # s) = length (utf8_char c) + str_len s"
  by (simp_all add: str_len_def as_bytes_def)

lemma str_len_append: "str_len (a @ b) = str_len a + str_len b"
  by (simp add: str_len_def as_bytes_def)

lemma utf8_char_pos: "0 < length (utf8_char c)"
  by (simp add: utf8_char_def)

lemma slice_at_boundary: "str_slice_to s (str_len (take n s)) = take n s"
proof (induction s arbitrary: n)
  case (Cons c s)
  then show ?case using utf8_char_pos [of c] by (cases n) simp_all
qed simp

lemma boundary_iff: "is_char_boundary s k \<longleftrightarrow> (\<exists>n \<le> length s. str_len (take n s) = k)"
  by (auto simp: is_char_boundary_def list_ex_iff Bex_def less_Suc_eq_le simp del: upt_Suc)

lemma boundary_below_max:
  "is_char_boundary s (boundary_below s m) \<and> boundary_below s m \<le> m \<and>
   (\<forall>k \<le> m. is_char_boundary s k \<longrightarrow> k \<le> boundary_below s m)"
proof (induction m)
  case 0
  show ?case by (auto simp: boundary_iff)
next
  case (Suc m)
  then show ?case by (auto simp: le_Suc_eq)
qed

lemma str_len_take_Suc:
  "n < length s \<Longrightarrow> str_len (take (Suc n) s) = str_len (take n s) + length (utf8_char (s ! n))"
  by (simp add: take_Suc_conv_app_nth str_len_append)

text \<open>Truncation keeps the longest prefix of whole characters that fits.\<close>

lemma truncate_longest:
  "\<exists>n \<le> length name. truncate_name name = take n name \<and> str_len (take n name) \<le> 32 \<and>
     (n < length name \<longrightarrow> 32 < str_len (take (Suc n) name))"
proof (cases "str_len name \<le> 32")
  case True
  then show ?thesis by (intro exI [of _ "length name"]) (simp add: truncate_name_def MAX_NAME_BYTES_def)
next
  case False
  note b = boundary_below_max [of name 32]
  then obtain n where n: "n \<le> length name" "str_len (take n name) = boundary_below name 32"
    by (auto simp: boundary_iff)
  have "32 < str_len (take (Suc n) name)" if lt: "n < length name"
  proof (rule ccontr)
    assume "\<not> ?thesis"
    moreover have "is_char_boundary name (str_len (take (Suc n) name))"
      using lt by (auto simp: boundary_iff intro: exI [of _ "Suc n"])
    ultimately have "str_len (take (Suc n) name) \<le> str_len (take n name)" using b n(2) by simp
    then show False using str_len_take_Suc [OF lt] utf8_char_pos [of "name ! n"] by simp
  qed
  with n b False show ?thesis
    by (intro exI [of _ n]) (simp add: truncate_name_def MAX_NAME_BYTES_def n(2) [symmetric] slice_at_boundary)
qed

text \<open>Keys a later version may add.\<close>

definition unknown_keys :: "(rstr \<times> rstr) list \<Rightarrow> bool" where
  "unknown_keys kvs \<longleftrightarrow> list_all (\<lambda>(k, v). k \<noteq> lit TXT_VERSION \<and> k \<noteq> lit TXT_ID \<and> k \<noteq> lit TXT_NAME) kvs"

lemma txt_roundtrip:
  assumes "hex_faithful d" "length (device_bytes i) = 16" "unknown_keys extra"
  shows "TxtRecord_parse d (TxtRecord_to_pairs (TxtRecord_new i name) @ extra) = Inr (TxtRecord_new i name)"
proof -
  have skip: "txt_params d extra st = Inr st" for st
    using assms(3) by (induction extra arbitrary: st) (auto simp: unknown_keys_def split: prod.split)
  have "hex_decode d (DeviceId_hex i) = Some (device_bytes i)"
    using assms(1) by (simp add: hex_faithful_def DeviceId_hex_def)
  then show ?thesis
    using assms(2) by (simp add: TxtRecord_parse_def TxtRecord_to_pairs_def TxtRecord_new_def TXT_VERSION_def
        TXT_ID_def TXT_NAME_def lit_def) (simp add: skip)
qed

lemma advertised_call:
  assumes "advertise m i name port unregister info_new register = (m', calls, Inr ())"
  shows "\<exists>full. info_new (instance_name i) = Inr full \<and> registered_fullname m' = Some full \<and> calls \<noteq> [] \<and>
    last calls = Register full (TxtRecord_to_pairs (TxtRecord_new i name)) port"
  using assms
  by (auto simp: advertise_def Let_def split: prod.splits sum.splits option.splits)

text \<open>What was advertised last is withdrawn when the value is dropped, whatever the daemon answers.\<close>

lemma dropped_discovery_withdraws:
  assumes "advertise m i name port unregister info_new register = (m', calls, Inr ())"
  shows "\<exists>full props. last calls = Register full props port \<and> MdnsDiscovery_drop m' unregister' = [Unregister full]"
  using advertised_call [OF assms] by (auto simp: MdnsDiscovery_drop_def stop_advertising_def)

section \<open>Properties\<close>

text \<open>
  C35: An advertised PC is found. When advertising succeeds, the daemon was last told one service,
  under the device's own instance name; and whoever browses and is given that service's record,
  with whatever unknown keys around it, and its addresses, gets exactly one hint: the
  device's identifier, its name, and each address with the advertised port. The name in it is at
  most 32 bytes and the longest prefix of whole characters of the display name that fits.
\<close>

theorem advertised_pc_is_found:
  assumes d: "hex_faithful d" and i: "length (device_bytes i) = 16"
    and adv: "advertise m i name port unregister info_new register = (m', calls, Inr ())"
    and extra: "unknown_keys extra" and addrs: "addrs \<noteq> []"
  shows "\<exists>full props k. info_new (DeviceId_hex i) = Inr full \<and> calls \<noteq> [] \<and> last calls = Register full props port \<and>
    browse d None [None, Some \<lparr> rs_txt_properties = props @ extra, rs_addresses = addrs, rs_port = port \<rparr>] (Suc n) =
      Inr [\<lparr> hint_device_id = i, hint_name = take k name, hint_addrs = map (\<lambda>a. (a, port)) addrs \<rparr>] \<and>
    str_len (take k name) \<le> 32 \<and> (k < length name \<longrightarrow> 32 < str_len (take (Suc k) name))"
proof -
  obtain full where full: "info_new (instance_name i) = Inr full" "calls \<noteq> []"
    "last calls = Register full (TxtRecord_to_pairs (TxtRecord_new i name)) port"
    using advertised_call [OF adv] by blast
  obtain k where k: "truncate_name name = take k name" "str_len (take k name) \<le> 32"
    "k < length name \<longrightarrow> 32 < str_len (take (Suc k) name)"
    using truncate_longest [of name] by blast
  have "browse d None [None, Some \<lparr> rs_txt_properties = TxtRecord_to_pairs (TxtRecord_new i name) @ extra,
      rs_addresses = addrs, rs_port = port \<rparr>] (Suc n) =
      Inr [\<lparr> hint_device_id = i, hint_name = take k name, hint_addrs = map (\<lambda>a. (a, port)) addrs \<rparr>]"
    using txt_roundtrip [OF d i extra, of name] addrs
    by (simp add: browse_def hint_from_resolved_def Let_def TxtRecord_new_def k(1))
  then show ?thesis using full k by (auto simp: instance_name_def)
qed

theorem advertised_pc_is_found_witness:
  "\<exists>props. last (fst (snd (advertise \<lparr> registered_fullname = None \<rparr> (DeviceId (replicate 16 1)) (lit ''PC'') 49517
         (\<lambda>_. None) Inr None))) = Register (DeviceId_hex (DeviceId (replicate 16 1))) props 49517 \<and>
     is_ok (browse demo_deps None [None, Some \<lparr> rs_txt_properties = props @ [(lit ''zz'', lit ''1'')],
       rs_addresses = [V4 [10, 0, 0, 2]], rs_port = 49517 \<rparr>] (Suc 0))"
proof -
  let ?i = "DeviceId (replicate 16 1)" and ?m = "\<lparr> registered_fullname = None \<rparr>"
  have adv: "advertise ?m ?i (lit ''PC'') 49517 (\<lambda>_. None) Inr None =
      (\<lparr> registered_fullname = Some (DeviceId_hex ?i) \<rparr>,
       [Register (DeviceId_hex ?i) (TxtRecord_to_pairs (TxtRecord_new ?i (lit ''PC''))) 49517], Inr ())"
    by (simp add: advertise_def stop_advertising_def instance_name_def Let_def)
  have keys: "unknown_keys [(lit ''zz'', lit ''1'')]"
    by (simp add: unknown_keys_def TXT_VERSION_def TXT_ID_def TXT_NAME_def lit_def)
  show ?thesis
    using advertised_pc_is_found [OF demo_text(1) _ adv keys, of "[V4 [10, 0, 0, 2]]" 0] adv by (auto simp: is_ok_def)
qed

end
