(* ===== verification/Server.thy ===== *)
theory Server
  imports Wire SessionTraffic PairingFacts Keystore Discovery
begin

text \<open>
  The Windows agent's server (\<open>server.rs\<close>): the per-address rate limiter, the shared agent
  state, and the two connection loops, pairing and session, with the translation of session
  events to agent events and replies.

  A connection is a function of a script: for every wait of the source, what the wait
  returned, the clock and randomness read while handling it, the outcome of sends, and what
  the other tasks did to the shared state meanwhile (\<open>in_update\<close>). Its result is the shared
  state afterwards, the frames written and events emitted in order, and how the task ended.
\<close>

section \<open>Constants\<close>

definition RATE_LIMIT_PER_MIN :: u32 where "RATE_LIMIT_PER_MIN = 20"
definition RATE_LIMIT_BAN_MS :: u64 where "RATE_LIMIT_BAN_MS = 5 * 60 * 1000"

section \<open>Rate limiter\<close>

record RateLimiter =
  window_start_ms :: "IpAddr \<rightharpoonup> u64"
  counts :: "IpAddr \<rightharpoonup> u32"
  banned_until_ms :: "IpAddr \<rightharpoonup> u64"

definition RateLimiter_default :: RateLimiter where
  "RateLimiter_default =
     \<lparr> window_start_ms = Map.empty, counts = Map.empty, banned_until_ms = Map.empty \<rparr>"

text \<open>The part of \<open>allow\<close> after the ban check.\<close>

definition allow_window :: "RateLimiter \<Rightarrow> IpAddr \<Rightarrow> u64 \<Rightarrow> RateLimiter \<times> bool" where
  "allow_window l ip now =
     (let start = (case window_start_ms l ip of None \<Rightarrow> now | Some t \<Rightarrow> t);
          l = l\<lparr> window_start_ms := (window_start_ms l)(ip \<mapsto> start) \<rparr>;
          l = (if saturating_sub now start \<ge> 60000
               then l\<lparr> window_start_ms := (window_start_ms l)(ip \<mapsto> now),
                       counts := (counts l)(ip \<mapsto> 0) \<rparr>
               else l);
          c = (case counts l ip of None \<Rightarrow> 0 | Some n \<Rightarrow> n) + 1;
          l = l\<lparr> counts := (counts l)(ip \<mapsto> c) \<rparr>
      in if c > RATE_LIMIT_PER_MIN
         then (l\<lparr> banned_until_ms := (banned_until_ms l)(ip \<mapsto> now + RATE_LIMIT_BAN_MS) \<rparr>, False)
         else (l, True))"

definition RateLimiter_allow :: "RateLimiter \<Rightarrow> IpAddr \<Rightarrow> u64 \<Rightarrow> RateLimiter \<times> bool" where
  "RateLimiter_allow l ip now =
     (case banned_until_ms l ip of
        Some until \<Rightarrow>
          (if now < until then (l, False)
           else allow_window (l\<lparr> banned_until_ms := (banned_until_ms l)(ip := None) \<rparr>) ip now)
      | None \<Rightarrow> allow_window l ip now)"

section \<open>Agent state\<close>

datatype AgentEvent =
    PeerConnected rstr
  | PeerDisconnected rstr
  | AgentClipArrived ContentType bytes rstr
  | PairingSas "rstr list"
  | Paired PairingRecord
  | PairingFailed rstr

record PairingOffer =
  offer_token :: bytes
  offer_issued_ms :: u64
  offer_hosts :: "rstr list"

record AgentState =
  ag_identity :: IdentityKeypair
  ag_display_name :: rstr
  ag_stage :: StageRing
  ag_peers :: "PairingRecord list"
  ag_files :: fs
  ag_paused :: bool
  ag_pairing :: "PairingOffer option"
  ag_port :: u16
  ag_rate :: RateLimiter

definition AgentState_new :: "IdentityKeypair \<Rightarrow> rstr \<Rightarrow> fs \<Rightarrow> PairingRecord list \<Rightarrow> AgentState" where
  "AgentState_new identity display_name files peers =
     \<lparr> ag_identity = identity, ag_display_name = display_name, ag_stage = StageRing_default,
       ag_peers = peers, ag_files = files, ag_paused = False, ag_pairing = None,
       ag_port = DEFAULT_PORT, ag_rate = RateLimiter_default \<rparr>"

definition AgentState_is_paused :: "AgentState \<Rightarrow> bool" where
  "AgentState_is_paused st = ag_paused st"

definition AgentState_listen_port :: "AgentState \<Rightarrow> u16" where
  "AgentState_listen_port st = ag_port st"

definition AgentState_set_listen_port :: "AgentState \<Rightarrow> u16 \<Rightarrow> AgentState" where
  "AgentState_set_listen_port st p = st\<lparr> ag_port := p \<rparr>"

definition record_peer_key :: "deps \<Rightarrow> PairingRecord \<Rightarrow> PeerKey option" where
  "record_peer_key d r =
     (case (ok_r (PairingRecord_device_id_bytes d r), ok_r (PairingRecord_public_key_bytes d r)) of
        (Some i, Some k) \<Rightarrow> Some \<lparr> pk_device_id = i, pk_public_key = k \<rparr>
      | _ \<Rightarrow> None)"

definition AgentState_peer_keys :: "deps \<Rightarrow> AgentState \<Rightarrow> PeerKey list" where
  "AgentState_peer_keys d st = List.map_filter (record_peer_key d) (ag_peers st)"

section \<open>Connections\<close>

datatype effect = Wrote Frame | Event AgentEvent

record script =
  in_next :: wire_next
  in_now :: u64
  in_rnd :: "bytes option"
  in_send_err :: "rstr option"
  in_io :: io_faults
  in_update :: "AgentState \<Rightarrow> AgentState"

text \<open>
  The action loop of \<open>run_pairing\<close>: the state, what happened, and \<^const>\<open>Some\<close> result when
  the function returns.
\<close>

fun pairing_actions ::
  "platform \<Rightarrow> script \<Rightarrow> AgentState \<Rightarrow> PairingAction list \<Rightarrow> AgentState \<times> effect list \<times> unit anyhow option" where
  "pairing_actions w i st [] = (st, [], None)"
| "pairing_actions w i st (PSend f # acts) =
     (case wire_send (in_send_err i) f of
        Inl e \<Rightarrow> (st, [], Some (Inl e))
      | Inr u \<Rightarrow> (case pairing_actions w i st acts of (st', effs, r) \<Rightarrow> (st', Wrote f # effs, r)))"
| "pairing_actions w i st (ShowSas sas # acts) =
     (case pairing_actions w i st acts of (st', effs, r) \<Rightarrow> (st', Event (PairingSas sas) # effs, r))"
| "pairing_actions w i st (Completed record # acts) =
     (case upsert_pairing w (in_io i) (ag_files st) record of
        (fs, Inl e) \<Rightarrow> (st\<lparr> ag_files := fs \<rparr>, [], Some (Inl e))
      | (fs, Inr all) \<Rightarrow>
          (st\<lparr> ag_files := fs, ag_peers := all, ag_pairing := None \<rparr>,
           [Event (Paired record)], Some (Inr ())))"
| "pairing_actions w i st (PFailed reason # acts) =
     (st, [Event (PairingFailed (lit reason))], Some (Inr ()))"

fun pairing_loop ::
  "deps \<Rightarrow> platform \<Rightarrow> PcPairing \<Rightarrow> Frame \<Rightarrow> script \<Rightarrow> script list \<Rightarrow> AgentState
     \<Rightarrow> AgentState \<times> effect list \<times> unit anyhow"
and pairing_wait ::
  "deps \<Rightarrow> platform \<Rightarrow> PcPairing \<Rightarrow> script list \<Rightarrow> AgentState \<Rightarrow> AgentState \<times> effect list \<times> unit anyhow"
where
  "pairing_loop d w fsm frame i is st =
     (case PcPairing_on_frame d fsm frame (in_now i) (in_rnd i) of
        (fsm', acts) \<Rightarrow>
          (case pairing_actions w i st acts of
             (st', effs, Some r) \<Rightarrow> (st', effs, r)
           | (st', effs, None) \<Rightarrow>
               (case pairing_wait d w fsm' is st' of (st2, effs2, r) \<Rightarrow> (st2, effs @ effs2, r))))"
| "pairing_wait d w fsm [] st = (st, [], Inr ())"
| "pairing_wait d w fsm (i # is) st =
     (case in_next i of
        NextClosed \<Rightarrow> (in_update i st, [], Inr ())
      | NextErr e \<Rightarrow> (in_update i st, [], Inl (lit ''decoding pairing frame''))
      | NextTimeout \<Rightarrow> pairing_wait d w fsm is (in_update i st)
      | NextFrame f \<Rightarrow> pairing_loop d w fsm f i is (in_update i st))"

definition run_pairing ::
  "deps \<Rightarrow> platform \<Rightarrow> Frame \<Rightarrow> script \<Rightarrow> script list \<Rightarrow> AgentState \<Rightarrow> AgentState \<times> effect list \<times> unit anyhow" where
  "run_pairing d w first i is st =
     (case ag_pairing st of
        None \<Rightarrow> (st, [], Inr ())
      | Some offer \<Rightarrow>
          pairing_loop d w (PcPairing_with_token (ag_identity st) (ag_display_name st) (offer_hosts offer)
            (offer_token offer) (offer_issued_ms offer)) first i is st)"

text \<open>Events of a session: the session and the connected id afterwards, the agent events, the reply.\<close>

definition handle_event ::
  "deps \<Rightarrow> SessionEvent \<Rightarrow> Session \<Rightarrow> AgentState \<Rightarrow> rstr option
     \<Rightarrow> Session \<times> rstr option \<times> effect list \<times> Frame option anyhow" where
  "handle_event d event s st connected_id =
     (case event of
        EvEstablished peer \<Rightarrow>
          (s, Some (DeviceId_hex peer), [Event (PeerConnected (DeviceId_hex peer))], Inr None)
      | ClipArrived clip_id content_type body source_name created_at_ms \<Rightarrow>
          (s, connected_id, [Event (AgentClipArrived content_type body source_name)], Inr None)
      | StageListRequested \<Rightarrow>
          (case Session_send_stage_list d s (StageRing_list (ag_stage st)) of
             (s', Inl e) \<Rightarrow> (s', connected_id, [], Inl (Error_to_string e))
           | (s', Inr f) \<Rightarrow> (s', connected_id, [], Inr (Some f)))
      | StageItemRequested stage_id \<Rightarrow>
          (case StageRing_get (ag_stage st) stage_id of
             Some c \<Rightarrow>
               (case Session_send_stage_item d s c of
                  (s', Inl e) \<Rightarrow> (s', connected_id, [], Inl (Error_to_string e))
                | (s', Inr f) \<Rightarrow> (s', connected_id, [], Inr (Some f)))
           | None \<Rightarrow>
               (case Session_send_stage_list d s [] of
                  (s', Inl e) \<Rightarrow> (s', connected_id, [], Inl (Error_to_string e))
                | (s', Inr f) \<Rightarrow> (s', connected_id, [], Inr (Some f))))
      | PeerError code msg \<Rightarrow> (s, connected_id, [], Inr None)
      | ClipAcked clip_id status \<Rightarrow> (s, connected_id, [], Inr None)
      | EvStageList items \<Rightarrow> (s, connected_id, [], Inr None)
      | EvStageItem stage_id content_type body \<Rightarrow> (s, connected_id, [], Inr None))"

definition disconnect :: "rstr option \<Rightarrow> effect list" where
  "disconnect connected_id =
     (case connected_id of None \<Rightarrow> [] | Some i \<Rightarrow> [Event (PeerDisconnected i)])"

text \<open>The action loop of \<open>run_session\<close>.\<close>

fun session_actions ::
  "deps \<Rightarrow> script \<Rightarrow> AgentState \<Rightarrow> Session \<Rightarrow> rstr option \<Rightarrow> SessionAction list
     \<Rightarrow> Session \<times> rstr option \<times> effect list \<times> unit anyhow option" where
  "session_actions d i st s cid [] = (s, cid, [], None)"
| "session_actions d i st s cid (Send f # acts) =
     (case wire_send (in_send_err i) f of
        Inl e \<Rightarrow> (s, cid, [], Some (Inl e))
      | Inr u \<Rightarrow>
          (case session_actions d i st s cid acts of
             (s', cid', effs, r) \<Rightarrow> (s', cid', Wrote f # effs, r)))"
| "session_actions d i st s cid (Emit ev # acts) =
     (case handle_event d ev s st cid of
        (s1, cid1, effs1, Inl e) \<Rightarrow> (s1, cid1, effs1, Some (Inl e))
      | (s1, cid1, effs1, Inr None) \<Rightarrow>
          (case session_actions d i st s1 cid1 acts of
             (s', cid', effs, r) \<Rightarrow> (s', cid', effs1 @ effs, r))
      | (s1, cid1, effs1, Inr (Some reply)) \<Rightarrow>
          (case wire_send (in_send_err i) reply of
             Inl e \<Rightarrow> (s1, cid1, effs1, Some (Inl e))
           | Inr u \<Rightarrow>
               (case session_actions d i st s1 cid1 acts of
                  (s', cid', effs, r) \<Rightarrow> (s', cid', effs1 @ Wrote reply # effs, r))))"
| "session_actions d i st s cid (Close why # acts) = (s, None, disconnect cid, Some (Inr ()))"

fun session_loop ::
  "deps \<Rightarrow> Session \<Rightarrow> rstr option \<Rightarrow> Frame \<Rightarrow> script \<Rightarrow> script list \<Rightarrow> AgentState
     \<Rightarrow> AgentState \<times> effect list \<times> unit anyhow"
and session_wait ::
  "deps \<Rightarrow> Session \<Rightarrow> rstr option \<Rightarrow> script list \<Rightarrow> AgentState \<Rightarrow> AgentState \<times> effect list \<times> unit anyhow"
where
  "session_loop d s cid frame i is st =
     (case Session_on_frame d (Session_set_paused s (AgentState_is_paused st)) frame (in_now i) (in_rnd i) of
        (s1, acts) \<Rightarrow>
          (case session_actions d i st s1 cid acts of
             (s2, cid2, effs, Some r) \<Rightarrow> (st, effs, r)
           | (s2, cid2, effs, None) \<Rightarrow>
               (case session_wait d s2 cid2 is st of (st', effs', r) \<Rightarrow> (st', effs @ effs', r))))"
| "session_wait d s cid [] st = (st, disconnect cid, Inr ())"
| "session_wait d s cid (i # is) st =
     (case in_next i of
        NextFrame f \<Rightarrow> session_loop d s cid f i is (in_update i st)
      | NextErr e \<Rightarrow> (in_update i st, [], Inl (lit ''decoding session frame''))
      | NextClosed \<Rightarrow> (in_update i st, disconnect cid, Inr ())
      | NextTimeout \<Rightarrow> (in_update i st, disconnect cid, Inr ()))"

definition run_session ::
  "deps \<Rightarrow> Frame \<Rightarrow> script \<Rightarrow> script list \<Rightarrow> AgentState \<Rightarrow> AgentState \<times> effect list \<times> unit anyhow" where
  "run_session d first i is st =
     (let s = Session_set_paused
                (Session_new_pc (ag_identity st) (AgentState_peer_keys d st) (in_now i))
                (AgentState_is_paused st)
      in session_loop d s None first i is st)"

definition handle_connection ::
  "deps \<Rightarrow> platform \<Rightarrow> script list \<Rightarrow> AgentState \<Rightarrow> AgentState \<times> effect list \<times> unit anyhow" where
  "handle_connection d w is st =
     (case is of
        [] \<Rightarrow> (st, [], Inr ())
      | i # rest \<Rightarrow>
          (case in_next i of
             NextErr e \<Rightarrow> (in_update i st, [], Inl (lit ''decoding first frame''))
           | NextFrame first \<Rightarrow>
               (case frame_ty first of
                  PairReq \<Rightarrow> run_pairing d w first i rest (in_update i st)
                | Hello \<Rightarrow> run_session d first i rest (in_update i st)
                | _ \<Rightarrow> (in_update i st, [], Inr ()))
           | _ \<Rightarrow> (in_update i st, [], Inr ())))"

text \<open>One round of the accept loop: the limiter decides whether the connection is handled.\<close>

definition serve_accept ::
  "deps \<Rightarrow> platform \<Rightarrow> IpAddr \<Rightarrow> u64 \<Rightarrow> script list \<Rightarrow> AgentState \<Rightarrow> AgentState \<times> effect list" where
  "serve_accept d w ip now is st =
     (case RateLimiter_allow (ag_rate st) ip now of
        (l, allowed) \<Rightarrow>
          let st = st\<lparr> ag_rate := l \<rparr> in
          if \<not> allowed then (st, [])
          else (case handle_connection d w is st of (st', effs, r) \<Rightarrow> (st', effs)))"

definition blake3_hex8 :: "deps \<Rightarrow> bytes \<Rightarrow> rstr" where
  "blake3_hex8 d b = take 8 (content_digest d b)"

definition short_hash :: "deps \<Rightarrow> bytes \<Rightarrow> rstr" where
  "short_hash d b = blake3_hex8 d b"

end
