(* ===== verification/Clipboard.thy ===== *)
theory Clipboard
  imports Stage Keystore
begin

text \<open>
  The Windows clipboard (\<open>clipboard.rs\<close>): classifying text, the retry loop around the contended
  clipboard, writing and reading UTF-16 text, the own-write guard, and the watcher with its hidden
  window and its reader thread. What a system call answered is an input; a guard is a shared cell,
  so guards are references into a store.
\<close>

section \<open>Text\<close>

definition classify :: "rstr \<Rightarrow> ContentType" where
  "classify text =
     (let t = trim text in
      if \<not> list_ex is_whitespace t \<and> (starts_with t (lit ''http://'') \<or> starts_with t (lit ''https://''))
      then Url else Text)"

text \<open>\<open>str::encode_utf16\<close>, and \<open>String::from_utf16_lossy\<close>.\<close>

definition utf16_char :: "rchar \<Rightarrow> nat list" where
  "utf16_char c =
     (if c < 0x10000 then [c]
      else [0xD800 + (c - 0x10000) div 0x400, 0xDC00 + (c - 0x10000) mod 0x400])"

definition encode_utf16 :: "rstr \<Rightarrow> nat list" where
  "encode_utf16 s = concat (map utf16_char s)"

definition is_high :: "nat \<Rightarrow> bool" where "is_high u \<longleftrightarrow> 0xD800 \<le> u \<and> u \<le> 0xDBFF"
definition is_low :: "nat \<Rightarrow> bool" where "is_low u \<longleftrightarrow> 0xDC00 \<le> u \<and> u \<le> 0xDFFF"

fun from_utf16_lossy :: "nat list \<Rightarrow> rstr" where
  "from_utf16_lossy [] = []"
| "from_utf16_lossy [u] = [if is_high u \<or> is_low u then 0xFFFD else u]"
| "from_utf16_lossy (u # v # r) =
     (if is_high u \<and> is_low v
      then (0x10000 + (u - 0xD800) * 0x400 + (v - 0xDC00)) # from_utf16_lossy r
      else (if is_high u \<or> is_low u then 0xFFFD else u) # from_utf16_lossy (v # r))"

definition to_wide :: "rstr \<Rightarrow> nat list" where
  "to_wide s = encode_utf16 s @ [0]"

section \<open>The clipboard lock\<close>

definition OPEN_RETRIES :: nat where "OPEN_RETRIES = 5"
definition OPEN_RETRY_DELAY_MS :: nat where "OPEN_RETRY_DELAY_MS = 50"

text \<open>
  The retry loop, on the answers of \<open>OpenClipboard\<close>: whether the lock was taken, and the time
  slept. An answer past the end of the list counts as refused.
\<close>

fun acquire_loop :: "nat \<Rightarrow> bool list \<Rightarrow> nat \<Rightarrow> bool \<times> nat" where
  "acquire_loop 0 answers slept = (False, slept)"
| "acquire_loop (Suc n) answers slept =
     (case answers of
        True # _ \<Rightarrow> (True, slept)
      | False # rest \<Rightarrow> acquire_loop n rest (slept + OPEN_RETRY_DELAY_MS)
      | [] \<Rightarrow> acquire_loop n [] (slept + OPEN_RETRY_DELAY_MS))"

definition ClipboardLock_acquire :: "bool list \<Rightarrow> unit anyhow" where
  "ClipboardLock_acquire answers =
     (if fst (acquire_loop OPEN_RETRIES answers 0) then Inr ()
      else Inl (lit ''clipboard busy after '' @ show_nat OPEN_RETRIES @ lit '' attempts''))"

section \<open>Guards\<close>

type_synonym OwnWriteGuard = nat

type_synonym guards = "OwnWriteGuard \<Rightarrow> u32"

text \<open>\<open>OwnWriteGuard::default()\<close>: a fresh cell holding zero.\<close>

definition OwnWriteGuard_default :: "guards \<Rightarrow> OwnWriteGuard \<Rightarrow> guards" where
  "OwnWriteGuard_default h g = h(g := 0)"

definition OwnWriteGuard_record :: "guards \<Rightarrow> OwnWriteGuard \<Rightarrow> u32 \<Rightarrow> guards" where
  "OwnWriteGuard_record h g seq = h(g := seq)"

definition OwnWriteGuard_is_own :: "guards \<Rightarrow> OwnWriteGuard \<Rightarrow> u32 \<Rightarrow> bool" where
  "OwnWriteGuard_is_own h g seq \<longleftrightarrow> h g = seq"

section \<open>Writing and reading\<close>

text \<open>The clipboard: its \<open>CF_UNICODETEXT\<close> units, if any, and its sequence number.\<close>

record clipboard =
  cb_units :: "nat list option"
  cb_seq :: u32

text \<open>
  What the system answers: the attempts to open, failures of the calls in between (emptying,
  allocating, locking, setting, or reading), by the message of the one that fails; the units that
  lie in memory behind the block of text, up to the next zero; and what other programs do to the
  clipboard between a write's release of the lock and its reading of the sequence number.
\<close>

record cb_calls =
  cb_open :: "bool list"
  cb_empty_err :: "rstr option"
  cb_alloc_err :: "rstr option"
  cb_lock_null :: bool
  cb_set_err :: "rstr option"
  cb_get_err :: "rstr option"
  cb_behind :: "nat list"
  cb_meanwhile :: "clipboard \<Rightarrow> clipboard"

text \<open>
  Emptying and setting each advance the sequence number. The number recorded is read after the lock
  was released, whoever wrote last.
\<close>

definition set_text ::
  "cb_calls \<Rightarrow> clipboard \<Rightarrow> guards \<Rightarrow> rstr \<Rightarrow> OwnWriteGuard \<Rightarrow> clipboard \<times> guards \<times> u32 anyhow" where
  "set_text sys cb h text guard =
     (case ClipboardLock_acquire (cb_open sys) of
        Inl e \<Rightarrow> (cb, h, Inl e)
      | Inr u \<Rightarrow>
     (case cb_empty_err sys of
        Some e \<Rightarrow> (cb, h, Inl e)
      | None \<Rightarrow>
          let cb1 = \<lparr> cb_units = None, cb_seq = cb_seq cb + 1 \<rparr> in
     (case cb_alloc_err sys of
        Some e \<Rightarrow> (cb1, h, Inl e)
      | None \<Rightarrow>
          if cb_lock_null sys then (cb1, h, Inl (lit ''GlobalLock failed''))
          else
     (case cb_set_err sys of
        Some e \<Rightarrow> (cb1, h, Inl e)
      | None \<Rightarrow>
          let cb2 = \<lparr> cb_units = Some (to_wide text), cb_seq = cb_seq cb1 + 1 \<rparr>;
              cb3 = cb_meanwhile sys cb2 in
          (cb3, OwnWriteGuard_record h guard (cb_seq cb3), Inr (cb_seq cb3))))))"

text \<open>
  The loop that measures the text up to the terminating zero. It has no bound: where the block holds
  no zero it runs on into what lies behind.
\<close>

definition wide_len :: "nat list \<Rightarrow> nat" where
  "wide_len us = length (takeWhile (\<lambda>u. u \<noteq> 0) us)"

definition get_text :: "cb_calls \<Rightarrow> clipboard \<Rightarrow> rstr option anyhow" where
  "get_text sys cb =
     (case cb_units cb of
        None \<Rightarrow> Inr None
      | Some us \<Rightarrow>
          try_r (ClipboardLock_acquire (cb_open sys)) (\<lambda>u.
            case cb_get_err sys of
              Some e \<Rightarrow> Inl e
            | None \<Rightarrow>
                if cb_lock_null sys then Inr None
                else let mem = us @ cb_behind sys @ [0]
                     in Inr (Some (from_utf16_lossy (take (wide_len mem) mem)))))"

section \<open>The watcher\<close>

record ClipboardEvent =
  ce_content_type :: ContentType
  ce_body :: bytes

text \<open>
  One round of the reader thread, after a burst of updates: what it forwards. The clipboard is the
  same when its number and when its text are read.
\<close>

definition reader_round :: "cb_calls \<Rightarrow> clipboard \<Rightarrow> guards \<Rightarrow> OwnWriteGuard \<Rightarrow> ClipboardEvent option" where
  "reader_round sys cb h guard =
     (if OwnWriteGuard_is_own h guard (cb_seq cb) then None
      else case get_text sys cb of
             Inr (Some text) \<Rightarrow>
               if text \<noteq> [] then Some \<lparr> ce_content_type = classify text, ce_body = as_bytes text \<rparr> else None
           | Inr None \<Rightarrow> None
           | Inl e \<Rightarrow> None)"

section \<open>Reading back what was written\<close>

lemma utf16_lossy_char:
  assumes "valid_char c"
  shows "from_utf16_lossy (utf16_char c @ r) = c # from_utf16_lossy r"
proof (cases "c < 0x10000")
  case True
  then have "\<not> is_high c" "\<not> is_low c" using assms by (auto simp: valid_char_def is_high_def is_low_def)
  then show ?thesis using True by (cases r) (simp_all add: utf16_char_def)
next
  case False
  define n where "n = c - 0x10000"
  have c: "c = 0x10000 + n" "n < 0x100000" using False assms by (auto simp: n_def valid_char_def)
  have "n div 0x400 < 0x400" using c(2) by (simp add: less_mult_imp_div_less)
  then have "is_high (0xD800 + n div 0x400)" "is_low (0xDC00 + n mod 0x400)"
    by (auto simp: is_high_def is_low_def less_Suc_eq_le [symmetric])
  then show ?thesis by (simp add: utf16_char_def c(1))
qed

lemma utf16_roundtrip: "valid_str s \<Longrightarrow> from_utf16_lossy (encode_utf16 s) = s"
  by (induction s) (simp_all add: encode_utf16_def utf16_lossy_char)

lemma utf16_units: "u \<in> set (utf16_char c) \<Longrightarrow> u = 0 \<Longrightarrow> c = 0"
  by (auto simp: utf16_char_def split: if_splits)

text \<open>The terminating zero stops the scan, whatever lies behind it.\<close>

lemma to_wide_text:
  "take (wide_len (to_wide s @ behind)) (to_wide s @ behind) = encode_utf16 (takeWhile (\<lambda>c. c \<noteq> 0) s)"
proof (induction s)
  case (Cons c s)
  have "takeWhile (\<lambda>u. u \<noteq> 0) (utf16_char c @ r) = utf16_char c @ takeWhile (\<lambda>u. u \<noteq> 0) r" if "c \<noteq> 0" for r
    using that by (intro takeWhile_append2) (auto dest: utf16_units intro: gr0I)
  moreover have "utf16_char 0 = [0]" by (simp add: utf16_char_def)
  ultimately show ?case
    using Cons by (cases "c = 0") (auto simp: to_wide_def wide_len_def encode_utf16_def)
qed (simp add: to_wide_def wide_len_def encode_utf16_def)

lemma valid_str_takeWhile: "valid_str s \<Longrightarrow> valid_str (takeWhile P s)"
  by (induction s) auto

lemma read_back:
  assumes "cb_units cb = Some (to_wide s)" "valid_str s"
    and "ClipboardLock_acquire (cb_open sys) = Inr ()" "cb_get_err sys = None" "\<not> cb_lock_null sys"
  shows "get_text sys cb = Inr (Some (takeWhile (\<lambda>c. c \<noteq> 0) s))"
  using assms by (simp add: get_text_def Let_def to_wide_text utf16_roundtrip valid_str_takeWhile del: take_append)

text \<open>What a write leaves: the other programs' work on its own, and that sequence number recorded.\<close>

lemma set_text_result:
  assumes "set_text sys cb h text g = (cb', h', Inr seq)"
  shows "cb' = cb_meanwhile sys \<lparr> cb_units = Some (to_wide text), cb_seq = cb_seq cb + 2 \<rparr> \<and>
    h' = h(g := seq) \<and> seq = cb_seq cb'"
  using assms
  by (auto simp: set_text_def Let_def OwnWriteGuard_record_def add.commute split: sum.splits option.splits if_splits)

text \<open>
  C34: Text survives the clipboard. After a successful write that no other program disturbs, a read
  that gets the lock returns the written text up to its first NUL character, whatever characters
  it is made of and whatever lies in memory behind it; with any guard other than the write's that
  does not happen to hold the sequence number, the watcher reports the text as copied on the PC.
  With the guard of the write the watcher ignores the update; and so it does, whatever the
  clipboard then holds, when another program wrote to it before the sequence number was read.
\<close>

theorem clipboard_write_read:
  assumes valid: "valid_str text" and w: "set_text sys cb h text g = (cb', h', Inr seq)"
    and lock: "ClipboardLock_acquire (cb_open sys') = Inr ()" "cb_get_err sys' = None" "\<not> cb_lock_null sys'"
  shows "reader_round sys' cb' h' g = None \<and>
    (cb_meanwhile sys = (\<lambda>cb. cb) \<longrightarrow>
      (let t = takeWhile (\<lambda>c. c \<noteq> 0) text in
       get_text sys' cb' = Inr (Some t) \<and>
       reader_round sys' cb' h' v =
         (if v = g \<or> h v = seq \<or> t = [] then None
          else Some \<lparr> ce_content_type = classify t, ce_body = as_bytes t \<rparr>)))"
proof (intro conjI impI)
  note r = set_text_result [OF w]
  show "reader_round sys' cb' h' g = None" using r by (simp add: reader_round_def OwnWriteGuard_is_own_def)
  assume "cb_meanwhile sys = (\<lambda>cb. cb)"
  then have "get_text sys' cb' = Inr (Some (takeWhile (\<lambda>c. c \<noteq> 0) text))"
    using r lock valid by (simp add: read_back)
  then show "let t = takeWhile (\<lambda>c. c \<noteq> 0) text in get_text sys' cb' = Inr (Some t) \<and>
      reader_round sys' cb' h' v = (if v = g \<or> h v = seq \<or> t = [] then None
        else Some \<lparr> ce_content_type = classify t, ce_body = as_bytes t \<rparr>)"
    using r by (auto simp: reader_round_def OwnWriteGuard_is_own_def Let_def)
qed

definition demo_calls :: cb_calls where
  "demo_calls = \<lparr> cb_open = [False, True], cb_empty_err = None, cb_alloc_err = None,
     cb_lock_null = False, cb_set_err = None, cb_get_err = None, cb_behind = [88, 89],
     cb_meanwhile = (\<lambda>cb. cb) \<rparr>"

definition demo_clipboard :: clipboard where
  "demo_clipboard = \<lparr> cb_units = None, cb_seq = 40 \<rparr>"

lemma demo_lock: "ClipboardLock_acquire (cb_open demo_calls) = Inr ()" "cb_get_err demo_calls = None" "\<not> cb_lock_null demo_calls"
  by (simp_all add: ClipboardLock_acquire_def demo_calls_def OPEN_RETRIES_def numeral_eq_Suc)

lemma demo_write:
  "set_text demo_calls demo_clipboard h text g =
    (\<lparr> cb_units = Some (to_wide text), cb_seq = 42 \<rparr>, h(g := 42), Inr 42)"
  using demo_lock(1)
  by (simp add: set_text_def Let_def demo_clipboard_def OwnWriteGuard_record_def)
    (simp add: demo_calls_def OwnWriteGuard_record_def)

text \<open>Another program copies \<open>X\<close> in between.\<close>

definition disturbed_calls :: cb_calls where
  "disturbed_calls = demo_calls\<lparr> cb_meanwhile := (\<lambda>cb. \<lparr> cb_units = Some (to_wide [88]), cb_seq = cb_seq cb + 2 \<rparr>) \<rparr>"

lemma disturbed_write:
  "set_text disturbed_calls demo_clipboard h text g =
    (\<lparr> cb_units = Some (to_wide [88]), cb_seq = 44 \<rparr>, h(g := 44), Inr 44)"
  using demo_lock(1)
  by (simp add: set_text_def Let_def disturbed_calls_def demo_clipboard_def OwnWriteGuard_record_def)
    (simp add: demo_calls_def OwnWriteGuard_record_def)

theorem clipboard_write_read_witness:
  "get_text demo_calls \<lparr> cb_units = Some (to_wide [72, 0x1F680]), cb_seq = 42 \<rparr> = Inr (Some [72, 0x1F680]) \<and>
   reader_round demo_calls \<lparr> cb_units = Some (to_wide [72, 0x1F680]), cb_seq = 42 \<rparr> ((\<lambda>_. 0)(7 := 42)) 7 = None \<and>
   reader_round demo_calls \<lparr> cb_units = Some (to_wide [88]), cb_seq = 44 \<rparr> ((\<lambda>_. 0)(7 := 44)) 7 = None"
  using clipboard_write_read [OF _ demo_write [of "\<lambda>_. 0" "[72, 0x1F680]" 7] demo_lock, of 7]
    clipboard_write_read [OF _ disturbed_write [of "\<lambda>_. 0" "[72, 0x1F680]" 7] demo_lock, of 7]
  by (simp add: valid_char_def demo_calls_def)

section \<open>The watcher's threads\<close>

text \<open>
  The hidden window: \<open>wnd_proc\<close> sends a tick for each clipboard update through the sender kept in
  the static cell, and forwards every other message. A tick is the time at which it was sent.
\<close>

definition WM_CLIPBOARDUPDATE :: u32 where "WM_CLIPBOARDUPDATE = 0x031D"

datatype sender_slot = Poisoned | Unset | Sender

datatype lresult = LRESULT_0 | DefWindowProc u32

definition wnd_proc :: "sender_slot \<Rightarrow> u32 \<Rightarrow> nat \<Rightarrow> nat list \<times> lresult" where
  "wnd_proc slot msg now =
     (if msg = WM_CLIPBOARDUPDATE then
        ((case slot of Poisoned \<Rightarrow> [] | Unset \<Rightarrow> [] | Sender \<Rightarrow> [now]), LRESULT_0)
      else ([], DefWindowProc msg))"

text \<open>
  The first thread: without a window or a listener it ends; otherwise it dispatches the messages it
  gets, with their times, until there are no more.
\<close>

record window_calls =
  wc_window :: bool
  wc_listener :: bool
  wc_messages :: "(u32 \<times> nat) list"

fun message_pump :: "sender_slot \<Rightarrow> (u32 \<times> nat) list \<Rightarrow> nat list" where
  "message_pump slot [] = []"
| "message_pump slot ((msg, now) # msgs) = fst (wnd_proc slot msg now) @ message_pump slot msgs"

definition watcher_thread :: "sender_slot \<Rightarrow> window_calls \<Rightarrow> nat list" where
  "watcher_thread slot wc =
     (if \<not> wc_window wc then []
      else if \<not> wc_listener wc then []
      else message_pump slot (wc_messages wc))"

text \<open>
  The reader thread takes ticks until none came for 100 ms. The result is the time at which it
  goes on, and the ticks left for later. The sender lives in a static cell, so the channel is
  never disconnected: without more ticks the wait times out.
\<close>

definition BURST_MS :: nat where "BURST_MS = 100"

fun coalesce :: "nat \<Rightarrow> nat list \<Rightarrow> nat \<times> nat list" where
  "coalesce now [] = (now + BURST_MS, [])"
| "coalesce now (t # ticks) =
     (if t < now + BURST_MS then coalesce (max now t) ticks else (now + BURST_MS, t # ticks))"

lemma coalesce_left: "(at, rest) = coalesce now ticks \<Longrightarrow> length rest \<le> length ticks"
  by (induction now ticks rule: coalesce.induct) (auto split: if_splits)

text \<open>What a round meets: the system's answers, the clipboard, the guards, and the time it takes.\<close>

record round_in =
  ri_sys :: cb_calls
  ri_clipboard :: clipboard
  ri_guards :: guards
  ri_took :: nat

text \<open>
  The loop, from time \<open>now\<close>, on the ticks: \<open>world\<close> is what a round at a given time meets, and the
  receiver of the events goes away after \<open>alive\<close> of them.
\<close>

function reader_loop ::
  "(nat \<Rightarrow> round_in) \<Rightarrow> OwnWriteGuard \<Rightarrow> nat \<Rightarrow> nat \<Rightarrow> nat list \<Rightarrow> ClipboardEvent list" where
  "reader_loop world guard alive now [] = []"
| "reader_loop world guard alive now (t # ticks) =
     (case coalesce (max now t) ticks of (at, rest) \<Rightarrow>
        let i = world at in
        (case reader_round (ri_sys i) (ri_clipboard i) (ri_guards i) guard of
           None \<Rightarrow> reader_loop world guard alive (at + ri_took i) rest
         | Some ev \<Rightarrow>
             if alive = 0 then [] else ev # reader_loop world guard (alive - 1) (at + ri_took i) rest))"
  by pat_completeness auto

termination reader_loop
  by (relation "measure (\<lambda>(world, guard, alive, now, ticks). length ticks)")
    (auto dest: coalesce_left simp: less_Suc_eq_le)

declare reader_loop.simps(2) [simp del]

definition spawn_watcher :: "window_calls \<Rightarrow> (nat \<Rightarrow> round_in) \<Rightarrow> OwnWriteGuard \<Rightarrow> nat \<Rightarrow> ClipboardEvent list" where
  "spawn_watcher wc world guard alive = reader_loop world guard alive 0 (watcher_thread Sender wc)"

text \<open>A round comes after every tick of its burst; what is left over begins with a later tick.\<close>

lemma coalesce_time: "now \<le> fst (coalesce now ticks)"
  by (induction now ticks rule: coalesce.induct) auto

lemma coalesce_rest:
  obtains taken where "ticks = taken @ snd (coalesce now ticks)" "\<forall>t \<in> set taken. t \<le> fst (coalesce now ticks)"
proof -
  have "\<exists>taken. ticks = taken @ snd (coalesce now ticks) \<and> (\<forall>t \<in> set taken. t \<le> fst (coalesce now ticks))"
  proof (induction now ticks rule: coalesce.induct)
    case (2 now t ticks)
    show ?case
    proof (cases "t < now + BURST_MS")
      case True
      then obtain taken where "ticks = taken @ snd (coalesce (max now t) ticks)"
        "\<forall>u \<in> set taken. u \<le> fst (coalesce (max now t) ticks)" using "2.IH" by blast
      then show ?thesis
        using True coalesce_time [of "max now t" ticks] by (intro exI [of _ "t # taken"]) simp
    qed simp
  qed simp
  then show ?thesis using that by blast
qed

lemma pump_ticks:
  "message_pump Sender msgs = map snd (filter (\<lambda>m. fst m = WM_CLIPBOARDUPDATE) msgs)"
  by (induction msgs) (auto simp: wnd_proc_def)

lemma reader_reports_last:
  assumes "ticks \<noteq> []" "length ticks \<le> alive"
    and "\<forall>u \<ge> last ticks. let i = world u in reader_round (ri_sys i) (ri_clipboard i) (ri_guards i) guard = Some ev"
  shows "\<exists>evs. reader_loop world guard alive now ticks = evs @ [ev] \<and> length evs < length ticks"
  using assms
proof (induction world guard alive now ticks rule: reader_loop.induct)
  case (2 world guard alive now t ticks)
  obtain at rest where c: "coalesce (max now t) ticks = (at, rest)" by fastforce
  obtain taken where taken: "ticks = taken @ rest" "\<forall>u \<in> set taken. u \<le> at"
    using coalesce_rest [of ticks "max now t"] c by (metis fst_conv snd_conv)
  have t: "t \<le> at" using coalesce_time [of "max now t" ticks] c by simp
  let ?i = "world at"
  let ?r = "reader_round (ri_sys ?i) (ri_clipboard ?i) (ri_guards ?i) guard"
  show ?case
  proof (cases "rest = []")
    case True
    then have "last (t # ticks) \<le> at" using taken t by (cases "taken = []") auto
    then have "?r = Some ev" using "2.prems"(3) by (simp add: Let_def)
    then show ?thesis using c True "2.prems"(2) by (simp add: reader_loop.simps(2) Let_def)
  next
    case False
    have stable: "last rest = last (t # ticks)" using False taken by simp
    show ?thesis
    proof (cases ?r)
      case None
      have "\<exists>evs. reader_loop world guard alive (at + ri_took ?i) rest = evs @ [ev] \<and> length evs < length rest"
        using "2.IH"(1) [OF c [symmetric] refl None False] "2.prems"(2,3) taken stable by simp
      then show ?thesis using c None taken(1) by (fastforce simp: reader_loop.simps(2) Let_def)
    next
      case (Some e)
      have "alive \<noteq> 0" using "2.prems"(2) by simp
      have "\<exists>evs. reader_loop world guard (alive - 1) (at + ri_took ?i) rest = evs @ [ev] \<and> length evs < length rest"
        using "2.IH"(2) [OF c [symmetric] refl Some \<open>alive \<noteq> 0\<close> False] "2.prems"(2,3) taken stable by simp
      then obtain evs where "reader_loop world guard (alive - 1) (at + ri_took ?i) rest = evs @ [ev]" "length evs < length rest"
        by blast
      then show ?thesis
        using c Some taken(1) \<open>alive \<noteq> 0\<close> by (intro exI [of _ "e # evs"]) (simp add: reader_loop.simps(2) Let_def)
    qed
  qed
qed simp

lemma burst_is_one_round:
  assumes "successively (\<lambda>a b. a \<le> b \<and> b < a + BURST_MS) (t # ticks)"
  shows "coalesce t ticks = (last (t # ticks) + BURST_MS, [])"
  using assms by (induction ticks arbitrary: t) (simp_all add: max_absorb2)

text \<open>
  C36: The last copy is never missed. Whatever else its window is sent and however the updates
  arrive in bursts, if from the last clipboard update on a read finds the same new text, then
  the watcher's last event is that text, and it reports at most one event per update. Updates
  that follow each other within 100 ms are reported as one event.
\<close>

theorem last_copy_is_reported:
  assumes "wc_window wc" "wc_listener wc"
    and updates: "map snd (filter (\<lambda>m. fst m = WM_CLIPBOARDUPDATE) (wc_messages wc)) = ticks" "ticks \<noteq> []"
    and "length ticks \<le> alive"
    and stable: "\<forall>u \<ge> last ticks. let i = world u in reader_round (ri_sys i) (ri_clipboard i) (ri_guards i) guard = Some ev"
  shows "\<exists>evs. spawn_watcher wc world guard alive = evs @ [ev] \<and> length evs < length ticks \<and>
    (successively (\<lambda>a b. a \<le> b \<and> b < a + BURST_MS) ticks \<longrightarrow> evs = [])"
proof -
  have w: "spawn_watcher wc world guard alive = reader_loop world guard alive 0 ticks"
    using assms(1-3) by (simp add: spawn_watcher_def watcher_thread_def pump_ticks)
  obtain evs where evs: "reader_loop world guard alive 0 ticks = evs @ [ev]" "length evs < length ticks"
    using reader_reports_last [OF assms(4-6)] by blast
  have "evs = []" if "successively (\<lambda>a b. a \<le> b \<and> b < a + BURST_MS) ticks"
  proof -
    obtain t rest where t: "ticks = t # rest" using assms(4) by (cases ticks) auto
    have "length (reader_loop world guard alive 0 ticks) \<le> 1"
      using burst_is_one_round [OF that [unfolded t]]
      by (simp add: t reader_loop.simps(2) Let_def split: option.split)
    then show ?thesis using evs(1) by simp
  qed
  then show ?thesis using w evs by (intro exI [of _ evs]) simp
qed

definition demo_round :: "nat \<Rightarrow> round_in" where
  "demo_round u =
     \<lparr> ri_sys = demo_calls, ri_clipboard = \<lparr> cb_units = Some (to_wide (if u < 30 then [65] else [72, 105])), cb_seq = 42 \<rparr>,
       ri_guards = (\<lambda>_. 0), ri_took = 5 \<rparr>"

theorem last_copy_is_reported_witness:
  "spawn_watcher \<lparr> wc_window = True, wc_listener = True,
      wc_messages = [(WM_CLIPBOARDUPDATE, 10), (0x0113, 20), (WM_CLIPBOARDUPDATE, 30)] \<rparr> demo_round 7 9 =
    [\<lparr> ce_content_type = Text, ce_body = [72, 105] \<rparr>]"
proof -
  let ?wc = "\<lparr> wc_window = True, wc_listener = True,
      wc_messages = [(WM_CLIPBOARDUPDATE, 10), (0x0113, 20), (WM_CLIPBOARDUPDATE, 30)] \<rparr>"
  have "get_text demo_calls \<lparr> cb_units = Some (to_wide [72, 105]), cb_seq = 42 \<rparr> = Inr (Some [72, 105])"
    using read_back [of "\<lparr> cb_units = Some (to_wide [72, 105]), cb_seq = 42 \<rparr>" "[72, 105]" demo_calls] demo_lock
    by (simp add: valid_char_def)
  moreover have "classify [72, 105] = Text"
    by (simp add: classify_def Let_def starts_with_def lit_def trim_def is_whitespace_def)
  ultimately have "\<forall>u \<ge> 30. let i = demo_round u in reader_round (ri_sys i) (ri_clipboard i) (ri_guards i) 7 =
      Some \<lparr> ce_content_type = Text, ce_body = [72, 105] \<rparr>"
    by (simp add: demo_round_def reader_round_def OwnWriteGuard_is_own_def as_bytes_def utf8_char_def)
  then show ?thesis
    using last_copy_is_reported [of ?wc "[10, 30]" 9 demo_round 7 "\<lparr> ce_content_type = Text, ce_body = [72, 105] \<rparr>"]
    by (simp add: WM_CLIPBOARDUPDATE_def BURST_MS_def)
qed

end
