(* ===== verification/Toast.thy ===== *)
theory Toast
  imports Keystore
begin

text \<open>
  Arrival toasts (\<open>toast.rs\<close>): the preview of a clip, escaping, the XML of the toast and the calls
  that show it.
\<close>

section \<open>The text and its XML\<close>

definition TOAST_PREVIEW_CHARS :: nat where "TOAST_PREVIEW_CHARS = 40"

text \<open>The loop over the characters, with the count so far.\<close>

fun toast_loop :: "nat \<Rightarrow> rstr \<Rightarrow> rstr" where
  "toast_loop count [] = []"
| "toast_loop count (ch # s) =
     (if count = TOAST_PREVIEW_CHARS then [0x2026]
      else (if ch = 10 \<or> ch = 13 then 32 else ch) # toast_loop (Suc count) s)"

definition toast_preview :: "rstr \<Rightarrow> rstr" where
  "toast_preview text = toast_loop 0 text"

definition xml_escape_char :: "rchar \<Rightarrow> rstr" where
  "xml_escape_char c =
     (if c = 38 then lit ''&amp;''
      else if c = 60 then lit ''&lt;''
      else if c = 62 then lit ''&gt;''
      else if c = 34 then lit ''&quot;''
      else if c = 39 then lit ''&apos;''
      else [c])"

definition xml_escape :: "rstr \<Rightarrow> rstr" where
  "xml_escape s = concat (map xml_escape_char s)"

definition toast_xml :: "rstr \<Rightarrow> rstr \<Rightarrow> rstr" where
  "toast_xml title body =
     lit ''<toast activationType=\"foreground\"><visual><binding template=\"ToastGeneric\"><text>'' @
     xml_escape title @ lit ''</text><text>'' @ xml_escape body @
     lit ''</text></binding></visual></toast>''"

section \<open>Showing it\<close>

text \<open>
  What the notification system answers: failures of creating the document, of parsing the XML, of
  creating the toast, of finding the notifier of an application, and of showing the toast.
\<close>

record toast_calls =
  tc_doc_err :: "rstr option"
  tc_load_err :: "rstr \<Rightarrow> rstr option"
  tc_create_err :: "rstr option"
  tc_notifier_err :: "rstr \<Rightarrow> rstr option"
  tc_show_err :: "rstr option"

definition AUMID :: rstr where "AUMID = lit ''com.narrion.AirClip''"

definition sys_call :: "rstr option \<Rightarrow> unit anyhow" where
  "sys_call err = (case err of None \<Rightarrow> Inr () | Some e \<Rightarrow> Inl e)"

text \<open>The toast shown, as the application and the XML, and the result. The title starts with an emoji.\<close>

definition show_clip_arrived :: "toast_calls \<Rightarrow> rstr \<Rightarrow> rstr \<Rightarrow> (rstr \<times> rstr) option \<times> unit anyhow" where
  "show_clip_arrived tc preview source =
     (let title = 0x1F4CB # lit '' from '' @ source;
          xml = toast_xml title preview;
          r = try_r (sys_call (tc_doc_err tc)) (\<lambda>_.
              try_r (sys_call (tc_load_err tc xml)) (\<lambda>_.
              try_r (sys_call (tc_create_err tc)) (\<lambda>_.
              try_r (sys_call (tc_notifier_err tc AUMID)) (\<lambda>_.
                sys_call (tc_show_err tc)))))
      in (if r = Inr () then Some (AUMID, xml) else None, r))"

definition demo_toasts :: toast_calls where
  "demo_toasts = \<lparr> tc_doc_err = None, tc_load_err = (\<lambda>_. None), tc_create_err = None,
     tc_notifier_err = (\<lambda>_. None), tc_show_err = None \<rparr>"

section \<open>The toast's XML\<close>

text \<open>Expanding the five predefined entities.\<close>

fun xml_unescape :: "rstr \<Rightarrow> rstr" where
  "xml_unescape [] = []"
| "xml_unescape (c # s) =
     (if c = 38 then
        (if starts_with s (lit ''amp;'') then 38 # xml_unescape (drop 4 s)
         else if starts_with s (lit ''lt;'') then 60 # xml_unescape (drop 3 s)
         else if starts_with s (lit ''gt;'') then 62 # xml_unescape (drop 3 s)
         else if starts_with s (lit ''quot;'') then 34 # xml_unescape (drop 5 s)
         else if starts_with s (lit ''apos;'') then 39 # xml_unescape (drop 5 s)
         else c # xml_unescape s)
      else c # xml_unescape s)"

lemma xml_unescape_char: "xml_unescape (xml_escape_char c @ s) = c # xml_unescape s"
  by (auto simp: xml_escape_char_def lit_def starts_with_def numeral_eq_Suc)

lemma toast_loop_shape:
  "n \<le> TOAST_PREVIEW_CHARS \<Longrightarrow>
   toast_loop n s = map (\<lambda>c. if c = 10 \<or> c = 13 then 32 else c) (take (TOAST_PREVIEW_CHARS - n) s) @
     (if length s > TOAST_PREVIEW_CHARS - n then [0x2026] else [])"
proof (induction n s rule: toast_loop.induct)
  case (2 n c s)
  then show ?case
    by (cases "n = TOAST_PREVIEW_CHARS") (auto simp: Suc_diff_Suc [symmetric] take_Cons')
qed simp

text \<open>
  A toast shows the clip as text. The preview is the first forty characters with line breaks
  as spaces, and an ellipsis exactly when something was cut; the XML contains none of the
  characters that could open or close markup in the escaped parts, and expanding the entities
  gives back the title and the preview.
\<close>

theorem toast_shows_text:
  "toast_preview text = map (\<lambda>c. if c = 10 \<or> c = 13 then 32 else c) (take 40 text) @
     (if length text > 40 then [0x2026] else []) \<and>
   xml_unescape (xml_escape s) = s \<and>
   set (xml_escape s) \<inter> {60, 62, 34, 39} = {}"
proof -
  have "xml_unescape (xml_escape s) = s"
    by (induction s) (simp_all add: xml_escape_def xml_unescape_char del: xml_unescape.simps(2))
  moreover have "set (xml_escape s) \<inter> {60, 62, 34, 39} = {}"
    by (auto simp: xml_escape_def xml_escape_char_def lit_def split: if_splits)
  ultimately show ?thesis
    using toast_loop_shape [of 0 "text"] by (simp add: toast_preview_def TOAST_PREVIEW_CHARS_def)
qed

end
