(* ===== verification/Tray.thy ===== *)
theory Tray
  imports Keystore
begin

text \<open>
  The notification-area part of the agent (\<open>tray.rs\<close>): status texts, the generated icon, the
  single-instance mutex, the autostart registry value and the menu thread. The named mutexes of
  the machine are a map from names to the number of open handles, the values of the registry's
  Run key a map from names to strings; whether a system call fails is an argument.
\<close>

section \<open>Status and commands\<close>

datatype Status = Unpaired | Idle | Connected | Paused

fun Status_tooltip :: "Status \<Rightarrow> rstr option \<Rightarrow> rstr" where
  "Status_tooltip Unpaired n = lit ''AirClip '' @ [0x2014] @ lit '' not paired''"
| "Status_tooltip Idle (Some n) = lit ''AirClip '' @ [0x2014] @ lit '' paired with '' @ n"
| "Status_tooltip Idle None = lit ''AirClip '' @ [0x2014] @ lit '' paired''"
| "Status_tooltip Connected (Some n) = lit ''AirClip '' @ [0x2014] @ lit '' '' @ n @ lit '' connected''"
| "Status_tooltip Connected None = lit ''AirClip '' @ [0x2014] @ lit '' connected''"
| "Status_tooltip Paused n = lit ''AirClip '' @ [0x2014] @ lit '' paused''"

datatype TrayCommand = OpenPairing | SetPaused bool | SetAutostart bool | Quit

text \<open>A click on the menu, with the two check marks before and after.\<close>

definition classify_menu_event ::
  "'id \<Rightarrow> 'id \<Rightarrow> 'id \<Rightarrow> 'id \<Rightarrow> 'id \<Rightarrow> bool \<Rightarrow> bool \<Rightarrow> bool \<times> bool \<times> TrayCommand option" where
  "classify_menu_event clicked pair pause autostart quit paused_state autostart_state =
     (if clicked = pair then (paused_state, autostart_state, Some OpenPairing)
      else if clicked = pause then (\<not> paused_state, autostart_state, Some (SetPaused (\<not> paused_state)))
      else if clicked = autostart then (paused_state, \<not> autostart_state, Some (SetAutostart (\<not> autostart_state)))
      else if clicked = quit then (paused_state, autostart_state, Some Quit)
      else (paused_state, autostart_state, None))"

text \<open>
  The tray thread's drain of pending menu events: the commands sent, in order, and the check marks
  afterwards, or None when Quit ended the thread.
\<close>

fun drain_events ::
  "'id \<Rightarrow> 'id \<Rightarrow> 'id \<Rightarrow> 'id \<Rightarrow> 'id list \<Rightarrow> bool \<Rightarrow> bool \<Rightarrow> TrayCommand list \<times> (bool \<times> bool) option" where
  "drain_events pair pause autostart quit [] paused_state autostart_state =
     ([], Some (paused_state, autostart_state))"
| "drain_events pair pause autostart quit (e # es) paused_state autostart_state =
     (case classify_menu_event e pair pause autostart quit paused_state autostart_state of
        (p, a, None) \<Rightarrow> drain_events pair pause autostart quit es p a
      | (p, a, Some cmd) \<Rightarrow>
          if cmd = Quit then ([cmd], None)
          else (case drain_events pair pause autostart quit es p a of (cmds, r) \<Rightarrow> (cmd # cmds, r)))"

section \<open>The icon\<close>

text \<open>
  Coordinates are measured in half pixels, which makes the source's single-precision arithmetic
  exact: every difference is a multiple of a half, and no sum of squares it compares meets
  the bound's square.
\<close>

definition icon_inside :: "int \<Rightarrow> int \<Rightarrow> bool" where
  "icon_inside x y =
     (let dx = \<bar>2 * x - 31\<bar>; dy = \<bar>2 * y - 31\<bar>
      in dx \<le> 28 \<and> dy \<le> 28 \<and> (max (dx - 20) 0) ^ 2 + (max (dy - 20) 0) ^ 2 \<le> 64)"

definition icon_band :: "int \<Rightarrow> int \<Rightarrow> bool" where
  "icon_band x y \<longleftrightarrow> \<bar>x - y\<bar> \<le> 3 \<or> \<bar>x + y - 31\<bar> \<le> 3"

definition icon_paint :: "bytes \<Rightarrow> nat \<times> nat \<Rightarrow> bytes" where
  "icon_paint px = (\<lambda>(y, x).
     if \<not> icon_inside (int x) (int y) then px
     else
       let i = (y * 32 + x) * 4;
           (r, g, b) = (if icon_band (int x) (int y) then (150, 200, 255) else (10, 90, 200))
       in px[i := r, i + 1 := g, i + 2 := b, i + 3 := 255])"

definition icon_rgba :: "bytes \<times> u32 \<times> u32" where
  "icon_rgba = (foldl icon_paint (replicate (32 * 32 * 4) 0) (List.product [0..<32] [0..<32]), 32, 32)"

section \<open>The single instance\<close>

definition SINGLE_INSTANCE_MUTEX :: rstr where
  "SINGLE_INSTANCE_MUTEX = lit ''Global'' @ [92] @ lit ''AirClipSingleInstance''"

type_synonym mutexes = "rstr \<Rightarrow> nat"

text \<open>
  \<open>CreateMutexW\<close> opens one more handle of a mutex that exists, and says so; the handle of a
  mutex that was there is closed again. \<open>err\<close> is the call's own failure.
\<close>

definition SingleInstance_acquire_named ::
  "rstr option \<Rightarrow> mutexes \<Rightarrow> rstr \<Rightarrow> mutexes \<times> rstr option anyhow" where
  "SingleInstance_acquire_named err ms name =
     (case err of
        Some e \<Rightarrow> (ms, Inl e)
      | None \<Rightarrow>
          let already = 0 < ms name;
              ms = ms(name := ms name + 1)
          in if already then (ms(name := ms name - 1), Inr None) else (ms, Inr (Some name)))"

definition SingleInstance_acquire :: "rstr option \<Rightarrow> mutexes \<Rightarrow> mutexes \<times> rstr option anyhow" where
  "SingleInstance_acquire err ms = SingleInstance_acquire_named err ms SINGLE_INSTANCE_MUTEX"

definition SingleInstance_drop :: "mutexes \<Rightarrow> rstr \<Rightarrow> mutexes" where
  "SingleInstance_drop ms name = ms(name := ms name - 1)"

section \<open>Autostart\<close>

definition AUTOSTART_VALUE :: rstr where "AUTOSTART_VALUE = lit ''AirClip''"

record reg_calls =
  rc_create :: "rstr option"
  rc_exe :: "rstr option anyhow"
  rc_set :: "rstr option"
  rc_remove :: "rstr option"

type_synonym registry = "rstr \<rightharpoonup> rstr"

definition run_key :: "reg_calls \<Rightarrow> unit anyhow" where
  "run_key rc = (case rc_create rc of Some e \<Rightarrow> Inl e | None \<Rightarrow> Inr ())"

definition is_autostart_enabled :: "reg_calls \<Rightarrow> registry \<Rightarrow> bool" where
  "is_autostart_enabled rc reg = (case run_key rc of Inl e \<Rightarrow> False | Inr u \<Rightarrow> reg AUTOSTART_VALUE \<noteq> None)"

text \<open>\<open>rc_exe\<close> is the program's path: the call's error, a path that is not UTF-8, or its text.\<close>

definition set_autostart :: "reg_calls \<Rightarrow> registry \<Rightarrow> bool \<Rightarrow> registry \<times> unit anyhow" where
  "set_autostart rc reg enabled =
     (case run_key rc of
        Inl e \<Rightarrow> (reg, Inl e)
      | Inr u \<Rightarrow>
          if enabled then
            (case rc_exe rc of
               Inl e \<Rightarrow> (reg, Inl e)
             | Inr None \<Rightarrow> (reg, Inl (lit ''executable path is not valid UTF-8''))
             | Inr (Some exe) \<Rightarrow>
                 (case rc_set rc of
                    Some e \<Rightarrow> (reg, Inl e)
                  | None \<Rightarrow> (reg(AUTOSTART_VALUE \<mapsto> [34] @ exe @ [34]), Inr ())))
          else (case rc_remove rc of
                  Some e \<Rightarrow> (reg, Inr ())
                | None \<Rightarrow> (reg(AUTOSTART_VALUE := None), Inr ())))"

section \<open>The tray thread\<close>

text \<open>The tooltip channel: \<open>set_status\<close> appends the text, the thread shows them in order.\<close>

definition TrayHandle_set_status :: "rstr list \<Rightarrow> Status \<Rightarrow> rstr option \<Rightarrow> rstr list" where
  "TrayHandle_set_status tips status peer_name = tips @ [Status_tooltip status peer_name]"

text \<open>
  One round of the thread's loop finds the menu events and the tooltips that came since the last
  one, and then waits for a message; without one (\<open>WM_QUIT\<close>) the loop ends.
\<close>

record 'id tray_round =
  tr_events :: "'id list"
  tr_tips :: "rstr list"
  tr_more :: bool

text \<open>The commands sent over the rounds, and the tooltip shown in the end.\<close>

fun tray_loop ::
  "'id \<Rightarrow> 'id \<Rightarrow> 'id \<Rightarrow> 'id \<Rightarrow> 'id tray_round list \<Rightarrow> bool \<Rightarrow> bool \<Rightarrow> rstr \<Rightarrow> TrayCommand list \<times> rstr" where
  "tray_loop pair pause autostart quit [] p a tip = ([], tip)"
| "tray_loop pair pause autostart quit (r # rs) p a tip =
     (case drain_events pair pause autostart quit (tr_events r) p a of
        (cmds, None) \<Rightarrow> (cmds, tip)
      | (cmds, Some (p, a)) \<Rightarrow>
          let tip = last (tip # tr_tips r)
          in if \<not> tr_more r then (cmds, tip)
             else (case tray_loop pair pause autostart quit rs p a tip of (cmds', tip) \<Rightarrow> (cmds @ cmds', tip)))"

text \<open>
  Starting the thread: \<open>icon\<close> and \<open>build\<close> are the failures of the icon and of the menu. Once it
  is up, the commands its loop sends, and the tooltip it shows in the end.
\<close>

definition spawn_tray ::
  "rstr option \<Rightarrow> rstr option \<Rightarrow> bool \<Rightarrow> bool \<Rightarrow> 'id \<Rightarrow> 'id \<Rightarrow> 'id \<Rightarrow> 'id \<Rightarrow> 'id tray_round list
     \<Rightarrow> (TrayCommand list \<times> rstr) anyhow" where
  "spawn_tray icon build initial_paused initial_autostart pair pause autostart quit rounds =
     (case icon of
        Some e \<Rightarrow> Inl (lit ''tray icon: '' @ e)
      | None \<Rightarrow>
          (case build of
             Some e \<Rightarrow> Inl e
           | None \<Rightarrow>
               Inr (tray_loop pair pause autostart quit rounds initial_paused initial_autostart
                      (Status_tooltip Unpaired None))))"

section \<open>The rounds as one run\<close>

text \<open>What the user clicked while the thread ran, and the commands for it, without the rounds.\<close>

fun clicked_in :: "'id tray_round list \<Rightarrow> 'id list" where
  "clicked_in [] = []"
| "clicked_in (r # rs) = tr_events r @ (if tr_more r then clicked_in rs else [])"

fun drain_menu :: "'id \<Rightarrow> 'id \<Rightarrow> 'id \<Rightarrow> 'id \<Rightarrow> 'id list \<Rightarrow> bool \<Rightarrow> bool \<Rightarrow> TrayCommand list" where
  "drain_menu pair pause autostart quit [] paused_state autostart_state = []"
| "drain_menu pair pause autostart quit (e # es) paused_state autostart_state =
     (case classify_menu_event e pair pause autostart quit paused_state autostart_state of
        (p, a, None) \<Rightarrow> drain_menu pair pause autostart quit es p a
      | (p, a, Some cmd) \<Rightarrow>
          if cmd = Quit then [cmd] else cmd # drain_menu pair pause autostart quit es p a)"

lemma drain_menu_append:
  "drain_menu pair pause autostart quit (es @ fs) p a =
     (case drain_events pair pause autostart quit es p a of
        (cmds, None) \<Rightarrow> cmds
      | (cmds, Some (p, a)) \<Rightarrow> cmds @ drain_menu pair pause autostart quit fs p a)"
  by (induction es arbitrary: p a) (auto split: prod.split option.split)

lemma tray_loop_commands:
  "fst (tray_loop pair pause autostart quit rounds p a tip) = drain_menu pair pause autostart quit (clicked_in rounds) p a"
proof (induction rounds arbitrary: p a tip)
  case (Cons r rs)
  then show ?case
    using drain_menu_append [of pair pause autostart quit "tr_events r" "if tr_more r then clicked_in rs else []" p a]
    by (auto simp: Let_def case_prod_unfold split: option.split)
qed simp

lemma drain_goes_on:
  assumes "quit \<notin> set es" "distinct [pair, pause, autostart, quit]"
  shows "snd (drain_events pair pause autostart quit es p a) \<noteq> None"
  using assms by (induction es arbitrary: p a) (auto simp: classify_menu_event_def case_prod_unfold)

text \<open>Until Quit, the tooltip is the last one that came before a wait.\<close>

lemma tray_loop_tooltip:
  assumes "\<forall>r \<in> set rounds. quit \<notin> set (tr_events r) \<and> tr_more r" "distinct [pair, pause, autostart, quit]"
  shows "snd (tray_loop pair pause autostart quit rounds p a tip) = last (tip # concat (map tr_tips rounds))"
  using assms(1)
proof (induction rounds arbitrary: p a tip)
  case (Cons r rs)
  obtain cs p' a' where "drain_events pair pause autostart quit (tr_events r) p a = (cs, Some (p', a'))"
    using drain_goes_on [OF _ assms(2), of "tr_events r" p a] Cons.prems
    by (cases "drain_events pair pause autostart quit (tr_events r) p a") auto
  then show ?case using Cons by (simp add: Let_def case_prod_unfold)
qed simp

section \<open>The icon\<close>

definition icon_colour :: "nat \<times> nat \<Rightarrow> bytes" where
  "icon_colour = (\<lambda>(y, x).
     if \<not> icon_inside (int x) (int y) then [0, 0, 0, 0]
     else if icon_band (int x) (int y) then [150, 200, 255, 255] else [10, 90, 200, 255])"

lemma icon_paint_fold:
  assumes "set ps \<subseteq> {..<32} \<times> {..<32}" "length px = 4096"
  shows "length (foldl icon_paint px ps) = 4096 \<and>
    (\<forall>y < 32. \<forall>x < 32. \<forall>c < 4. foldl icon_paint px ps ! ((y * 32 + x) * 4 + c) =
       (if (y, x) \<in> set ps \<and> icon_inside (int x) (int y) then icon_colour (y, x) ! c
        else px ! ((y * 32 + x) * 4 + c)))"
  using assms
proof (induction ps arbitrary: px)
  case (Cons p ps)
  obtain b a where p: "p = (b, a)" "b < 32" "a < 32" using Cons.prems(1) by (cases p) auto
  have len: "length (icon_paint px p) = 4096" using Cons.prems(2) p(1) by (simp add: icon_paint_def Let_def)
  have one: "icon_paint px p ! ((y * 32 + x) * 4 + c) =
      (if (y, x) = p \<and> icon_inside (int x) (int y) then icon_colour (y, x) ! c else px ! ((y * 32 + x) * 4 + c))"
    if "y < 32" "x < 32" "c < 4" for y x c
  proof -
    have i: "(b * 32 + a) * 4 + j = (y * 32 + x) * 4 + c \<longleftrightarrow> (y, x) = p \<and> j = c" if "j < 4" for j
      using row_major_eq [OF that \<open>c < 4\<close>, of "b * 32 + a" "y * 32 + x"] row_major_eq [OF p(3) \<open>x < 32\<close>, of b y] p(1) by auto
    have "(b * 32 + a) * 4 + 3 < length px" using p Cons.prems(2) by simp
    moreover have "c = 0 \<or> c = 1 \<or> c = 2 \<or> c = 3" using that(3) by arith
    ultimately show ?thesis
      using i [of 0] i [of 1] i [of 2] i [of 3] p(1)
      by (auto simp: icon_paint_def icon_colour_def nth_list_update Let_def)
  qed
  show ?case using Cons.IH [OF _ len] Cons.prems(1) one by auto
qed simp

text \<open>The tray icon: a rounded tile with a band across it, opaque inside and transparent outside.\<close>

lemma icon_drawn:
  assumes "y < 32" "x < 32"
  shows "length (fst icon_rgba) = 4096 \<and> take 4 (drop ((y * 32 + x) * 4) (fst icon_rgba)) = icon_colour (y, x)"
proof -
  have f: "length (fst icon_rgba) = 4096" and g: "fst icon_rgba ! ((y * 32 + x) * 4 + c) =
      (if icon_inside (int x) (int y) then icon_colour (y, x) ! c else 0)" if "c < 4" for c
  proof -
    have all: "set (List.product [0..<32] [0..<32]) \<subseteq> {..<32} \<times> {..<32 :: nat}" by auto
    note paint = icon_paint_fold [OF all, of "replicate 4096 0"]
    show "length (fst icon_rgba) = 4096" using paint by (simp add: icon_rgba_def)
    have "(y * 32 + x) * 4 + c < 4096" using assms that by simp
    then show "fst icon_rgba ! ((y * 32 + x) * 4 + c) = (if icon_inside (int x) (int y) then icon_colour (y, x) ! c else 0)"
      using paint assms that by (auto simp: icon_rgba_def)
  qed
  have z: "icon_colour (y, x) ! c = 0" if "\<not> icon_inside (int x) (int y)" "c < 4" for c
    using that by (auto simp: icon_colour_def nth_Cons split: nat.split)
  have len: "length (icon_colour (y, x)) = 4" by (simp add: icon_colour_def)
  have "(y * 32 + x) * 4 + 4 \<le> 4096" using assms by simp
  then show ?thesis using f [of 0] g z by (intro conjI nth_equalityI) (auto simp: len)
qed

end
