(* ===== verification/PairingWindow.thy ===== *)
theory PairingWindow
  imports NetAddr Keystore
begin

text \<open>
  The pairing window (\<open>pairing_window.rs\<close>): the addresses to advertise, the QR code's grid and
  texture, the views with their texts, and what each frame of the window draws and does. The
  network interfaces and the QR encoder are parameters.
\<close>

section \<open>Hosts, grid and views\<close>

record Interface =
  if_loopback :: bool
  if_ip :: IpAddr

definition is_link_local :: "bytes \<Rightarrow> bool" where
  "is_link_local bs \<longleftrightarrow> take 2 bs = [169, 254]"

text \<open>The loop over the interfaces, with the two lists it fills.\<close>

fun local_hosts_loop :: "u16 \<Rightarrow> Interface list \<Rightarrow> rstr list \<Rightarrow> rstr list \<Rightarrow> rstr list \<times> rstr list" where
  "local_hosts_loop port [] v4 v6 = (v4, v6)"
| "local_hosts_loop port (i # is) v4 v6 =
     (if if_loopback i then local_hosts_loop port is v4 v6
      else case if_ip i of
             V4 bs \<Rightarrow>
               if is_link_local bs then local_hosts_loop port is v4 v6
               else local_hosts_loop port is
                      (v4 @ [IpAddr_to_string (V4 bs) @ lit '':'' @ show_nat (unat port)]) v6
           | V6 ss \<Rightarrow>
               local_hosts_loop port is v4
                 (v6 @ [lit ''['' @ IpAddr_to_string (V6 ss) @ lit '']:'' @ show_nat (unat port)]))"

definition local_hosts :: "Interface list option \<Rightarrow> u16 \<Rightarrow> rstr list" where
  "local_hosts ifaces port =
     (case ifaces of
        None \<Rightarrow> []
      | Some is \<Rightarrow> (case local_hosts_loop port is [] [] of (v4, v6) \<Rightarrow> v4 @ v6))"

record QrGrid =
  grid_size :: nat
  grid_dark :: "bool list"

text \<open>Indexing panics out of range.\<close>

definition QrGrid_is_dark :: "QrGrid \<Rightarrow> nat \<Rightarrow> nat \<Rightarrow> bool option" where
  "QrGrid_is_dark g x y =
     (let k = y * grid_size g + x in if k < length (grid_dark g) then Some (grid_dark g ! k) else None)"

text \<open>\<open>QrCode::new\<close> gives the width and the modules in row order, or fails.\<close>

definition qr_grid :: "(bytes \<Rightarrow> rstr + nat \<times> bool list) \<Rightarrow> rstr \<Rightarrow> QrGrid anyhow" where
  "qr_grid QrCode_new url =
     try_r (QrCode_new (as_bytes url)) (\<lambda>(width, dark). Inr \<lparr> grid_size = width, grid_dark = dark \<rparr>)"

text \<open>The texture's pixels, True for black, with a quiet zone of four modules; a panic is None.\<close>

definition QUIET :: nat where "QUIET = 4"

definition qr_paint :: "QrGrid \<Rightarrow> nat \<Rightarrow> bool list option \<Rightarrow> nat \<times> nat \<Rightarrow> bool list option" where
  "qr_paint grid dim pixels = (\<lambda>(y, x).
     case pixels of
       None \<Rightarrow> None
     | Some px \<Rightarrow>
         (case QrGrid_is_dark grid x y of
            None \<Rightarrow> None
          | Some dark \<Rightarrow>
              if dark then
                let k = (y + QUIET) * dim + (x + QUIET)
                in if k < length px then Some (px[k := True]) else None
              else Some px))"

definition qr_texture :: "QrGrid \<Rightarrow> nat \<times> bool list option" where
  "qr_texture grid =
     (let dim = grid_size grid + QUIET * 2
      in (dim, foldl (qr_paint grid dim) (Some (replicate (dim * dim) False))
                 (List.product [0..<grid_size grid] [0..<grid_size grid])))"

datatype PairingView =
    ShowQr rstr
  | CompareSas "rstr list"
  | Success rstr
  | ViewFailed rstr

fun instruction :: "PairingView \<Rightarrow> rstr" where
  "instruction (ShowQr url) = lit ''Open AirClip on your iPhone and scan this code.''"
| "instruction (CompareSas emoji) =
     lit ''Check these match what your iPhone shows, then confirm on the phone.''"
| "instruction (Success device_name) = lit ''Paired with '' @ device_name @ lit ''.''"
| "instruction (ViewFailed reason) = lit ''Pairing failed: '' @ reason"

definition pairing_url :: "deps \<Rightarrow> DeviceId \<Rightarrow> bytes \<Rightarrow> rstr \<Rightarrow> rstr list \<Rightarrow> bytes \<Rightarrow> rstr" where
  "pairing_url d device_id public_key display_name hosts token =
     QrPayload_to_url d
       \<lparr> qr_version = PROTOCOL_VERSION, qr_device_id = device_id, qr_public_key = public_key,
         qr_display_name = display_name, qr_hosts = hosts, qr_pair_token = token \<rparr>"

section \<open>The rendered code\<close>

lemma qr_paint_fold:
  assumes "length (grid_dark g) = grid_size g * grid_size g" "dim = grid_size g + 8"
    and "set ps \<subseteq> {..<grid_size g} \<times> {..<grid_size g}" "length px = dim * dim"
  shows "\<exists>px'. foldl (qr_paint g dim) (Some px) ps = Some px' \<and> length px' = dim * dim \<and>
    (\<forall>k < dim * dim. px' ! k \<longleftrightarrow> px ! k \<or>
       (\<exists>(y, x) \<in> set ps. grid_dark g ! (y * grid_size g + x) \<and> k = (y + 4) * dim + (x + 4)))"
  using assms(3,4)
proof (induction ps arbitrary: px)
  case (Cons yx ps)
  obtain y x where yx: "yx = (y, x)" "y < grid_size g" "x < grid_size g"
    using Cons.prems(1) by (cases yx) auto
  let ?k = "(y + 4) * dim + (x + 4)"
  have k: "y * grid_size g + x < length (grid_dark g)" "?k < dim * dim"
    using yx row_major_less [of x "grid_size g" y "grid_size g"] row_major_less [of "x + 4" dim "y + 4" dim]
    by (simp_all add: assms(1,2))
  show ?case
  proof (cases "grid_dark g ! (y * grid_size g + x)")
    case True
    then have step: "foldl (qr_paint g dim) (Some px) (yx # ps) = foldl (qr_paint g dim) (Some (px[?k := True])) ps"
      using k Cons.prems(2) yx(1) by (simp add: qr_paint_def QrGrid_is_dark_def QUIET_def Let_def)
    obtain px' where "foldl (qr_paint g dim) (Some (px[?k := True])) ps = Some px'" "length px' = dim * dim"
      "\<forall>k < dim * dim. px' ! k \<longleftrightarrow> (px[?k := True]) ! k \<or>
       (\<exists>(y, x) \<in> set ps. grid_dark g ! (y * grid_size g + x) \<and> k = (y + 4) * dim + (x + 4))"
      using Cons.IH [of "px[?k := True]"] Cons.prems by auto
    then show ?thesis unfolding step using True k(2) Cons.prems(2) yx(1) by (auto simp: nth_list_update)
  next
    case False
    then have step: "foldl (qr_paint g dim) (Some px) (yx # ps) = foldl (qr_paint g dim) (Some px) ps"
      using k yx(1) by (simp add: qr_paint_def QrGrid_is_dark_def Let_def)
    then show ?thesis using Cons.IH [of px] Cons.prems False yx(1) by auto
  qed
qed auto

text \<open>
  The window draws the code it was given. For a grid with as many modules as its size says,
  painting does not panic, and the texture is a square of that size plus four modules on every
  side in which a pixel is black exactly when it lies inside that margin and the module
  there is dark; the margin is white.
\<close>

theorem texture_shows_grid:
  assumes "length (grid_dark g) = grid_size g * grid_size g"
  shows "\<exists>px. qr_texture g = (grid_size g + 8, Some px) \<and> length px = (grid_size g + 8) * (grid_size g + 8) \<and>
    (\<forall>X Y. X < grid_size g + 8 \<longrightarrow> Y < grid_size g + 8 \<longrightarrow>
       (px ! (Y * (grid_size g + 8) + X) \<longleftrightarrow>
          4 \<le> X \<and> X < grid_size g + 4 \<and> 4 \<le> Y \<and> Y < grid_size g + 4 \<and>
          QrGrid_is_dark g (X - 4) (Y - 4) = Some True))"
proof -
  let ?n = "grid_size g" and ?dim = "grid_size g + 8"
  obtain px where px: "qr_texture g = (?dim, Some px)" "length px = ?dim * ?dim"
    "\<forall>k < ?dim * ?dim. px ! k \<longleftrightarrow>
       (\<exists>y < ?n. \<exists>x < ?n. grid_dark g ! (y * ?n + x) \<and> k = (y + 4) * ?dim + (x + 4))"
    using qr_paint_fold [OF assms refl, of "List.product [0..<?n] [0..<?n]" "replicate (?dim * ?dim) False"]
    by (force simp: qr_texture_def QUIET_def Let_def)
  have "px ! (Y * ?dim + X) \<longleftrightarrow> 4 \<le> X \<and> X < ?n + 4 \<and> 4 \<le> Y \<and> Y < ?n + 4 \<and> QrGrid_is_dark g (X - 4) (Y - 4) = Some True"
    if "X < ?dim" "Y < ?dim" for X Y
  proof -
    have "px ! (Y * ?dim + X) \<longleftrightarrow> (\<exists>y < ?n. \<exists>x < ?n. grid_dark g ! (y * ?n + x) \<and> Y = y + 4 \<and> X = x + 4)"
      using px(3) row_major_less [OF that] row_major_eq [OF that(1)] by (auto simp: Let_def)
    also have "\<dots> \<longleftrightarrow> 4 \<le> X \<and> X < ?n + 4 \<and> 4 \<le> Y \<and> Y < ?n + 4 \<and> grid_dark g ! ((Y - 4) * ?n + (X - 4))"
      by (cases "4 \<le> X"; cases "4 \<le> Y") (auto dest!: le_Suc_ex simp: add.commute)
    also have "\<dots> \<longleftrightarrow> 4 \<le> X \<and> X < ?n + 4 \<and> 4 \<le> Y \<and> Y < ?n + 4 \<and> QrGrid_is_dark g (X - 4) (Y - 4) = Some True"
      using row_major_less [of "X - 4" ?n "Y - 4" ?n] by (auto simp: QrGrid_is_dark_def Let_def assms)
    finally show ?thesis .
  qed
  then show ?thesis using px(1,2) by blast
qed

theorem texture_shows_grid_witness:
  "\<exists>px. qr_texture \<lparr> grid_size = 2, grid_dark = [True, False, False, True] \<rparr> = (10, Some px) \<and>
     px ! 44 \<and> \<not> px ! 45 \<and> \<not> px ! 54 \<and> px ! 55 \<and> \<not> px ! 0"
proof -
  let ?g = "\<lparr> grid_size = 2, grid_dark = [True, False, False, True] \<rparr>"
  obtain px where px: "qr_texture ?g = (10, Some px)"
    "\<And>X Y. X < 10 \<Longrightarrow> Y < 10 \<Longrightarrow> px ! (Y * 10 + X) \<longleftrightarrow>
       4 \<le> X \<and> X < 6 \<and> 4 \<le> Y \<and> Y < 6 \<and> QrGrid_is_dark ?g (X - 4) (Y - 4) = Some True"
    using texture_shows_grid [of ?g] by auto
  have "px ! 44" "\<not> px ! 45" "\<not> px ! 54" "px ! 55" "\<not> px ! 0"
    using px(2) [of 4 4] px(2) [of 5 4] px(2) [of 4 5] px(2) [of 5 5] px(2) [of 0 0]
    by (simp_all add: QrGrid_is_dark_def)
  with px(1) show ?thesis by blast
qed

section \<open>The window's frames\<close>

text \<open>
  What the app keeps between frames: the texture it drew last, and the URL it drew it for. A frame
  draws widgets in order, and a click on its button is an input; a panic in painting is None.
\<close>

record PairingApp =
  pa_qr :: "(nat \<times> bool list) option"
  pa_last_url :: rstr

definition PairingApp_new :: PairingApp where
  "PairingApp_new = \<lparr> pa_qr = None, pa_last_url = [] \<rparr>"

datatype widget = Heading rstr | Label rstr | Image "nat \<times> bool list" | Button rstr

datatype ui_command = CopyText rstr | CloseWindow

fun join_str :: "rstr \<Rightarrow> rstr list \<Rightarrow> rstr" where
  "join_str sep [] = []"
| "join_str sep [w] = w"
| "join_str sep (w # ws) = w @ sep @ join_str sep ws"

text \<open>The cached texture is redrawn when there is none or the URL changed; a URL that does not fit a code keeps it.\<close>

definition refresh_qr ::
  "(bytes \<Rightarrow> rstr + nat \<times> bool list) \<Rightarrow> PairingApp \<Rightarrow> rstr \<Rightarrow> PairingApp option" where
  "refresh_qr QrCode_new app url =
     (if pa_qr app = None \<or> pa_last_url app \<noteq> url then
        (case qr_grid QrCode_new url of
           Inl e \<Rightarrow> Some app
         | Inr grid \<Rightarrow>
             (case qr_texture grid of
                (dim, None) \<Rightarrow> None
              | (dim, Some pixels) \<Rightarrow> Some \<lparr> pa_qr = Some (dim, pixels), pa_last_url = url \<rparr>))
      else Some app)"

definition PairingApp_ui ::
  "(bytes \<Rightarrow> rstr + nat \<times> bool list) \<Rightarrow> PairingApp \<Rightarrow> PairingView \<Rightarrow> bool
     \<Rightarrow> (PairingApp \<times> widget list \<times> ui_command list) option" where
  "PairingApp_ui QrCode_new app view clicked =
     (let top = [Heading (lit ''Pair your iPhone''), Label (instruction view)] in
      case view of
        ShowQr url \<Rightarrow>
          (case refresh_qr QrCode_new app url of
             None \<Rightarrow> None
           | Some app \<Rightarrow>
               Some (app,
                 top @ (case pa_qr app of None \<Rightarrow> [] | Some tex \<Rightarrow> [Image tex]) @ [Button (lit ''Copy pairing link'')],
                 if clicked then [CopyText url] else []))
      | CompareSas emoji \<Rightarrow>
          Some (app,
            top @ [Label (join_str (lit ''   '') emoji),
                   Label (lit ''If they differ, cancel '' @ [0x2014] @ lit '' someone may be intercepting.'')], [])
      | Success device_name \<Rightarrow>
          Some (app,
            top @ [Label [0x2713], Label (device_name @ lit '' is paired.''), Button (lit ''Close'')],
            if clicked then [CloseWindow] else [])
      | ViewFailed reason \<Rightarrow>
          Some (app, top @ [Label [0x2717], Label reason, Button (lit ''Close'')],
            if clicked then [CloseWindow] else []))"

text \<open>A window open for a while: the frames it drew, for the views it found and the clicks.\<close>

fun window_frames ::
  "(bytes \<Rightarrow> rstr + nat \<times> bool list) \<Rightarrow> PairingApp \<Rightarrow> (PairingView \<times> bool) list
     \<Rightarrow> (widget list \<times> ui_command list) list option" where
  "window_frames QrCode_new app [] = Some []"
| "window_frames QrCode_new app ((view, clicked) # frames) =
     (case PairingApp_ui QrCode_new app view clicked of
        None \<Rightarrow> None
      | Some (app, drawn) \<Rightarrow> map_option ((#) drawn) (window_frames QrCode_new app frames))"

text \<open>The QR encoder gives as many modules as its width says.\<close>

definition qr_square :: "(bytes \<Rightarrow> rstr + nat \<times> bool list) \<Rightarrow> bool" where
  "qr_square QrCode_new \<longleftrightarrow> (\<forall>b n dark. QrCode_new b = Inr (n, dark) \<longrightarrow> length dark = n * n)"

definition drawn_for :: "(bytes \<Rightarrow> rstr + nat \<times> bool list) \<Rightarrow> PairingApp \<Rightarrow> bool" where
  "drawn_for QrCode_new app \<longleftrightarrow>
     (\<forall>dim px. pa_qr app = Some (dim, px) \<longrightarrow>
        (\<exists>g. qr_grid QrCode_new (pa_last_url app) = Inr g \<and> qr_texture g = (dim, Some px)))"

lemma grid_painted:
  assumes "qr_square q" "qr_grid q url = Inr g"
  obtains dim px where "qr_texture g = (dim, Some px)"
proof -
  have "length (grid_dark g) = grid_size g * grid_size g"
    using assms by (cases "q (as_bytes url)") (auto simp: qr_grid_def qr_square_def)
  then show ?thesis using that texture_shows_grid by blast
qed

lemma refreshed:
  assumes "qr_square q" "drawn_for q app"
  obtains app' where "refresh_qr q app url = Some app'" "drawn_for q app'"
    "\<And>g. qr_grid q url = Inr g \<Longrightarrow> \<exists>dim px. qr_texture g = (dim, Some px) \<and> pa_qr app' = Some (dim, px)"
proof (cases "qr_grid q url")
  case (Inl e)
  then show ?thesis using that [of app] assms(2) by (auto simp: refresh_qr_def)
next
  case (Inr g)
  obtain dim px where px: "qr_texture g = (dim, Some px)" by (rule grid_painted [OF assms(1) Inr])
  show ?thesis
  proof (cases "pa_qr app = None \<or> pa_last_url app \<noteq> url")
    case True
    then show ?thesis
      using that [of "\<lparr> pa_qr = Some (dim, px), pa_last_url = url \<rparr>"] Inr px by (simp add: refresh_qr_def drawn_for_def)
  next
    case False
    then obtain dim' px' where "pa_qr app = Some (dim', px')" "qr_texture g = (dim', Some px')"
      using assms(2) Inr by (auto simp: drawn_for_def)
    then show ?thesis using that [of app] assms(2) False Inr by (simp add: refresh_qr_def)
  qed
qed

lemma ui_draws:
  assumes "qr_square q" "drawn_for q app"
  obtains app' ws cs where "PairingApp_ui q app view clicked = Some (app', ws, cs)" "drawn_for q app'"
    "\<forall>url g. view = ShowQr url \<longrightarrow> qr_grid q url = Inr g \<longrightarrow>
       (\<exists>dim px. qr_texture g = (dim, Some px) \<and> Image (dim, px) \<in> set ws)"
    "\<forall>t. CopyText t \<in> set cs \<longrightarrow> view = ShowQr t"
proof (cases view)
  case (ShowQr url)
  obtain app' where "refresh_qr q app url = Some app'" "drawn_for q app'"
    "\<And>g. qr_grid q url = Inr g \<Longrightarrow> \<exists>dim px. qr_texture g = (dim, Some px) \<and> pa_qr app' = Some (dim, px)"
    using refreshed [OF assms] by metis
  then show ?thesis using ShowQr by (intro that [of app']) (fastforce simp: PairingApp_ui_def Let_def split: if_splits)+
qed (use assms in \<open>auto simp: PairingApp_ui_def Let_def intro!: that [of app] split: if_splits\<close>)

text \<open>
  The window shows the current code. However long it stays open, whatever views it is given and
  whenever its button is clicked, no frame panics; a frame that shows the code of a URL that
  fits a code draws the texture of that URL's own grid, never of an earlier one; and the link
  copied in a frame is the link of that frame.
\<close>

theorem window_shows_current_code:
  assumes "qr_square q"
  shows "\<exists>drawn. window_frames q PairingApp_new frames = Some drawn \<and> length drawn = length frames \<and>
    (\<forall>k < length frames.
       (\<forall>url g. fst (frames ! k) = ShowQr url \<longrightarrow> qr_grid q url = Inr g \<longrightarrow>
          (\<exists>dim px. qr_texture g = (dim, Some px) \<and> Image (dim, px) \<in> set (fst (drawn ! k)))) \<and>
       (\<forall>t. CopyText t \<in> set (snd (drawn ! k)) \<longrightarrow> fst (frames ! k) = ShowQr t))"
    (is "\<exists>drawn. _ \<and> ?shows frames drawn")
proof -
  have "\<exists>drawn. window_frames q app frames = Some drawn \<and> ?shows frames drawn" if "drawn_for q app" for app
    using that
  proof (induction frames arbitrary: app)
    case (Cons f frames)
    obtain view clicked where f: "f = (view, clicked)" by fastforce
    obtain app' ws cs where ui: "PairingApp_ui q app view clicked = Some (app', ws, cs)" "drawn_for q app'"
      "\<forall>url g. view = ShowQr url \<longrightarrow> qr_grid q url = Inr g \<longrightarrow>
         (\<exists>dim px. qr_texture g = (dim, Some px) \<and> Image (dim, px) \<in> set ws)"
      "\<forall>t. CopyText t \<in> set cs \<longrightarrow> view = ShowQr t"
      by (rule ui_draws [OF assms Cons.prems, of view clicked])
    obtain drawn where "window_frames q app' frames = Some drawn" "?shows frames drawn"
      using Cons.IH [OF ui(2)] by blast
    then show ?case
      using ui f by (intro exI [of _ "(ws, cs) # drawn"]) (auto simp: nth_Cons less_Suc_eq_0_disj split: nat.split)
  qed simp
  then show ?thesis by (simp add: PairingApp_new_def drawn_for_def)
qed

theorem window_shows_current_code_witness:
  "\<exists>drawn dim px. window_frames (\<lambda>b. Inr (1, [b \<noteq> []])) PairingApp_new [(ShowQr [65], False), (ShowQr [66], True)] = Some drawn \<and>
     qr_texture \<lparr> grid_size = 1, grid_dark = [True] \<rparr> = (dim, Some px) \<and> Image (dim, px) \<in> set (fst (drawn ! 1))"
proof -
  let ?q = "\<lambda>b :: bytes. Inr (1 :: nat, [b \<noteq> []])"
  have g: "qr_grid ?q [66] = Inr \<lparr> grid_size = 1, grid_dark = [True] \<rparr>"
    by (simp add: qr_grid_def as_bytes_def utf8_char_def)
  have "qr_square ?q" by (simp add: qr_square_def)
  from window_shows_current_code [OF this, of "[(ShowQr [65], False), (ShowQr [66], True)]"] show ?thesis
    using g by (auto simp: less_Suc_eq_0_disj all_conj_distrib)
qed

end
