(* ===== verification/Client.thy ===== *)
theory Client
  imports Wire NetAddr SessionTraffic PairingFacts
begin

text \<open>
  The phone's transport driver (\<open>client.rs\<close>): dialling, pairing up to the comparison, and a
  connection that beams a clip or pulls staged ones. Where \<open>session.rs\<close> decides what to send,
  this decides when: every wait for a frame has a budget, and a wait that exceeds it is an
  input like any other. The frames written are part of every result and of the connection; the
  text that \<open>derive(Debug)\<close> renders into messages is an argument.
\<close>

section \<open>Errors\<close>

definition CONNECT_TIMEOUT :: nat where "CONNECT_TIMEOUT = 800"
definition DEFAULT_OP_TIMEOUT :: nat where "DEFAULT_OP_TIMEOUT = 2000"

datatype ClientError =
    Unreachable
  | TimedOut
  | Rejected rstr
  | TooLarge u32
  | Protocol rstr

type_synonym 'a client_result = "ClientError + 'a"

fun ClientError_to_string :: "ClientError \<Rightarrow> rstr" where
  "ClientError_to_string Unreachable = lit ''PC not reachable on this network''"
| "ClientError_to_string TimedOut = lit ''PC did not respond in time''"
| "ClientError_to_string (Rejected r) = lit ''rejected: '' @ r"
| "ClientError_to_string (TooLarge n) = lit ''clip exceeds '' @ show_nat (unat n) @ lit '' bytes''"
| "ClientError_to_string (Protocol r) = lit ''protocol error: '' @ r"

definition ClientError_from :: "Error \<Rightarrow> ClientError" where
  "ClientError_from e = Protocol (Error_to_string e)"

definition from_core :: "'a result \<Rightarrow> 'a client_result" where
  "from_core r = (case r of Inl e \<Rightarrow> Inl (ClientError_from e) | Inr v \<Rightarrow> Inr v)"

section \<open>Sockets\<close>

text \<open>
  \<open>dial\<close>: the attempts run concurrently; \<open>results\<close> is the order in which they end, each with
  whether it connected within the budget. Only addresses that were given are attempted. A stream
  is known by the address it is connected to.
\<close>

definition dial :: "SocketAddr list \<Rightarrow> (SocketAddr \<times> bool) list \<Rightarrow> SocketAddr client_result" where
  "dial addrs results =
     (if addrs = [] then Inl Unreachable
      else case find (\<lambda>(a, connected). connected \<and> a \<in> set addrs) results of
             Some (a, _) \<Rightarrow> Inr a
           | None \<Rightarrow> Inl Unreachable)"

definition recv_frame :: "wire_next \<Rightarrow> Frame client_result" where
  "recv_frame n =
     (case n of
        NextFrame f \<Rightarrow> Inr f
      | NextErr e \<Rightarrow> Inl (Protocol (Error_to_string e))
      | NextClosed \<Rightarrow> Inl (Rejected (lit ''peer closed the connection''))
      | NextTimeout \<Rightarrow> Inl TimedOut)"

definition send_frame :: "rstr option \<Rightarrow> Frame \<Rightarrow> unit client_result" where
  "send_frame err frame =
     (case wire_send err frame of Inl e \<Rightarrow> Inl (Protocol e) | Inr u \<Rightarrow> Inr ())"

definition resolve_hosts :: "rstr list \<Rightarrow> SocketAddr list" where
  "resolve_hosts hosts = List.map_filter SocketAddr_parse hosts"

section \<open>Pairing\<close>

record PendingPairing =
  pp_record :: PairingRecord
  pp_sas :: "rstr list"
  pp_confirm_frame :: "Frame option"

definition PendingPairing_sas :: "PendingPairing \<Rightarrow> rstr list" where
  "PendingPairing_sas p = pp_sas p"

text \<open>Confirming: the frames written and the record to store.\<close>

definition PendingPairing_confirm ::
  "PendingPairing \<Rightarrow> rstr option \<Rightarrow> Frame list \<times> PairingRecord client_result" where
  "PendingPairing_confirm p err =
     (case pp_confirm_frame p of
        None \<Rightarrow> ([], Inl (Protocol (lit ''nothing to confirm'')))
      | Some frame \<Rightarrow>
          (case send_frame err frame of
             Inl e \<Rightarrow> ([], Inl e)
           | Inr u \<Rightarrow> ([frame], Inr (pp_record p))))"

fun FrameType_debug :: "FrameType \<Rightarrow> rstr" where
  "FrameType_debug Hello = lit ''Hello''"
| "FrameType_debug HelloAck = lit ''HelloAck''"
| "FrameType_debug PairReq = lit ''PairReq''"
| "FrameType_debug PairAck = lit ''PairAck''"
| "FrameType_debug PairConfirm = lit ''PairConfirm''"
| "FrameType_debug ClipPush = lit ''ClipPush''"
| "FrameType_debug ClipAck = lit ''ClipAck''"
| "FrameType_debug StageListReq = lit ''StageListReq''"
| "FrameType_debug StageList = lit ''StageList''"
| "FrameType_debug StageGet = lit ''StageGet''"
| "FrameType_debug StageItem = lit ''StageItem''"
| "FrameType_debug Ping = lit ''Ping''"
| "FrameType_debug Pong = lit ''Pong''"
| "FrameType_debug ErrorFrame = lit ''Error''"

text \<open>The input of one exchange with the peer: dialling, sending, the reply, clock and randomness.\<close>

record exchange =
  ex_dial :: "(SocketAddr \<times> bool) list"
  ex_start_ms :: u64
  ex_rnd :: "bytes option"
  ex_send_err :: "rstr option"
  ex_reply :: wire_next
  ex_reply_ms :: u64
  ex_reply_rnd :: "bytes option"

text \<open>What follows the acknowledgement: the comparison to show and the confirmation, built but not sent.\<close>

definition pairing_shown ::
  "deps \<Rightarrow> (PairingAction list \<Rightarrow> rstr) \<Rightarrow> PhonePairing \<Rightarrow> Frame \<Rightarrow> u64 \<Rightarrow> PendingPairing client_result" where
  "pairing_shown d dbg fsm ack now =
     (case PhonePairing_on_frame d fsm ack of
        (fsm', [ShowSas s]) \<Rightarrow>
          (case confirm_sas d fsm' now of
             (_, [PSend f, Completed record]) \<Rightarrow>
               Inr \<lparr> pp_record = record, pp_sas = s, pp_confirm_frame = Some f \<rparr>
           | (_, other) \<Rightarrow> Inl (Protocol (lit ''unexpected confirm state: '' @ dbg other)))
      | (_, [PFailed r]) \<Rightarrow> Inl (Rejected (lit r))
      | (_, other) \<Rightarrow> Inl (Protocol (lit ''unexpected pairing state: '' @ dbg other)))"

definition begin_pairing ::
  "deps \<Rightarrow> (PairingAction list \<Rightarrow> rstr) \<Rightarrow> IdentityKeypair \<Rightarrow> rstr \<Rightarrow> QrPayload \<Rightarrow> exchange
     \<Rightarrow> Frame list \<times> PendingPairing client_result" where
  "begin_pairing d dbg identity display_name qr x =
     (case dial (resolve_hosts (qr_hosts qr)) (ex_dial x) of
        Inl e \<Rightarrow> ([], Inl e)
      | Inr stream \<Rightarrow>
     (case from_core (PhonePairing_start d identity display_name qr (ex_rnd x)) of
        Inl e \<Rightarrow> ([], Inl e)
      | Inr (fsm, req) \<Rightarrow>
     (case send_frame (ex_send_err x) req of
        Inl e \<Rightarrow> ([], Inl e)
      | Inr u \<Rightarrow>
     (case recv_frame (ex_reply x) of
        Inl e \<Rightarrow> ([req], Inl e)
      | Inr ack \<Rightarrow>
          if frame_ty ack \<noteq> PairAck
          then ([req], Inl (Protocol (lit ''expected PAIR_ACK, got '' @ FrameType_debug (frame_ty ack))))
          else ([req], pairing_shown d dbg fsm ack (ex_reply_ms x))))))"

section \<open>Connections\<close>

text \<open>
  The socket is represented by the frames written to it. Opening returns them beside its result,
  since a failed attempt may have written one too.
\<close>

record Connection =
  cn_wire :: "Frame list"
  cn_session :: Session
  cn_op_timeout :: nat

definition Connection_open ::
  "deps \<Rightarrow> (SessionAction list \<Rightarrow> rstr) \<Rightarrow> IdentityKeypair \<Rightarrow> PeerKey \<Rightarrow> SocketAddr list \<Rightarrow> nat \<Rightarrow> exchange
     \<Rightarrow> Frame list \<times> Connection client_result" where
  "Connection_open d dbg identity peer addrs op_timeout x =
     (case dial addrs (ex_dial x) of
        Inl e \<Rightarrow> ([], Inl e)
      | Inr stream \<Rightarrow>
     (case from_core (start_phone d identity peer (ex_start_ms x) (ex_rnd x)) of
        Inl e \<Rightarrow> ([], Inl e)
      | Inr (session, hello) \<Rightarrow>
     (case send_frame (ex_send_err x) hello of
        Inl e \<Rightarrow> ([], Inl e)
      | Inr u \<Rightarrow>
     (case recv_frame (ex_reply x) of
        Inl e \<Rightarrow> ([hello], Inl e)
      | Inr ack \<Rightarrow>
          ([hello],
           (case Session_on_frame d session ack (ex_reply_ms x) (ex_reply_rnd x) of
              (session', [Emit (EvEstablished p)]) \<Rightarrow>
                Inr \<lparr> cn_wire = [hello], cn_session = session', cn_op_timeout = op_timeout \<rparr>
            | (_, [Close why]) \<Rightarrow> Inl (Rejected (lit why))
            | (_, other) \<Rightarrow> Inl (Protocol (lit ''handshake failed: '' @ dbg other))))))))"

text \<open>One wait of an operation: what it returned, and the clock read when handling it.\<close>

record client_in =
  ci_next :: wire_next
  ci_now :: u64
  ci_rnd :: "bytes option"

text \<open>
  The loop all three operations have: wait for a frame, run the session, look at the actions
  with \<open>look\<close>, which decides the operation or asks for another frame. Where the inputs end,
  the budget of the wait does.
\<close>

fun reply_loop ::
  "deps \<Rightarrow> (SessionAction list \<Rightarrow> 'r client_result option) \<Rightarrow> Session \<Rightarrow> client_in list
     \<Rightarrow> Session \<times> 'r client_result" where
  "reply_loop d look s [] = (s, Inl TimedOut)"
| "reply_loop d look s (i # is) =
     (case recv_frame (ci_next i) of
        Inl e \<Rightarrow> (s, Inl e)
      | Inr reply \<Rightarrow>
          (case Session_on_frame d s reply (ci_now i) (ci_rnd i) of
             (s', acts) \<Rightarrow>
               (case look acts of
                  Some r \<Rightarrow> (s', r)
                | None \<Rightarrow> reply_loop d look s' is)))"

text \<open>Sending a request, then the loop.\<close>

definition send_and_wait ::
  "deps \<Rightarrow> (SessionAction list \<Rightarrow> 'r client_result option) \<Rightarrow> Connection \<Rightarrow> rstr option \<Rightarrow> Session \<Rightarrow> Frame
     \<Rightarrow> client_in list \<Rightarrow> Connection \<times> 'r client_result" where
  "send_and_wait d look c err s frame is =
     (case send_frame err frame of
        Inl e \<Rightarrow> (c\<lparr> cn_session := s \<rparr>, Inl e)
      | Inr u \<Rightarrow>
          (case reply_loop d look s is of
             (s', r) \<Rightarrow> (c\<lparr> cn_wire := cn_wire c @ [frame], cn_session := s' \<rparr>, r)))"

fun beam_look :: "bytes \<Rightarrow> SessionAction list \<Rightarrow> bytes client_result option" where
  "beam_look clip_id [] = None"
| "beam_look clip_id (Emit (ClipAcked got status) # acts) =
     (if got \<noteq> clip_id then beam_look clip_id acts
      else Some (if status = 0 then Inr clip_id
                 else Inl (Rejected (lit ''PC refused the clip (status '' @ show_nat (unat status) @ lit '')''))))"
| "beam_look clip_id (Emit (PeerError code msg) # acts) =
     Some (Inl (Rejected (msg @ lit '' (code '' @ show_nat (unat code) @ lit '')'')))"
| "beam_look clip_id (Close why # acts) = Some (Inl (Rejected (lit why)))"
| "beam_look clip_id (_ # acts) = beam_look clip_id acts"

definition Connection_beam ::
  "deps \<Rightarrow> Connection \<Rightarrow> ContentType \<Rightarrow> bytes \<Rightarrow> rstr \<Rightarrow> u64 \<Rightarrow> bytes option \<Rightarrow> rstr option
     \<Rightarrow> client_in list \<Rightarrow> Connection \<times> bytes client_result" where
  "Connection_beam d c content_type body source_name now rnd err is =
     (if length body > MAX_TEXT_CLIP then (c, Inl (TooLarge (of_nat MAX_TEXT_CLIP)))
      else
        (case Session_push_clip d (cn_session c) content_type body source_name now rnd of
           (s, Inl e) \<Rightarrow> (c\<lparr> cn_session := s \<rparr>, Inl (ClientError_from e))
         | (s, Inr (frame, clip_id)) \<Rightarrow> send_and_wait d (beam_look clip_id) c err s frame is))"

fun list_look :: "SessionAction list \<Rightarrow> StageMeta list client_result option" where
  "list_look [] = None"
| "list_look (Emit (EvStageList items) # acts) = Some (Inr items)"
| "list_look (Emit (PeerError code msg) # acts) =
     Some (Inl (Rejected (msg @ lit '' (code '' @ show_nat (unat code) @ lit '')'')))"
| "list_look (Close why # acts) = Some (Inl (Rejected (lit why)))"
| "list_look (_ # acts) = list_look acts"

definition Connection_stage_list ::
  "deps \<Rightarrow> Connection \<Rightarrow> rstr option \<Rightarrow> client_in list \<Rightarrow> Connection \<times> StageMeta list client_result" where
  "Connection_stage_list d c err is =
     (case Session_request_stage_list d (cn_session c) of
        (s, Inl e) \<Rightarrow> (c\<lparr> cn_session := s \<rparr>, Inl (ClientError_from e))
      | (s, Inr req) \<Rightarrow> send_and_wait d list_look c err s req is)"

fun item_look :: "bytes \<Rightarrow> SessionAction list \<Rightarrow> (ContentType \<times> bytes) client_result option" where
  "item_look stage_id [] = None"
| "item_look stage_id (Emit (EvStageItem got content_type body) # acts) =
     (if got = stage_id then Some (Inr (content_type, body)) else item_look stage_id acts)"
| "item_look stage_id (Emit (EvStageList items) # acts) =
     Some (Inl (Rejected (lit ''clip no longer staged'')))"
| "item_look stage_id (Close why # acts) = Some (Inl (Rejected (lit why)))"
| "item_look stage_id (_ # acts) = item_look stage_id acts"

definition Connection_stage_item ::
  "deps \<Rightarrow> Connection \<Rightarrow> bytes \<Rightarrow> rstr option \<Rightarrow> client_in list
     \<Rightarrow> Connection \<times> (ContentType \<times> bytes) client_result" where
  "Connection_stage_item d c stage_id err is =
     (case Session_request_stage_item d (cn_session c) stage_id of
        (s, Inl e) \<Rightarrow> (c\<lparr> cn_session := s \<rparr>, Inl (ClientError_from e))
      | (s, Inr req) \<Rightarrow> send_and_wait d (item_look stage_id) c err s req is)"

definition Connection_peer :: "Connection \<Rightarrow> DeviceId option" where
  "Connection_peer c = Session_peer (cn_session c)"

end
