(* ===== verification/Simulate.thy ===== *)
theory Simulate
  imports Client
begin

text \<open>
  The simulated phone of \<open>--simulate-peer\<close> (\<open>simulate.rs\<close>): it pairs with a running agent from
  the code's URL, reconnects, beams a clip and pulls the newest staged one, and stops with an error
  at the first answer it does not expect. It drives the same pairing and session machines
  as the phone's core. The socket, the clock and randomness are inputs, per step; the printed
  transcript is represented by what a complete run has established.
\<close>

section \<open>Errors\<close>

text \<open>The error messages, with what the source formats into them.\<close>

datatype SimError =
    ParsingUrl Error
  | NoHosts
  | TimedOutConnecting rstr
  | Connecting rstr rstr
  | CoreError Error
  | SendFailed rstr
  | ClosedWaiting FrameType
  | DecodingFrame Error
  | Expected FrameType FrameType
  | UnexpectedPairing "PairingAction list"
  | UnexpectedConfirm "PairingAction list"
  | HandshakeFailed "SessionAction list"
  | NotAcknowledged "SessionAction list"
  | UnexpectedList "SessionAction list"
  | UnexpectedItem "SessionAction list"

section \<open>The socket\<close>

datatype connect_try = Connected_ok | Connect_timeout | Connect_error rstr

definition connect :: "connect_try \<Rightarrow> rstr \<Rightarrow> SimError + unit" where
  "connect c host =
     (case c of
        Connected_ok \<Rightarrow> Inr ()
      | Connect_timeout \<Rightarrow> Inl (TimedOutConnecting host)
      | Connect_error e \<Rightarrow> Inl (Connecting host e))"

text \<open>\<open>wire.next().await\<close> without a timeout: closed, an error of the codec, or a frame.\<close>

definition expect_frame :: "(Error + Frame) option \<Rightarrow> FrameType \<Rightarrow> SimError + Frame" where
  "expect_frame n ty =
     (case n of
        None \<Rightarrow> Inl (ClosedWaiting ty)
      | Some (Inl e) \<Rightarrow> Inl (DecodingFrame e)
      | Some (Inr f) \<Rightarrow> if frame_ty f \<noteq> ty then Inl (Expected ty (frame_ty f)) else Inr f)"

definition sim_send :: "rstr option \<Rightarrow> Frame \<Rightarrow> SimError + unit" where
  "sim_send err f = (case wire_send err f of Inl e \<Rightarrow> Inl (SendFailed e) | Inr u \<Rightarrow> Inr ())"

definition sim_core :: "'a result \<Rightarrow> SimError + 'a" where
  "sim_core r = (case r of Inl e \<Rightarrow> Inl (CoreError e) | Inr v \<Rightarrow> Inr v)"

section \<open>The run\<close>

datatype sim_step = StepPair | StepConfirm | StepHello | StepPush | StepList | StepGet

text \<open>
  The inputs: the identity's seed, how the two connections went, and per step randomness, the
  clock when the step sends and when its reply is handled, a failure of the write, and the reply.
\<close>

record sim_in =
  sp_seed :: "bytes option"
  sp_connect :: connect_try
  sp_reconnect :: connect_try
  sp_rnd :: "sim_step \<Rightarrow> bytes option"
  sp_now :: "sim_step \<Rightarrow> u64"
  sp_send_err :: "sim_step \<Rightarrow> rstr option"
  sp_reply :: "sim_step \<Rightarrow> (Error + Frame) option"
  sp_reply_now :: "sim_step \<Rightarrow> u64"

definition SIM_NAME :: rstr where "SIM_NAME = lit ''Simulated iPhone''"

definition SIM_TEXT :: rstr where
  "SIM_TEXT = lit ''Beamed by --simulate-peer '' @ [0x1F680]"

text \<open>Pairing: the record of the PC, and the frames sent.\<close>

definition sim_pair ::
  "deps \<Rightarrow> sim_in \<Rightarrow> IdentityKeypair \<Rightarrow> QrPayload \<Rightarrow> rstr \<Rightarrow> SimError + PairingRecord \<times> Frame list" where
  "sim_pair d i me qr host =
     try_r (connect (sp_connect i) host) (\<lambda>_.
     try_r (sim_core (PhonePairing_start d me SIM_NAME qr (sp_rnd i StepPair))) (\<lambda>(fsm, req).
     try_r (sim_send (sp_send_err i StepPair) req) (\<lambda>_.
     try_r (expect_frame (sp_reply i StepPair) PairAck) (\<lambda>ack.
       case PhonePairing_on_frame d fsm ack of (fsm, acts) \<Rightarrow>
       (case acts of
          [ShowSas sas] \<Rightarrow>
            (case confirm_sas d fsm (sp_now i StepConfirm) of (fsm, acts) \<Rightarrow>
            (case acts of
               [PSend f, Completed r] \<Rightarrow>
                 try_r (sim_send (sp_send_err i StepConfirm) f) (\<lambda>_. Inr (r, [req, f]))
             | other \<Rightarrow> Inl (UnexpectedConfirm other)))
        | other \<Rightarrow> Inl (UnexpectedPairing other))))))"

text \<open>The handshake on a fresh connection.\<close>

definition sim_handshake ::
  "deps \<Rightarrow> sim_in \<Rightarrow> IdentityKeypair \<Rightarrow> PairingRecord \<Rightarrow> rstr \<Rightarrow> SimError + Session \<times> Frame" where
  "sim_handshake d i me pc_record host =
     try_r (connect (sp_reconnect i) host) (\<lambda>_.
     try_r (sim_core (PairingRecord_device_id_bytes d pc_record)) (\<lambda>dev.
     try_r (sim_core (PairingRecord_public_key_bytes d pc_record)) (\<lambda>pk.
     try_r (sim_core (start_phone d me \<lparr> pk_device_id = dev, pk_public_key = pk \<rparr>
              (sp_now i StepHello) (sp_rnd i StepHello))) (\<lambda>(session, hello).
     try_r (sim_send (sp_send_err i StepHello) hello) (\<lambda>_.
     try_r (expect_frame (sp_reply i StepHello) HelloAck) (\<lambda>ack.
       case Session_on_frame d session ack (sp_reply_now i StepHello) None of (session, acts) \<Rightarrow>
       (case acts of
          [Emit (EvEstablished peer)] \<Rightarrow> Inr (session, hello)
        | other \<Rightarrow> Inl (HandshakeFailed other))))))))"

definition sim_beam :: "deps \<Rightarrow> sim_in \<Rightarrow> Session \<Rightarrow> SimError + Session \<times> Frame" where
  "sim_beam d i session =
     (case Session_push_clip d session Text (as_bytes SIM_TEXT) SIM_NAME (sp_now i StepPush)
             (sp_rnd i StepPush) of (session, r) \<Rightarrow>
      try_r (sim_core r) (\<lambda>(push, _).
      try_r (sim_send (sp_send_err i StepPush) push) (\<lambda>_.
      try_r (expect_frame (sp_reply i StepPush) ClipAck) (\<lambda>ack.
        case Session_on_frame d session ack (sp_reply_now i StepPush) None of (session, acts) \<Rightarrow>
        (case acts of
           [Emit (ClipAcked clip_id status)] \<Rightarrow>
             if status = 0 then Inr (session, push) else Inl (NotAcknowledged acts)
         | other \<Rightarrow> Inl (NotAcknowledged other))))))"

definition sim_list :: "deps \<Rightarrow> sim_in \<Rightarrow> Session \<Rightarrow> SimError + Session \<times> Frame \<times> StageMeta list" where
  "sim_list d i session =
     (case Session_request_stage_list d session of (session, r) \<Rightarrow>
      try_r (sim_core r) (\<lambda>req.
      try_r (sim_send (sp_send_err i StepList) req) (\<lambda>_.
      try_r (expect_frame (sp_reply i StepList) StageList) (\<lambda>reply.
        case Session_on_frame d session reply (sp_reply_now i StepList) None of (session, acts) \<Rightarrow>
        (case acts of
           [Emit (EvStageList items)] \<Rightarrow> Inr (session, req, items)
         | other \<Rightarrow> Inl (UnexpectedList other))))))"

text \<open>The newest staged clip, when there is one.\<close>

definition sim_get ::
  "deps \<Rightarrow> sim_in \<Rightarrow> Session \<Rightarrow> StageMeta list \<Rightarrow> SimError + (Frame \<times> bytes) option" where
  "sim_get d i session items =
     (case items of
        [] \<Rightarrow> Inr None
      | first # _ \<Rightarrow>
          (case Session_request_stage_item d session (sm_stage_id first) of (session, r) \<Rightarrow>
           try_r (sim_core r) (\<lambda>req.
           try_r (sim_send (sp_send_err i StepGet) req) (\<lambda>_.
           try_r (expect_frame (sp_reply i StepGet) StageItem) (\<lambda>item.
             case Session_on_frame d session item (sp_reply_now i StepGet) None of (session, acts) \<Rightarrow>
             (case acts of
                [Emit (EvStageItem stage_id content_type body)] \<Rightarrow> Inr (Some (req, body))
              | other \<Rightarrow> Inl (UnexpectedItem other)))))))"

text \<open>What a complete run has shown: the PC's record, the staged list, the body pulled, the frames sent.\<close>

record sim_done =
  sd_record :: PairingRecord
  sd_items :: "StageMeta list"
  sd_body :: "bytes option"
  sd_pairing_frames :: "Frame list"
  sd_session_frames :: "Frame list"

definition simulate_run :: "deps \<Rightarrow> sim_in \<Rightarrow> rstr \<Rightarrow> SimError + sim_done" where
  "simulate_run d i qr_url =
     (case QrPayload_parse d qr_url of
        Inl e \<Rightarrow> Inl (ParsingUrl e)
      | Inr qr \<Rightarrow>
          try_r (sim_core (IdentityKeypair_generate d (sp_seed i))) (\<lambda>phone_id.
          case qr_hosts qr of
            [] \<Rightarrow> Inl NoHosts
          | host # _ \<Rightarrow>
              try_r (sim_pair d i phone_id qr host) (\<lambda>(pc_record, pairing_frames).
              try_r (sim_handshake d i phone_id pc_record host) (\<lambda>(session, hello).
              try_r (sim_beam d i session) (\<lambda>(session, push).
              try_r (sim_list d i session) (\<lambda>(session, req, items).
              try_r (sim_get d i session items) (\<lambda>got.
                Inr \<lparr> sd_record = pc_record, sd_items = items, sd_body = map_option snd got,
                      sd_pairing_frames = pairing_frames,
                      sd_session_frames = [hello, push, req] @ (case got of None \<Rightarrow> [] | Some (f, b) \<Rightarrow> [f]) \<rparr>)))))))"

end
