(* ===== verification/Agent.thy ===== *)
theory Agent
  imports Server Clipboard Toast Tray PairingWindow Simulate
begin

text \<open>
  The Windows agent around the server (\<open>main.rs\<close>): arguments, start-up, command loop and event pump.
  The network interfaces, the registry and the clipboard answer as their arguments say.
\<close>

section \<open>Start-up\<close>

datatype Mode = ModeAgent | SimulatePeer rstr | ModePair | ModeHelp

definition classify_args :: "rstr list \<Rightarrow> Mode" where
  "classify_args args =
     (case args of
        [] \<Rightarrow> ModeAgent
      | a # rest \<Rightarrow>
          if a = lit ''--simulate-peer'' then
            (case rest of url # _ \<Rightarrow> SimulatePeer url | [] \<Rightarrow> ModeHelp)
          else if a = lit ''--pair'' then ModePair
          else ModeHelp)"

definition hostname :: "rstr option \<Rightarrow> rstr option \<Rightarrow> rstr" where
  "hostname computername host =
     (case computername of
        Some n \<Rightarrow> n
      | None \<Rightarrow> (case host of Some n \<Rightarrow> n | None \<Rightarrow> lit ''Windows PC''))"

text \<open>Opening a pairing window: the state with the offer, and the URL to show.\<close>

definition open_pairing_window ::
  "deps \<Rightarrow> Interface list option \<Rightarrow> bytes option \<Rightarrow> u64 \<Rightarrow> AgentState \<Rightarrow> u16 \<Rightarrow> AgentState \<times> rstr anyhow" where
  "open_pairing_window d ifaces rnd now st port =
     (case rnd of
        None \<Rightarrow> (st, Inl (lit ''rng failure''))
      | Some token \<Rightarrow>
          let hosts = local_hosts ifaces port in
          if hosts = []
          then (st, Inl (lit ''no usable network interface '' @ [0x2014] @ lit '' connect to Wi-Fi and retry''))
          else
            let url = pairing_url d (IdentityKeypair_device_id d (ag_identity st))
                        (IdentityKeypair_public_bytes (ag_identity st)) (ag_display_name st) hosts token
            in (st\<lparr> ag_pairing := Some \<lparr> offer_token = token, offer_issued_ms = now, offer_hosts = hosts \<rparr> \<rparr>,
                Inr url))"

section \<open>The shell\<close>

text \<open>
  What the shell keeps beside the agent state: the view of the window, the tooltips sent to the
  tray once there is one and the registry values of the Run key.
\<close>

record shell =
  sh_view :: PairingView
  sh_tips :: "rstr list option"
  sh_registry :: registry

text \<open>The sink for statuses does nothing before the tray was set.\<close>

definition AgentState_set_tray :: "shell \<Rightarrow> rstr list \<Rightarrow> shell" where
  "AgentState_set_tray sh handle = sh\<lparr> sh_tips := Some handle \<rparr>"

definition TrayStatusSink_set_status :: "rstr list option \<Rightarrow> Status \<Rightarrow> rstr option \<Rightarrow> rstr list option" where
  "TrayStatusSink_set_status sink status peer_name =
     (case sink of None \<Rightarrow> None | Some h \<Rightarrow> Some (TrayHandle_set_status h status peer_name))"

definition set_status :: "shell \<Rightarrow> Status \<Rightarrow> shell" where
  "set_status sh status = sh\<lparr> sh_tips := TrayStatusSink_set_status (sh_tips sh) status None \<rparr>"

definition idle_status_of :: "AgentState \<Rightarrow> Status" where
  "idle_status_of st = (if ag_peers st = [] then Unpaired else Idle)"

text \<open>What one command of the loop needs: interfaces, randomness, the clock and the registry's answers.\<close>

record shell_in =
  si_ifaces :: "Interface list option"
  si_rnd :: "bytes option"
  si_now :: u64
  si_reg :: reg_calls

text \<open>
  The loop over tray commands, with \<open>idle\<close> as computed before it; it ends at Quit or when the
  channel closes.
\<close>

fun shell_loop ::
  "deps \<Rightarrow> Status \<Rightarrow> (TrayCommand \<times> shell_in) list \<Rightarrow> AgentState \<Rightarrow> shell \<Rightarrow> AgentState \<times> shell" where
  "shell_loop d idle [] st sh = (st, sh)"
| "shell_loop d idle ((cmd, i) # cmds) st sh =
     (case cmd of
        OpenPairing \<Rightarrow>
          (case open_pairing_window d (si_ifaces i) (si_rnd i) (si_now i) st (AgentState_listen_port st) of
             (st', Inr url) \<Rightarrow> shell_loop d idle cmds st' (sh\<lparr> sh_view := ShowQr url \<rparr>)
           | (st', Inl e) \<Rightarrow> shell_loop d idle cmds st' sh)
      | SetPaused p \<Rightarrow>
          shell_loop d idle cmds (st\<lparr> ag_paused := p \<rparr>) (set_status sh (if p then Paused else idle))
      | SetAutostart on \<Rightarrow>
          (case set_autostart (si_reg i) (sh_registry sh) on of
             (reg, r) \<Rightarrow> shell_loop d idle cmds st (sh\<lparr> sh_registry := reg \<rparr>))
      | Quit \<Rightarrow> (st, sh))"

text \<open>
  \<open>tray\<close> is what starting the tray gave: without one the thread parks and nothing changes.
  \<open>window\<close> is how showing the window at start ended.
\<close>

definition run_shell ::
  "deps \<Rightarrow> (TrayCommand \<times> shell_in) list anyhow \<Rightarrow> bool \<Rightarrow> unit anyhow \<Rightarrow> AgentState \<Rightarrow> shell
     \<Rightarrow> (AgentState \<times> shell) \<times> unit anyhow" where
  "run_shell d tray open_now window st sh =
     (case tray of
        Inl e \<Rightarrow> ((st, sh), Inr ())
      | Inr cmds \<Rightarrow>
          let idle = idle_status_of st;
              sh = set_status sh idle
          in (case (if open_now then window else Inr ()) of
                Inl e \<Rightarrow> ((st, sh), Inl e)
              | Inr u \<Rightarrow> (shell_loop d idle cmds st sh, Inr ())))"

text \<open>One event of the pump: the tray and the window.\<close>

definition pump_event :: "AgentState \<Rightarrow> shell \<Rightarrow> AgentEvent \<Rightarrow> shell" where
  "pump_event st sh event =
     (let sh = (case event of
                  PeerConnected i \<Rightarrow> set_status sh Connected
                | PeerDisconnected i \<Rightarrow> set_status sh (if AgentState_is_paused st then Paused else Idle)
                | _ \<Rightarrow> sh)
      in (case event of
            PairingSas emoji \<Rightarrow> sh\<lparr> sh_view := CompareSas emoji \<rparr>
          | Paired record \<Rightarrow> sh\<lparr> sh_view := Success (pr_display_name record) \<rparr>
          | PairingFailed reason \<Rightarrow> sh\<lparr> sh_view := ViewFailed reason \<rparr>
          | _ \<Rightarrow> sh))"

text \<open>
  Applying an event to Windows: an arrived clip is written to the clipboard, under a guard
  created for that write (the next free cell), and announced by a toast.
\<close>

definition handle_agent_event ::
  "cb_calls \<Rightarrow> toast_calls \<Rightarrow> clipboard \<Rightarrow> guards \<Rightarrow> OwnWriteGuard \<Rightarrow> AgentEvent
     \<Rightarrow> clipboard \<times> guards \<times> (rstr \<times> rstr) option" where
  "handle_agent_event sys tc cb h fresh event =
     (case event of
        AgentClipArrived content_type body source_name \<Rightarrow>
          let text = from_utf8_lossy body in
          (case set_text sys cb (OwnWriteGuard_default h fresh) text fresh of
             (cb', h', r) \<Rightarrow> (cb', h', fst (show_clip_arrived tc (toast_preview text) source_name)))
      | _ \<Rightarrow> (cb, h, None))"

text \<open>The watcher thread's consumer: a copied clip goes into the ring, under a random identifier.\<close>

definition stage_copied :: "bytes option \<Rightarrow> u64 \<Rightarrow> AgentState \<Rightarrow> ClipboardEvent \<Rightarrow> AgentState" where
  "stage_copied rnd now st ev =
     (case StageRing_push (ag_stage st) (ce_content_type ev) (ce_body ev) now rnd of
        (ring, r) \<Rightarrow> st\<lparr> ag_stage := ring \<rparr>)"

section \<open>Starting the services\<close>

text \<open>
  What start-up asks of the system: two variables and the directory of the keystore, randomness for a new identity, the
  file system's faults, the two environment variables, the socket (its refusals of the
  default and of an ephemeral port, and the port it reports for the one asked), the mDNS daemon and what it answers, and for a pairing window
  the interfaces, the token and the clock.
\<close>

record startup =
  su_localappdata :: "rstr option"
  su_home :: "rstr option"
  su_create_dir :: "rstr \<Rightarrow> rstr option"
  su_io :: io_faults
  su_seed :: "bytes option"
  su_computername :: "rstr option"
  su_hostname :: "rstr option"
  su_default_err :: "rstr option"
  su_ephemeral_err :: "rstr option"
  su_local_port :: "u16 \<Rightarrow> u16 anyhow"
  su_mdns :: "rstr option"
  su_info_new :: "rstr \<Rightarrow> rstr + rstr"
  su_register :: "rstr option"
  su_ifaces :: "Interface list option"
  su_token :: "bytes option"
  su_now :: u64

text \<open>
  \<open>server::bind\<close>: the port asked for, the default one or 0 for an ephemeral one; the system's
  refusals of the two are arguments.
\<close>

definition bind :: "rstr option \<Rightarrow> rstr option \<Rightarrow> u16 anyhow" where
  "bind default_err ephemeral_err =
     (case default_err of
        None \<Rightarrow> Inr DEFAULT_PORT
      | Some e \<Rightarrow>
          context_r (case ephemeral_err of None \<Rightarrow> Inr 0 | Some e \<Rightarrow> Inl e) ''binding ephemeral port'')"

definition start_mdns :: "startup \<Rightarrow> DeviceId \<Rightarrow> rstr \<Rightarrow> u16 \<Rightarrow> MdnsDiscovery option \<times> MdnsCall list" where
  "start_mdns su device_id display_name port =
     (case MdnsDiscovery_new (su_mdns su) of
        Inl e \<Rightarrow> (None, [])
      | Inr m \<Rightarrow>
          (case advertise m device_id display_name port (\<lambda>n. None)
                  (su_info_new su) (su_register su) of
             (m, calls, Inr u) \<Rightarrow> (Some m, calls)
           | (m, calls, Inl e) \<Rightarrow> (None, calls)))"

text \<open>The services: the files, what was told to the mDNS daemon, and the state with the window's view.\<close>

definition start_services ::
  "deps \<Rightarrow> platform \<Rightarrow> startup \<Rightarrow> fs \<Rightarrow> bool \<Rightarrow> fs \<times> MdnsCall list \<times> (AgentState \<times> PairingView) anyhow" where
  "start_services d w su files open_pairing =
     (case Keystore_open (su_localappdata su) (su_home su) (su_create_dir su) of
        Inl e \<Rightarrow> (files, [], Inl e)
      | Inr dir \<Rightarrow>
          (case load_or_create_identity d w (su_io su) files (su_seed su) of
             (files, Inl e) \<Rightarrow> (files, [], Inl e)
           | (files, Inr identity) \<Rightarrow>
               let peers = unwrap_or (load_pairings w (su_io su) files) [];
                   display_name = hostname (su_computername su) (su_hostname su)
               in (case try_r (bind (su_default_err su) (su_ephemeral_err su)) (su_local_port su) of
                     Inl e \<Rightarrow> (files, [], Inl e)
                   | Inr port \<Rightarrow>
                       let st = AgentState_set_listen_port (AgentState_new identity display_name files peers) port;
                           calls = snd (start_mdns su (IdentityKeypair_device_id d identity) display_name port)
                       in if open_pairing then
                            (case open_pairing_window d (su_ifaces su) (su_token su) (su_now su) st port of
                               (st', Inl e) \<Rightarrow> (files, calls, Inl e)
                             | (st', Inr url) \<Rightarrow> (files, calls, Inr (st', ShowQr url)))
                          else (files, calls, Inr (st, ShowQr [])))))"

text \<open>
  The agent from start to Quit: a second instance leaves at once; otherwise the services start
  and the shell runs. Serving runs beside the shell on its own task and is modelled by
  \<open>serve_accept\<close>.
\<close>

definition run_agent ::
  "deps \<Rightarrow> platform \<Rightarrow> startup \<Rightarrow> rstr option \<Rightarrow> mutexes \<Rightarrow> (TrayCommand \<times> shell_in) list anyhow
     \<Rightarrow> unit anyhow \<Rightarrow> registry \<Rightarrow> fs \<Rightarrow> bool
     \<Rightarrow> fs \<times> MdnsCall list \<times> (AgentState \<times> shell) option \<times> unit anyhow" where
  "run_agent d w su err ms tray window reg files open_pairing =
     (case SingleInstance_acquire err ms of
        (ms', Inl e) \<Rightarrow> (files, [], None, Inl e)
      | (ms', Inr None) \<Rightarrow> (files, [], None, Inr ())
      | (ms', Inr (Some inst)) \<Rightarrow>
          (case start_services d w su files open_pairing of
             (files, calls, Inl e) \<Rightarrow> (files, calls, None, Inl e)
           | (files, calls, Inr (st, view)) \<Rightarrow>
               (case run_shell d tray open_pairing window st
                       (AgentState_set_tray \<lparr> sh_view = view, sh_tips = None, sh_registry = reg \<rparr> []) of
                  (end_state, r) \<Rightarrow> (files, calls, Some end_state, r))))"

section \<open>The program\<close>

definition help_text :: "rstr \<Rightarrow> rstr" where
  "help_text version =
     lit ''airclip-windows '' @ version @ [10, 10] @
     lit ''USAGE:'' @ [10] @
     lit ''  airclip-windows                      run the tray agent'' @ [10] @
     lit ''  airclip-windows --pair               open pairing mode and print the QR URL'' @ [10] @
     lit ''  airclip-windows --simulate-peer URL  act as a phone against a running agent'' @ [10] @
     lit ''  airclip-windows --help'' @ [10, 10]"

text \<open>
  What a run of the program is given: whether the runtime could be built, the inputs of the
  simulated phone, and those of the agent.
\<close>

record main_in =
  mi_version :: rstr
  mi_runtime_err :: "rstr option"
  mi_sim :: sim_in
  mi_startup :: startup
  mi_instance_err :: "rstr option"
  mi_mutexes :: mutexes
  mi_tray :: "(TrayCommand \<times> shell_in) list anyhow"
  mi_window :: "unit anyhow"
  mi_registry :: registry

datatype main_end =
    NoRuntime rstr
  | HelpPrinted rstr
  | PeerRan "SimError + sim_done"
  | AgentRan "MdnsCall list" "(AgentState \<times> shell) option" "unit anyhow"

definition airclip_main :: "deps \<Rightarrow> platform \<Rightarrow> main_in \<Rightarrow> fs \<Rightarrow> rstr list \<Rightarrow> fs \<times> main_end" where
  "airclip_main d w mi files args =
     (case mi_runtime_err mi of
        Some e \<Rightarrow> (files, NoRuntime e)
      | None \<Rightarrow>
          let agent = (\<lambda>open_pairing.
                case run_agent d w (mi_startup mi) (mi_instance_err mi) (mi_mutexes mi) (mi_tray mi) (mi_window mi)
                       (mi_registry mi) files open_pairing of
                  (files, calls, end_state, r) \<Rightarrow> (files, AgentRan calls end_state r))
          in (case classify_args args of
                ModeHelp \<Rightarrow> (files, HelpPrinted (help_text (mi_version mi)))
              | SimulatePeer qr_url \<Rightarrow> (files, PeerRan (simulate_run d (mi_sim mi) qr_url))
              | ModePair \<Rightarrow> agent True
              | ModeAgent \<Rightarrow> agent False))"

end
