(* ===== verification/ServerFacts.thy ===== *)
theory ServerFacts
  imports Server
begin

text \<open>
  What the server guarantees: the rate limiter lets twenty connections per address and window
  through and then bans that address, and no other; a session task that ends normally reports
  a disconnection for every connection it reported, one that ends with an error does not; a
  pairing window stays open until a pairing succeeds.
\<close>

section \<open>The rate limiter\<close>

text \<open>The limiter's view of one address.\<close>

definition limiter_view :: "RateLimiter \<Rightarrow> IpAddr \<Rightarrow> u64 option \<times> u32 option \<times> u64 option" where
  "limiter_view l ip = (window_start_ms l ip, counts l ip, banned_until_ms l ip)"

lemma allow_other_address:
  assumes "ip' \<noteq> ip"
  shows "limiter_view (fst (RateLimiter_allow l ip now)) ip' = limiter_view l ip'"
  using assms
  by (auto simp: limiter_view_def RateLimiter_allow_def allow_window_def Let_def split: option.splits)

text \<open>An address in its window, with \<open>n\<close> connections counted, and one that is banned.\<close>

definition in_window :: "RateLimiter \<Rightarrow> IpAddr \<Rightarrow> u64 \<Rightarrow> nat \<Rightarrow> bool" where
  "in_window l ip t0 n \<longleftrightarrow> window_start_ms l ip = Some t0 \<and> counts l ip = Some (of_nat n) \<and>
     banned_until_ms l ip = None \<and> n \<le> 20"

definition banned :: "RateLimiter \<Rightarrow> IpAddr \<Rightarrow> u64 \<Rightarrow> nat \<Rightarrow> bool" where
  "banned l ip t0 limit \<longleftrightarrow> window_start_ms l ip = Some t0 \<and>
     (\<exists>u. banned_until_ms l ip = Some u \<and> unat u = limit)"

lemma in_window_step:
  assumes w: "in_window l ip t0 n" and t: "unat t < unat t0 + 60000" and lim: "unat t0 + 400000 < 2 ^ 64"
  shows "if n < 20 then snd (RateLimiter_allow l ip t) \<and> in_window (fst (RateLimiter_allow l ip t)) ip t0 (Suc n)
    else \<not> snd (RateLimiter_allow l ip t) \<and> banned (fst (RateLimiter_allow l ip t)) ip t0 (unat t + 300000)"
proof -
  have n: "n \<le> 20" using w by (simp add: in_window_def)
  have "\<not> 60000 \<le> unat (saturating_sub t t0)" using t by (simp add: unat_saturating_sub)
  then have early: "\<not> (60000 :: u64) \<le> saturating_sub t t0" by (simp add: word_le_nat_alt)
  have "unat (of_nat n + 1 :: u32) = n + 1" using n by (simp add: unat_word_ariths unat_of_nat)
  then have c: "RATE_LIMIT_PER_MIN < of_nat n + 1 \<longleftrightarrow> 20 < n + 1"
    by (simp add: RATE_LIMIT_PER_MIN_def word_less_nat_alt)
  have u: "unat (t + RATE_LIMIT_BAN_MS) = unat t + 300000"
    using t lim by (simp add: RATE_LIMIT_BAN_MS_def unat_word_ariths)
  show ?thesis
    using w c early u n
    by (auto simp: in_window_def banned_def RateLimiter_allow_def allow_window_def Let_def add.commute)
qed

lemma fresh_step:
  assumes "limiter_view l ip = (None, None, None)"
  shows "snd (RateLimiter_allow l ip t0) \<and> in_window (fst (RateLimiter_allow l ip t0)) ip t0 1"
  using assms
  by (simp add: limiter_view_def in_window_def RateLimiter_allow_def allow_window_def Let_def
      RATE_LIMIT_PER_MIN_def word_le_nat_alt word_less_nat_alt unat_saturating_sub)

lemma banned_step:
  assumes "banned l ip t0 limit" "unat t < limit"
  shows "RateLimiter_allow l ip t = (l, False)"
  using assms by (auto simp: banned_def RateLimiter_allow_def word_less_nat_alt)

lemma ban_expires:
  assumes "banned l ip t0 limit" "limit \<le> unat t" "unat t0 + 60000 \<le> limit"
  shows "snd (RateLimiter_allow l ip t)"
proof -
  have "60000 \<le> unat (saturating_sub t t0)" using assms by (simp add: unat_saturating_sub)
  then have late: "(60000 :: u64) \<le> saturating_sub t t0" by (simp add: word_le_nat_alt)
  show ?thesis using assms late
    by (auto simp: banned_def RateLimiter_allow_def allow_window_def Let_def RATE_LIMIT_PER_MIN_def
        word_less_nat_alt)
qed

definition attempt :: "IpAddr \<Rightarrow> RateLimiter \<Rightarrow> u64 \<Rightarrow> RateLimiter \<times> bool list" where
  "attempt ip l t = (case RateLimiter_allow l ip t of (l', b) \<Rightarrow> (l', [b]))"

lemma attempts_other_address:
  "ip' \<noteq> ip \<Longrightarrow> limiter_view (fst (run (attempt ip) l ts)) ip' = limiter_view l ip'"
  by (induction ts arbitrary: l) (simp_all add: attempt_def case_prod_unfold allow_other_address)

lemma attempts_banned:
  "banned l ip t0 limit \<Longrightarrow> \<forall>t \<in> set ts. unat t < limit \<Longrightarrow>
   fst (run (attempt ip) l ts) = l \<and> concat (snd (run (attempt ip) l ts)) = replicate (length ts) False"
  by (induction ts) (simp_all add: attempt_def banned_step case_prod_unfold)

lemma attempts_in_window:
  assumes "in_window l ip t0 n" "\<forall>t \<in> set ts. unat t < unat t0 + 60000" "unat t0 + 400000 < 2 ^ 64"
    "n + length ts \<le> 20"
  shows "concat (snd (run (attempt ip) l ts)) = replicate (length ts) True \<and>
    in_window (fst (run (attempt ip) l ts)) ip t0 (n + length ts)"
  using assms
proof (induction ts arbitrary: l n)
  case (Cons t ts)
  have "snd (RateLimiter_allow l ip t)" "in_window (fst (RateLimiter_allow l ip t)) ip t0 (Suc n)"
    using in_window_step [OF Cons.prems(1) _ Cons.prems(3), of t] Cons.prems(2,4) by simp_all
  then show ?case
    using Cons.IH [of "fst (RateLimiter_allow l ip t)" "Suc n"] Cons.prems
    by (simp add: attempt_def case_prod_unfold)
qed simp


text \<open>
  C24: An address the limiter has not seen gets its first twenty connections within a minute of
  the first one accepted. The next one within that minute is refused and bans the address: every
  connection in the five minutes that follow is refused too, the first after them is accepted,
  and what the limiter knows about any other address has not changed.
\<close>

theorem rate_limiter_bans_for_five_minutes:
  assumes fresh: "limiter_view l ip = (None, None, None)"
    and len: "length ts = 19"
    and minute: "\<forall>t \<in> set (ts @ [t]). unat t0 \<le> unat t \<and> unat t < unat t0 + 60000"
    and clock: "unat t0 + 400000 < 2 ^ 64"
    and ban: "\<forall>t' \<in> set later. unat t' < unat t + 300000"
    and after: "unat t + 300000 \<le> unat t2"
    and res: "run (attempt ip) l (t0 # ts @ t # later) = (l', outs)"
  shows "concat outs = replicate 20 True @ replicate (Suc (length later)) False \<and>
    snd (RateLimiter_allow l' ip t2) \<and>
    (\<forall>ip'. ip' = ip \<or> limiter_view l' ip' = limiter_view l ip')"
proof -
  define l1 where "l1 = fst (RateLimiter_allow l ip t0)"
  have l1: "attempt ip l t0 = (l1, [True])" "in_window l1 ip t0 1"
    using fresh_step [OF fresh, of t0] by (simp_all add: attempt_def l1_def case_prod_unfold)
  define l2 where "l2 = fst (run (attempt ip) l1 ts)"
  have l2: "concat (snd (run (attempt ip) l1 ts)) = replicate 19 True" "in_window l2 ip t0 20"
    using attempts_in_window [OF l1(2), of ts] minute clock len by (simp_all add: l2_def)
  define l3 where "l3 = fst (RateLimiter_allow l2 ip t)"
  have l3: "attempt ip l2 t = (l3, [False])" "banned l3 ip t0 (unat t + 300000)"
    using in_window_step [OF l2(2) _ clock, of t] minute by (simp_all add: attempt_def l3_def case_prod_unfold)
  have l4: "fst (run (attempt ip) l3 later) = l3"
    "concat (snd (run (attempt ip) l3 later)) = replicate (length later) False"
    using attempts_banned [OF l3(2) ban] by simp_all
  have "replicate 20 True = True # replicate 19 True" by (simp flip: replicate_Suc)
  then have l': "l' = l3" "concat outs = replicate 20 True @ replicate (Suc (length later)) False"
    using res l1(1) l2(1) l3(1) l4
    using run_append [of "attempt ip" l "t0 # ts" "t # later"] by (auto simp: l2_def)
  have "snd (RateLimiter_allow l' ip t2)"
    using ban_expires [OF l3(2) after] minute by (simp add: l')
  then show ?thesis
    using l'(2) attempts_other_address [of _ ip l "t0 # ts @ t # later"] res by auto
qed

definition demo_ip :: IpAddr where "demo_ip = V4 [192, 168, 1, 20]"

theorem rate_limiter_bans_for_five_minutes_witness:
  "concat (snd (run (attempt demo_ip) RateLimiter_default (0 # replicate 19 1000 @ 59999 # [60000, 359998]))) =
     replicate 20 True @ replicate 3 False \<and>
   snd (RateLimiter_allow (fst (run (attempt demo_ip) RateLimiter_default
     (0 # replicate 19 1000 @ 59999 # [60000, 359998]))) demo_ip 359999)"
  using rate_limiter_bans_for_five_minutes [of RateLimiter_default demo_ip "replicate 19 1000" 59999 0
      "[60000, 359998]" 359999, OF _ _ _ _ _ _ prod.collapse [symmetric]]
  by (simp add: limiter_view_def RateLimiter_default_def numeral_3_eq_3)

section \<open>Session tasks\<close>

definition is_link :: "effect \<Rightarrow> bool" where
  "is_link e \<longleftrightarrow> (\<exists>i. e = Event (PeerConnected i) \<or> e = Event (PeerDisconnected i))"

lemma is_link_simps [simp]:
  "is_link (Event (PeerConnected i))" "is_link (Event (PeerDisconnected i))"
  "\<not> is_link (Wrote f)" "\<not> is_link (Event (AgentClipArrived c b n))"
  by (simp_all add: is_link_def)

definition links :: "effect list \<Rightarrow> effect list" where
  "links effs = filter is_link effs"

lemma links_simps [simp]:
  "links [] = []" "links (e # es) = (if is_link e then e # links es else links es)"
  "links (xs @ ys) = links xs @ links ys" "links (disconnect c) = disconnect c"
  by (auto simp: links_def disconnect_def split: option.split)

fun is_est :: "SessionAction \<Rightarrow> bool" where
  "is_est (Emit (EvEstablished p)) = True"
| "is_est _ = False"

lemma no_est_fail [simp]: "list_all (Not \<circ> is_est) (snd (Session_fail s why))"
  by simp

lemma no_est_wire_error [simp]: "list_all (Not \<circ> is_est) (snd (Session_wire_error d s c msg))"
  by (auto simp: Session_wire_error_def Let_def split: option.split prod.split sum.split)

lemma no_est_handlers:
  "list_all (Not \<circ> is_est) (snd (on_clip_push d s plain))"
  "list_all (Not \<circ> is_est) (snd (on_clip_ack d s plain))"
  "list_all (Not \<circ> is_est) (snd (on_stage_get d s plain))"
  "list_all (Not \<circ> is_est) (snd (on_stage_list d s plain))"
  "list_all (Not \<circ> is_est) (snd (on_stage_item d s plain))"
  "list_all (Not \<circ> is_est) (snd (on_error d s plain))"
  by (auto simp: on_clip_push_def on_clip_ack_def on_stage_get_def on_stage_list_def
      on_stage_item_def Let_def split: sum.split option.split prod.split)
    (simp add: on_error_def case_prod_unfold Let_def)

lemma no_second_handshake:
  assumes "sess_state s = Established \<or> sess_state s = Closed"
  shows "list_all (Not \<circ> is_est) (snd (Session_on_frame d s f now rnd))"
  by (cases rule: on_frame_cases [where d = d and s = s and f = f and now = now and rnd = rnd])
    (use assms in \<open>auto simp: on_encrypted_def no_est_handlers Let_def
       split: option.split FrameType.split sum.split prod.split\<close>)

lemma open_session_stays_past_hello:
  assumes "sess_state s = Established \<or> sess_state s = Closed"
  shows "let s' = fst (Session_on_frame d s f now rnd) in sess_state s' = Established \<or> sess_state s' = Closed"
proof (cases rule: on_frame_cases [where d = d and s = s and f = f and now = now and rnd = rnd])
  case enc
  show ?thesis
    by (cases rule: on_encrypted_cases [where s = "s\<lparr> last_activity_ms := now \<rparr>" and d = d and f = f])
      (use enc in \<open>auto simp: handler_ok_def\<close>)
qed (use assms in auto)

lemma sealing_keeps_state:
  "Session_seal_frame d s ty m = (s', r) \<Longrightarrow> sess_state s' = sess_state s"
  by (auto simp: Session_seal_frame_def split: option.splits prod.splits sum.splits)

lemma replies_keep_state:
  "Session_send_stage_list d s items = (s', r) \<Longrightarrow> sess_state s' = sess_state s"
  "Session_send_stage_item d s c = (s', r) \<Longrightarrow> sess_state s' = sess_state s"
  by (auto simp: Session_send_stage_list_def Session_send_stage_item_def
      split: sum.splits dest: sealing_keeps_state)

lemma handle_event_other:
  assumes "\<not> is_est (Emit ev)" "handle_event d ev s st cid = (s', cid', effs, r)"
  shows "cid' = cid \<and> links effs = [] \<and> sess_state s' = sess_state s"
  using assms
  by (cases ev) (auto simp: handle_event_def split: prod.splits sum.splits option.splits
      dest: replies_keep_state)

lemma session_actions_other:
  assumes "list_all (Not \<circ> is_est) acts" "session_actions d i st s cid acts = (s', cid', effs, r)"
  shows "case r of
      None \<Rightarrow> cid' = cid \<and> links effs = [] \<and> sess_state s' = sess_state s
    | Some (Inr u) \<Rightarrow> links effs = disconnect cid
    | Some (Inl e) \<Rightarrow> links effs = []"
  using assms
proof (induction acts arbitrary: s cid s' cid' effs r)
  case (Cons a acts)
  show ?case
  proof (cases a)
    case (Send f)
    obtain s3 c3 e3 r3 where t: "session_actions d i st s cid acts = (s3, c3, e3, r3)"
      by (metis prod_cases4)
    show ?thesis
      using Send Cons.prems t Cons.IH [OF _ t] by (auto split: sum.splits option.splits)
  next
    case (Emit ev)
    obtain s1 cid1 effs1 r1 where h: "handle_event d ev s st cid = (s1, cid1, effs1, r1)"
      by (metis prod_cases4)
    have k: "cid1 = cid" "links effs1 = []" "sess_state s1 = sess_state s"
      using handle_event_other [OF _ h] Cons.prems(1) Emit by simp_all
    obtain s3 c3 e3 r3 where t: "session_actions d i st s1 cid1 acts = (s3, c3, e3, r3)"
      by (metis prod_cases4)
    show ?thesis
      using Cons.prems Emit h k t Cons.IH [OF _ t] by (auto split: sum.splits option.splits)
  next
    case (Close why)
    then show ?thesis using Cons.prems by auto
  qed
qed auto

text \<open>What a task that has reported \<open>cid\<close> as connected, or nothing yet, still reports.\<close>

definition link_ok :: "PeerKey list \<Rightarrow> rstr option \<Rightarrow> effect list \<Rightarrow> unit anyhow \<Rightarrow> bool" where
  "link_ok peers cid effs r \<longleftrightarrow>
     (case cid of
        Some j \<Rightarrow> links effs = (case r of Inr u \<Rightarrow> [Event (PeerDisconnected j)] | Inl e \<Rightarrow> [])
      | None \<Rightarrow> links effs = [] \<or>
          (\<exists>p \<in> set peers. let j = DeviceId_hex (pk_device_id p) in
             links effs = Event (PeerConnected j) #
               (case r of Inr u \<Rightarrow> [Event (PeerDisconnected j)] | Inl e \<Rightarrow> [])))"

definition task_inv :: "PeerKey list \<Rightarrow> Session \<Rightarrow> rstr option \<Rightarrow> bool" where
  "task_inv peers s cid \<longleftrightarrow>
     (sess_state s = Established \<or> sess_state s = Closed) \<and> cid \<noteq> None \<or>
     sess_state s = AwaitingHello \<and> channel s = None \<and> known_peers s = peers \<and> cid = None"

lemma set_paused_simps [simp]:
  "sess_state (Session_set_paused s b) = sess_state s" "channel (Session_set_paused s b) = channel s"
  "known_peers (Session_set_paused s b) = known_peers s"
  by (simp_all add: Session_set_paused_def)

text \<open>One frame of a task: it ends with what is owed, or goes on.\<close>

lemma task_frame:
  assumes inv: "task_inv peers s cid"
    and f: "Session_on_frame d (Session_set_paused s b) f now rnd = (s1, acts)"
    and a: "session_actions d i st s1 cid acts = (s2, cid2, effs, r)"
  shows "case r of
      None \<Rightarrow> (sess_state s2 = Established \<or> sess_state s2 = Closed) \<and> cid2 \<noteq> None \<and>
        (cid = None \<and> (\<exists>p \<in> set peers. cid2 = Some (DeviceId_hex (pk_device_id p)) \<and>
            links effs = [Event (PeerConnected (DeviceId_hex (pk_device_id p)))]) \<or>
         cid2 = cid \<and> links effs = [])
    | Some r \<Rightarrow> link_ok peers cid effs r"
proof (cases cid)
  case (Some j)
  then have st: "sess_state s = Established \<or> sess_state s = Closed" using inv by (simp add: task_inv_def)
  have n: "list_all (Not \<circ> is_est) acts"
    using no_second_handshake [of "Session_set_paused s b" d f now rnd] st f by simp
  have "sess_state s1 = Established \<or> sess_state s1 = Closed"
    using open_session_stays_past_hello [of "Session_set_paused s b" d f now rnd] st f by simp
  then show ?thesis
    using session_actions_other [OF n a] Some
    by (auto simp: link_ok_def disconnect_def split: option.splits sum.splits)
next
  case None
  let ?s = "(Session_set_paused s b)\<lparr> last_activity_ms := now \<rparr>"
  have w: "sess_state s = AwaitingHello" "channel ?s = None" "known_peers s = peers"
    using inv None by (simp_all add: task_inv_def)
  show ?thesis
  proof (cases "\<exists>why. acts = [Close why]")
    case True
    then show ?thesis using a None by (auto simp: link_ok_def disconnect_def)
  next
    case False
    then have h: "on_hello d ?s f now rnd = (s1, acts)"
      using f w by (cases "frame_ty f") (auto simp: Session_on_frame_def Session_fail_def Let_def)
    show ?thesis
    proof (cases rule: on_hello_cases [OF w(2), where d = d and f = f and now = now and rnd = rnd])
      case (1 why)
      then show ?thesis using h False by simp
    next
      case (2 peer eph_pk eph keys payload)
      have "peer \<in> set peers"
        using 2(1) w(3) by (auto simp: hello_authentic_def find_Some_iff)
      then show ?thesis
        using a None 2(2) h
        by (auto simp: link_ok_def handle_event_def split: sum.splits)
    qed
  qed
qed

lemma session_task_links:
  "task_inv peers s cid \<Longrightarrow> session_loop d s cid f i is st = (st', effs, r) \<Longrightarrow> link_ok peers cid effs r"
  "(sess_state s = Established \<or> sess_state s = Closed) \<and> cid \<noteq> None \<Longrightarrow>
     session_wait d s cid is st = (st', effs, r) \<Longrightarrow> link_ok peers cid effs r"
proof (induction d s cid f i "is" st and d s cid "is" st arbitrary: st' effs r and st' effs r
    rule: session_loop_session_wait.induct)
  case (1 d s cid f i "is" st)
  obtain s1 acts where f: "Session_on_frame d (Session_set_paused s (AgentState_is_paused st)) f (in_now i) (in_rnd i) = (s1, acts)"
    by fastforce
  obtain s2 cid2 effs1 r1 where a: "session_actions d i st s1 cid acts = (s2, cid2, effs1, r1)"
    by (metis prod_cases4)
  note t = task_frame [OF 1(2) f a]
  show ?case
  proof (cases r1)
    case (Some r2)
    then show ?thesis using 1(3) f a t by simp
  next
    case None
    obtain effs2 where w: "session_wait d s2 cid2 is st = (st', effs2, r)" "effs = effs1 @ effs2"
      using 1(3) f a None by (auto split: prod.splits)
    have "link_ok peers cid2 effs2 r"
      using 1(1) [OF f [symmetric] a [symmetric] refl refl None] t w(1) None by simp
    then show ?thesis using t None w(2) by (auto simp: link_ok_def Let_def split: sum.splits)
  qed
next
  case (2 d s cid st)
  then show ?case by (auto simp: link_ok_def disconnect_def)
next
  case (3 d s cid i "is" st)
  then show ?case
    by (cases "in_next i") (auto simp: link_ok_def disconnect_def task_inv_def)
qed

text \<open>
  C26: A session task reports a connection at most once, and only of a paired peer. A task that
  ends normally, because the session or the peer closed the connection or the wait timed out,
  reports the disconnection of exactly the peer it reported; one that ends with an error (a
  frame that cannot be decoded, a failed write) does not report it, and the tray keeps showing
  the peer as connected.
\<close>

theorem session_task_reports_links:
  "case run_session d first i is st of (st', effs, r) \<Rightarrow>
     links effs = [] \<or>
     (\<exists>p \<in> set (AgentState_peer_keys d st). let j = DeviceId_hex (pk_device_id p) in
        links effs = Event (PeerConnected j) #
          (case r of Inr u \<Rightarrow> [Event (PeerDisconnected j)] | Inl e \<Rightarrow> []))"
proof -
  have "task_inv (AgentState_peer_keys d st) (Session_set_paused
      (Session_new_pc (ag_identity st) (AgentState_peer_keys d st) (in_now i)) (AgentState_is_paused st)) None"
    by (simp add: task_inv_def Session_new_pc_def)
  then show ?thesis
    using session_task_links(1) by (fastforce simp: run_session_def link_ok_def split: prod.split)
qed

section \<open>The pairing window\<close>

text \<open>Scripts in which no other task touches the shared state.\<close>

definition quiet :: "script list \<Rightarrow> bool" where
  "quiet is \<longleftrightarrow> list_all (\<lambda>i. in_update i = id) is"

fun is_paired :: "effect \<Rightarrow> bool" where
  "is_paired (Event (Paired r)) = True"
| "is_paired _ = False"

definition window_ok :: "AgentState \<Rightarrow> AgentState \<Rightarrow> effect list \<Rightarrow> bool" where
  "window_ok st st' effs \<longleftrightarrow>
     filter is_paired effs = [] \<and> ag_pairing st' = ag_pairing st \<and> ag_peers st' = ag_peers st \<or>
     (\<exists>record. filter is_paired effs = [Event (Paired record)] \<and> ag_pairing st' = None \<and>
        record_for (ag_peers st') (pr_device_id record) = Some record)"

lemma window_ok_refl [simp]: "filter is_paired effs = [] \<Longrightarrow> window_ok st st effs"
  by (simp add: window_ok_def)

lemma upsert_keeps_record:
  assumes "upsert_pairing w io fs record = (fs', Inr all)"
  shows "record_for all (pr_device_id record) = Some record"
  using assms by (auto simp: upsert_pairing_def Let_def record_for_put split: prod.splits sum.splits)

lemma pairing_actions_window:
  assumes "pairing_actions w i st acts = (st', effs, r)"
  shows "window_ok st st' effs \<and> (r = None \<longrightarrow> st' = st \<and> filter is_paired effs = [])"
  using assms
proof (induction acts arbitrary: st st' effs r)
  case (Cons a acts)
  obtain st1 effs1 r1 where t: "pairing_actions w i st acts = (st1, effs1, r1)" by (metis prod_cases3)
  show ?case
    using Cons.prems Cons.IH [OF t]
    by (cases a) (auto simp: window_ok_def t upsert_keeps_record split: sum.splits prod.splits)
qed simp

lemma pairing_task_window:
  "quiet is \<Longrightarrow> pairing_loop d w fsm f i is st = (st', effs, r) \<Longrightarrow> window_ok st st' effs"
  "quiet is \<Longrightarrow> pairing_wait d w fsm is st = (st', effs, r) \<Longrightarrow> window_ok st st' effs"
proof (induction d w fsm f i "is" st and d w fsm "is" st arbitrary: st' effs r and st' effs r
    rule: pairing_loop_pairing_wait.induct)
  case (1 d w fsm f i "is" st)
  obtain fsm1 acts where f: "PcPairing_on_frame d fsm f (in_now i) (in_rnd i) = (fsm1, acts)"
    by fastforce
  obtain st1 effs1 r1 where a: "pairing_actions w i st acts = (st1, effs1, r1)"
    by (metis prod_cases3)
  show ?case
  proof (cases r1)
    case (Some r2)
    then show ?thesis using 1(3) f a pairing_actions_window [OF a] by simp
  next
    case None
    obtain effs2 where w: "pairing_wait d w fsm1 is st1 = (st', effs2, r)" "effs = effs1 @ effs2"
      using 1(3) f a None by (auto split: prod.splits)
    show ?thesis
      using 1(1) [OF f [symmetric] a [symmetric] refl None 1(2) w(1)] pairing_actions_window [OF a] None w(2)
      by (simp add: window_ok_def)
  qed
next
  case (2 d w fsm st)
  then show ?case by simp
next
  case (3 d w fsm i "is" st)
  then show ?case by (cases "in_next i") (auto simp: quiet_def)
qed

lemma session_actions_no_pairing:
  "session_actions d i st s cid acts = (s', cid', effs, r) \<Longrightarrow> filter is_paired effs = []"
proof (induction acts arbitrary: s cid s' cid' effs r)
  case (Cons a acts)
  show ?case
  proof (cases a)
    case (Send f)
    obtain s3 c3 e3 r3 where t: "session_actions d i st s cid acts = (s3, c3, e3, r3)"
      by (metis prod_cases4)
    show ?thesis using Send Cons.prems t Cons.IH [OF t] by (auto split: sum.splits)
  next
    case (Emit ev)
    obtain s1 cid1 effs1 r1 where h: "handle_event d ev s st cid = (s1, cid1, effs1, r1)"
      by (metis prod_cases4)
    have "filter is_paired effs1 = []"
      using h by (cases ev) (auto simp: handle_event_def split: prod.splits sum.splits option.splits)
    moreover obtain s3 c3 e3 r3 where t: "session_actions d i st s1 cid1 acts = (s3, c3, e3, r3)"
      by (metis prod_cases4)
    ultimately show ?thesis
      using Emit Cons.prems h t Cons.IH [OF t] by (auto split: sum.splits option.splits)
  next
    case (Close why)
    then show ?thesis using Cons.prems by (auto simp: disconnect_def split: option.splits)
  qed
qed simp

lemma session_task_state:
  "quiet is \<Longrightarrow> session_loop d s cid f i is st = (st', effs, r) \<Longrightarrow> st' = st \<and> filter is_paired effs = []"
  "quiet is \<Longrightarrow> session_wait d s cid is st = (st', effs, r) \<Longrightarrow> st' = st \<and> filter is_paired effs = []"
proof (induction d s cid f i "is" st and d s cid "is" st arbitrary: st' effs r and st' effs r
    rule: session_loop_session_wait.induct)
  case (1 d s cid f i "is" st)
  obtain s1 acts where f: "Session_on_frame d (Session_set_paused s (AgentState_is_paused st)) f (in_now i) (in_rnd i) = (s1, acts)"
    by fastforce
  obtain s2 cid2 effs1 r1 where a: "session_actions d i st s1 cid acts = (s2, cid2, effs1, r1)"
    by (metis prod_cases4)
  note n = session_actions_no_pairing [OF a]
  show ?case
  proof (cases r1)
    case (Some r2)
    then show ?thesis using 1(3) f a n by simp
  next
    case None
    obtain effs2 where w: "session_wait d s2 cid2 is st = (st', effs2, r)" "effs = effs1 @ effs2"
      using 1(3) f a None by (auto split: prod.splits)
    show ?thesis using 1(1) [OF f [symmetric] a [symmetric] refl refl None 1(2) w(1)] n w(2) by simp
  qed
next
  case (2 d s cid st)
  then show ?case by (auto simp: disconnect_def split: option.splits)
next
  case (3 d s cid i "is" st)
  then show ?case
    by (cases "in_next i") (auto simp: quiet_def disconnect_def split: option.splits)
qed

text \<open>
  C25: A connection closes the pairing window exactly when it pairs a device, and then the
  device's record is among the peers; any other connection, a failed pairing attempt with the
  window's own token included, leaves the window and the peers as they were. So the token of
  an open window can be tried on any number of connections.
\<close>

theorem window_closes_only_on_pairing:
  assumes "quiet is" and "handle_connection d w is st = (st', effs, r)"
  shows "filter is_paired effs = [] \<and> ag_pairing st' = ag_pairing st \<and> ag_peers st' = ag_peers st \<or>
     (\<exists>record. filter is_paired effs = [Event (Paired record)] \<and> ag_pairing st \<noteq> None \<and>
        ag_pairing st' = None \<and> record_for (ag_peers st') (pr_device_id record) = Some record)"
proof (cases "is")
  case Nil
  then show ?thesis using assms by (simp add: handle_connection_def)
next
  case (Cons i rest)
  have q: "quiet rest" "in_update i st = st" using assms(1) Cons by (simp_all add: quiet_def)
  consider (pair) f where "run_pairing d w f i rest st = (st', effs, r)"
    | (sess) f where "run_session d f i rest st = (st', effs, r)" | (none) "st' = st" "effs = []"
    using assms(2) q Cons by (auto simp: handle_connection_def split: wire_next.splits FrameType.splits)
  then show ?thesis
  proof cases
    case pair
    then show ?thesis
      using pairing_task_window(1) [OF q(1)]
      by (fastforce simp: run_pairing_def window_ok_def simp del: pairing_loop.simps split: option.splits)
  next
    case sess
    then show ?thesis
      using session_task_state(1) [OF q(1)] by (fastforce simp: run_session_def Let_def simp del: session_loop.simps)
  qed simp
qed

definition demo_offer :: PairingOffer where
  "demo_offer = \<lparr> offer_token = replicate 16 7, offer_issued_ms = 1000, offer_hosts = [lit ''10.0.0.2:47800''] \<rparr>"

definition demo_agent :: AgentState where
  "demo_agent = (AgentState_new (demo_id 2) (lit ''PC'') Map.empty [])\<lparr> ag_pairing := Some demo_offer \<rparr>"

definition plain_input :: "wire_next \<Rightarrow> u64 \<Rightarrow> bytes option \<Rightarrow> script" where
  "plain_input n now rnd = \<lparr> in_next = n, in_now = now, in_rnd = rnd, in_send_err = None,
     in_io = no_faults, in_update = id \<rparr>"

definition demo_bad_pairing :: "script list" where
  "demo_bad_pairing = [plain_input (NextFrame (Frame_new PairReq [])) 2000 None]"

theorem window_closes_only_on_pairing_witness:
  "ag_pairing demo_agent = Some demo_offer \<and>
   (case handle_connection demo_deps demo_platform demo_bad_pairing demo_agent of (st', effs, r) \<Rightarrow>
      effs = [Event (PairingFailed (lit ''malformed PAIR_REQ''))] \<and> ag_pairing st' = Some demo_offer)"
proof -
  let ?c = "handle_connection demo_deps demo_platform demo_bad_pairing demo_agent"
  have e: "fst (snd ?c) = [Event (PairingFailed (lit ''malformed PAIR_REQ''))]"
    by code_simp
  have "quiet demo_bad_pairing" by (simp add: quiet_def demo_bad_pairing_def plain_input_def)
  from window_closes_only_on_pairing [OF this, of demo_deps demo_platform demo_agent "fst ?c" "fst (snd ?c)" "snd (snd ?c)"]
  show ?thesis using e by (auto simp: demo_agent_def)
qed

section \<open>Memory and disk\<close>

text \<open>The files hold exactly what the agent has in memory: its identity and its peers.\<close>

definition durable :: "deps \<Rightarrow> platform \<Rightarrow> AgentState \<Rightarrow> bool" where
  "durable d w st \<longleftrightarrow>
     load_pairings w no_faults (ag_files st) = Inr (ag_peers st) \<and>
     (\<exists>s seed. ag_files st IDENTITY_FILE = Some s \<and> crypt_unprotect w s = Inr seed \<and> length seed = 32 \<and>
        ag_identity st = IdentityKeypair_from_seed d seed)"

lemma save_with_faults:
  assumes "platform_ok w" "save_pairings w io fs rs = (fs', r)"
  shows "fs' IDENTITY_FILE = fs IDENTITY_FILE \<and>
    load_pairings w no_faults fs' = (if is_ok r then Inr rs else load_pairings w no_faults fs)"
proof -
  obtain b where b: "json_to_vec w rs = Inr b" "json_from_slice w b = Inr rs"
    using assms by (auto simp: platform_ok_def json_faithful_def)
  obtain s where "crypt_protect w b = Inr s" "s \<noteq> []" "crypt_unprotect w s = Inr b"
    using assms by (auto simp: platform_ok_def dpapi_faithful_def)
  then show ?thesis
    using assms(2) b tmp_names [symmetric]
    by (auto simp: save_pairings_def seal_def unseal_def protect_def unprotect_def write_atomic_def
        no_faults_def load_pairings_def fs_read_def context_r_def Let_def split: option.splits)
qed

lemma upsert_durable:
  assumes "platform_ok w" "durable d w st"
  shows "upsert_pairing w io (ag_files st) r = (fs', Inl e) \<Longrightarrow> durable d w (st\<lparr> ag_files := fs' \<rparr>)"
    and "upsert_pairing w io (ag_files st) r = (fs', Inr all) \<Longrightarrow>
      durable d w (st\<lparr> ag_files := fs', ag_peers := all, ag_pairing := p \<rparr>)"
  using assms(2)
  by (auto simp: upsert_pairing_def durable_def Let_def split: prod.splits sum.splits
      dest!: save_with_faults [OF assms(1)])

text \<open>
  An invariant of the shared state: what the tasks themselves change (the files and peers after a
  pairing) keeps it. Then every connection keeps it, as long as the other tasks do.
\<close>

definition steady :: "(AgentState \<Rightarrow> bool) \<Rightarrow> script list \<Rightarrow> bool" where
  "steady P is \<longleftrightarrow> (\<forall>i \<in> set is. \<forall>st. P st \<longrightarrow> P (in_update i st))"

lemma steady_Cons: "steady P (i # is) \<Longrightarrow> P st \<Longrightarrow> P (in_update i st) \<and> steady P is"
  by (simp add: steady_def)

locale shared_invariant =
  fixes w :: platform and P :: "AgentState \<Rightarrow> bool"
  assumes failed_upsert: "P st \<Longrightarrow> upsert_pairing w io (ag_files st) r = (fs, Inl e) \<Longrightarrow> P (st\<lparr> ag_files := fs \<rparr>)"
    and done_upsert: "P st \<Longrightarrow> upsert_pairing w io (ag_files st) r = (fs, Inr all) \<Longrightarrow>
      P (st\<lparr> ag_files := fs, ag_peers := all, ag_pairing := None \<rparr>)"
begin

lemma actions_keep:
  "P st \<Longrightarrow> pairing_actions w i st acts = (st', effs, r) \<Longrightarrow> P st'"
proof (induction acts arbitrary: st st' effs r)
  case (Cons a acts)
  obtain st1 effs1 r1 where t: "pairing_actions w i st acts = (st1, effs1, r1)" by (metis prod_cases3)
  show ?case
    using Cons.prems Cons.IH [OF Cons.prems(1) t] failed_upsert [OF Cons.prems(1)] done_upsert [OF Cons.prems(1)]
    by (cases a) (auto simp: t split: sum.splits prod.splits)
qed simp

lemma pairing_keeps:
  "w' = w \<Longrightarrow> steady P is \<Longrightarrow> P st \<Longrightarrow> P (fst (pairing_loop d w' fsm f i is st))"
  "w' = w \<Longrightarrow> steady P is \<Longrightarrow> P st \<Longrightarrow> P (fst (pairing_wait d w' fsm is st))"
proof (induction d w' fsm f i "is" st and d w' fsm "is" st rule: pairing_loop_pairing_wait.induct)
  case (1 d w' fsm f i "is" st)
  obtain fsm1 acts where f: "PcPairing_on_frame d fsm f (in_now i) (in_rnd i) = (fsm1, acts)" by fastforce
  obtain st1 effs1 r1 where a: "pairing_actions w' i st acts = (st1, effs1, r1)" by (metis prod_cases3)
  have "P st1" using actions_keep [OF 1(4)] a 1(2) by simp
  then show ?case
    using 1(1) [OF f [symmetric] a [symmetric] refl _ 1(2,3)] f a
    by (cases r1) (simp_all add: case_prod_unfold)
next
  case (3 d w' fsm i "is" st)
  note u = steady_Cons [OF 3(4,5)]
  show ?case
    using 3(1) [OF _ 3(3)] 3(2) [OF _ 3(3)] u by (cases "in_next i") (simp_all del: pairing_loop.simps)
qed simp

lemma session_keeps:
  "steady P is \<Longrightarrow> P st \<Longrightarrow> P (fst (session_loop d s cid f i is st))"
  "steady P is \<Longrightarrow> P st \<Longrightarrow> P (fst (session_wait d s cid is st))"
proof (induction d s cid f i "is" st and d s cid "is" st rule: session_loop_session_wait.induct)
  case (1 d s cid f i "is" st)
  obtain s1 acts where f: "Session_on_frame d (Session_set_paused s (AgentState_is_paused st)) f (in_now i) (in_rnd i) = (s1, acts)"
    by fastforce
  obtain s2 cid2 effs1 r1 where a: "session_actions d i st s1 cid acts = (s2, cid2, effs1, r1)"
    by (metis prod_cases4)
  show ?case
    using 1(1) [OF f [symmetric] a [symmetric] refl refl _ 1(2,3)] f a 1(3)
    by (cases r1) (simp_all add: case_prod_unfold)
next
  case (3 d s cid i "is" st)
  note u = steady_Cons [OF 3(2,3)]
  show ?case using 3(1) u by (cases "in_next i") (simp_all del: session_loop.simps)
qed simp

lemma connection_keeps:
  assumes "steady P is" "P st"
  shows "P (fst (handle_connection d w is st))"
proof (cases "is")
  case (Cons i rest)
  note u = steady_Cons [OF assms [unfolded Cons]]
  then show ?thesis
    using pairing_keeps(1) [OF refl] session_keeps(1) Cons
    by (auto simp: handle_connection_def run_pairing_def run_session_def Let_def
        simp del: pairing_loop.simps session_loop.simps
        split: wire_next.split FrameType.split option.split)
qed (simp add: handle_connection_def assms(2))

end

text \<open>Agreement of memory and disk is such an invariant.\<close>

interpretation disk: shared_invariant w "\<lambda>st. platform_ok w \<and> durable d w st" for d w
  by unfold_locales (auto intro: upsert_durable)

end
