(* ===== verification/ClientFacts.thy ===== *)
theory ClientFacts
  imports Client
begin

text \<open>
  What the phone's driver guarantees: a clip is reported as sent only on an acknowledgement that
  the channel authenticated, pairing stops at the comparison with nothing confirmed, every
  address is tried, and an operation asks for nothing else.
\<close>

section \<open>The reply loop\<close>

lemma reply_loop_decided:
  assumes "reply_loop d look s is = (s', Inr v)"
  shows "\<exists>pre i post s0 f acts. is = pre @ i # post \<and> ci_next i = NextFrame f \<and>
    (session_move d)\<^sup>*\<^sup>* s s0 \<and> Session_on_frame d s0 f (ci_now i) (ci_rnd i) = (s', acts) \<and>
    look acts = Some (Inr v)"
  using assms
proof (induction "is" arbitrary: s)
  case (Cons i "is")
  obtain f where f: "ci_next i = NextFrame f"
    using Cons.prems by (cases "ci_next i") (simp_all add: recv_frame_def)
  obtain s1 acts where o: "Session_on_frame d s f (ci_now i) (ci_rnd i) = (s1, acts)" by fastforce
  show ?case
  proof (cases "look acts")
    case None
    then have "reply_loop d look s1 is = (s', Inr v)" using Cons.prems f o by (simp add: recv_frame_def)
    from Cons.IH [OF this] obtain pre j post s0 g acts' where r:
      "is = pre @ j # post" "ci_next j = NextFrame g" "(session_move d)\<^sup>*\<^sup>* s1 s0"
      "Session_on_frame d s0 g (ci_now j) (ci_rnd j) = (s', acts')" "look acts' = Some (Inr v)"
      by blast
    have "session_move d s s1" using session_move.receive [of d s f "ci_now i" "ci_rnd i"] o by simp
    then have "(session_move d)\<^sup>*\<^sup>* s s0" using r(3) by (rule converse_rtranclp_into_rtranclp)
    then show ?thesis using r by (intro exI [of _ "i # pre"]) auto
  next
    case (Some r)
    then show ?thesis using Cons.prems f o by (intro exI [of _ "[]"]) (auto simp: recv_frame_def)
  qed
qed simp

lemma beam_look_sent:
  "beam_look clip_id acts = Some (Inr v) \<Longrightarrow> v = clip_id \<and> Emit (ClipAcked clip_id 0) \<in> set acts"
  by (induction clip_id acts rule: beam_look.induct) (auto split: if_splits)

section \<open>Where an acknowledgement comes from\<close>

definition is_ack :: "SessionAction \<Rightarrow> bool" where
  "is_ack a \<longleftrightarrow> (\<exists>i st. a = Emit (ClipAcked i st))"

lemma no_ack_fail [simp]: "list_all (Not \<circ> is_ack) (snd (Session_fail s why))"
  by (simp add: is_ack_def)

lemma no_ack_wire_error [simp]: "list_all (Not \<circ> is_ack) (snd (Session_wire_error d s c msg))"
  by (auto simp: Session_wire_error_def is_ack_def Let_def split: option.splits prod.splits sum.splits)

lemma no_acks:
  "list_all (Not \<circ> is_ack) (snd (on_clip_push d s m))"
  "list_all (Not \<circ> is_ack) (snd (on_stage_get d s m))"
  "list_all (Not \<circ> is_ack) (snd (on_stage_list d s m))"
  "list_all (Not \<circ> is_ack) (snd (on_stage_item d s m))"
  "list_all (Not \<circ> is_ack) (snd (on_error d s m))"
  by (auto simp: on_clip_push_def on_stage_get_def on_stage_list_def on_stage_item_def on_error_def
      is_ack_def Let_def case_prod_unfold split: sum.split option.split prod.split)

lemma dispatch_no_ack: "ty \<noteq> ClipAck \<Longrightarrow> list_all (Not \<circ> is_ack) (snd (dispatch d ty s m))"
  by (cases ty) (auto simp: dispatch_def no_acks is_ack_def split: prod.split sum.split)

text \<open>
  The frame is an acknowledgement that opens under the session's channel and names the clip. Its
  status, when the field is there and is an unsigned integer, is zero in its low byte; without a
  readable status the frame counts as well, as in \<^const>\<open>on_clip_ack\<close>.
\<close>

definition authentic_ack :: "deps \<Rightarrow> Session \<Rightarrow> Frame \<Rightarrow> bytes \<Rightarrow> bool" where
  "authentic_ack d s f clip_id \<longleftrightarrow> sess_state s = Established \<and> frame_ty f = ClipAck \<and>
     (\<exists>ch ch' m r. channel s = Some ch \<and> AeadChannel_open d ch ClipAck (frame_payload f) = (ch', Inr m) \<and>
        MapReader_from_slice d m = Inr r \<and> MapReader_byte_array 8 r (key ACK_CLIP_ID) = Inr clip_id \<and>
        (case MapReader_u64 r (key ACK_STATUS) of Inl e \<Rightarrow> True | Inr st \<Rightarrow> ucast st = (0 :: u8)))"

lemma acked_is_authentic:
  assumes "Session_on_frame d s f now rnd = (s', acts)" "Emit (ClipAcked i 0) \<in> set acts" "session_inv s"
  shows "authentic_ack d s f i"
proof -
  obtain ch ch' m where c: "sess_state s = Established" "channel s = Some ch"
    "AeadChannel_open d ch (frame_ty f) (frame_payload f) = (ch', Inr m)"
    "Session_on_frame d s f now rnd =
       dispatch d (frame_ty f) (s\<lparr> last_activity_ms := now, channel := Some ch' \<rparr>) m"
    by (rule emitted_by_dispatch [of "ClipAcked i 0" d s f now rnd]) (use assms in auto)
  have "acts = snd (dispatch d (frame_ty f) (s\<lparr> last_activity_ms := now, channel := Some ch' \<rparr>) m)"
    using c(4) assms(1) by (metis snd_conv)
  then have "frame_ty f = ClipAck"
    using dispatch_no_ack [of "frame_ty f" d "s\<lparr> last_activity_ms := now, channel := Some ch' \<rparr>" m]
      assms(2) by (auto simp: list_all_iff is_ack_def)
  then show ?thesis
    using c assms(1,2)
    by (auto simp: authentic_ack_def dispatch_def on_clip_ack_def Session_fail_def simp del: key.simps split: sum.splits)
qed

text \<open>
  C23: A beam is reported as sent only once the PC has confirmed it. If beaming over a
  connection returns a clip identifier, the body is within the cap, exactly one frame was
  written, the push that carries that identifier, and one of the frames received afterwards is
  an acknowledgement which the session's channel authenticated at that point and which names
  that identifier. Its status is zero modulo 256, or it has no status that reads as an unsigned
  integer: the code takes a missing or mistyped status for success, where the protocol's
  acknowledgement always carries one.
\<close>

theorem beam_sent_means_acknowledged:
  assumes inv: "session_inv (cn_session c)"
    and sent: "Connection_beam d c ct body name now rnd err is = (c', Inr clip_id)"
  shows "length body \<le> MAX_TEXT_CLIP \<and>
    (\<exists>s1 push pre i post s0 f.
       Session_push_clip d (cn_session c) ct body name now rnd = (s1, Inr (push, clip_id)) \<and>
       cn_wire c' = cn_wire c @ [push] \<and>
       is = pre @ i # post \<and> ci_next i = NextFrame f \<and>
       (session_move d)\<^sup>*\<^sup>* s1 s0 \<and> authentic_ack d s0 f clip_id)"
proof -
  have len: "length body \<le> MAX_TEXT_CLIP" using sent by (auto simp: Connection_beam_def split: if_splits)
  obtain s1 push cid where p: "Session_push_clip d (cn_session c) ct body name now rnd = (s1, Inr (push, cid))"
    using sent len by (auto simp: Connection_beam_def split: prod.splits sum.splits if_splits)
  have w: "send_and_wait d (beam_look cid) c err s1 push is = (c', Inr clip_id)"
    using sent len p by (simp add: Connection_beam_def)
  obtain s' where r: "reply_loop d (beam_look cid) s1 is = (s', Inr clip_id)" "cn_wire c' = cn_wire c @ [push]"
    using w by (auto simp: send_and_wait_def split: sum.splits prod.splits)
  obtain pre i post s0 f acts where l: "is = pre @ i # post" "ci_next i = NextFrame f"
    "(session_move d)\<^sup>*\<^sup>* s1 s0" "Session_on_frame d s0 f (ci_now i) (ci_rnd i) = (s', acts)"
    "beam_look cid acts = Some (Inr clip_id)"
    using reply_loop_decided [OF r(1)] by blast
  have k: "clip_id = cid" "Emit (ClipAcked cid 0) \<in> set acts" using beam_look_sent [OF l(5)] by simp_all
  obtain m where "Session_seal_frame d (cn_session c) ClipPush m = (s1, Inr push)"
    using p by (auto simp: Session_push_clip_def Session_push_clip_with_id_def
        split: if_splits option.splits sum.splits prod.splits)
  then have "session_inv s1" using move_inv [OF session_move.send inv, of d ClipPush m] by simp
  then have "authentic_ack d s0 f clip_id"
    using acked_is_authentic [OF l(4)] k moves_inv [OF l(3)] by simp
  then show ?thesis using len p r(2) l k by blast
qed

text \<open>An operation whose first reply decides it.\<close>

lemma send_and_wait_first:
  assumes "frame_fits frame" "Session_on_frame d s f now rnd = (s', acts)" "look acts = Some r"
  shows "send_and_wait d look c None s frame [\<lparr> ci_next = NextFrame f, ci_now = now, ci_rnd = rnd \<rparr>] =
    (c\<lparr> cn_wire := cn_wire c @ [frame], cn_session := s' \<rparr>, r)"
proof -
  have "wire_send None frame = Inr ()" using assms(1) by (simp add: wire_send_ok frame_fits_def)
  then show ?thesis using assms by (simp add: send_and_wait_def send_frame_def recv_frame_def)
qed

lemma beam_acknowledged:
  assumes "Session_push_clip d (cn_session c) ct body name t rnd = (s1, Inr (push, clip_id))"
    "frame_fits push" "Session_on_frame d s1 ack now r = (s2, [Emit (ClipAcked clip_id 0)])"
    "length body \<le> MAX_TEXT_CLIP"
  shows "Connection_beam d c ct body name t rnd None [\<lparr> ci_next = NextFrame ack, ci_now = now, ci_rnd = r \<rparr>] =
    (c\<lparr> cn_wire := cn_wire c @ [push], cn_session := s2 \<rparr>, Inr clip_id)"
  using assms send_and_wait_first [OF assms(2,3), of "beam_look clip_id"]
  by (simp add: Connection_beam_def not_less)

definition demo_connection :: Connection where
  "demo_connection = \<lparr> cn_wire = [], cn_session = demo_phone_end, cn_op_timeout = 2000 \<rparr>"

theorem beam_sent_means_acknowledged_witness:
  "\<exists>is c' i s0 f. Connection_beam demo_deps demo_connection Text [72, 105] (lit ''iPhone'') 7
      (Some (replicate 8 9)) None is = (c', Inr (replicate 8 9)) \<and> i \<in> set is \<and> ci_next i = NextFrame f \<and>
    authentic_ack demo_deps s0 f (replicate 8 9)"
proof -
  have name: "valid_str (lit ''iPhone'')" "str_len (lit ''iPhone'') \<le> MAX_TEXT_CLIP"
    by (simp_all add: MAX_TEXT_CLIP_def valid_str_def valid_char_def lit_def str_len_def as_bytes_def utf8_char_def)
  have len: "length ([72, 105] :: bytes) \<le> MAX_TEXT_CLIP" "length (replicate 8 (9 :: byte)) = 8"
    by (simp_all add: MAX_TEXT_CLIP_def)
  obtain ph1 push ack ph2 where c:
    "Session_push_clip demo_deps demo_phone_end Text [72, 105] (lit ''iPhone'') 7 (Some (replicate 8 9)) =
       (ph1, Inr (push, replicate 8 9))" "frame_fits push"
    "Session_on_frame demo_deps ph1 ack 9 None = (ph2, [Emit (ClipAcked (replicate 8 9) 0)])"
    using clip_ends [OF demo_deps_ok demo_paired demo_ends(1) demo_room len(2,1) name, of Text 7 8 None 9 None]
    by blast
  let ?is = "[\<lparr> ci_next = NextFrame ack, ci_now = 9, ci_rnd = None \<rparr>]"
  have "session_inv (cn_session demo_connection)"
    by (simp add: demo_connection_def demo_phone_end_def session_inv_def phone_waiting_def)
  moreover obtain c' where "Connection_beam demo_deps demo_connection Text [72, 105] (lit ''iPhone'') 7
      (Some (replicate 8 9)) None ?is = (c', Inr (replicate 8 9))"
    using beam_acknowledged [of demo_deps demo_connection, OF _ c(2,3) len(1)] c(1)
    by (simp add: demo_connection_def)
  ultimately show ?thesis
    using beam_sent_means_acknowledged [of demo_connection demo_deps Text "[72, 105]" "lit ''iPhone''" 7
        "Some (replicate 8 9)" None ?is c' "replicate 8 9"] by fastforce
qed

text \<open>
  Pairing on the phone stops at the comparison. Whatever the peer answers, starting to
  pair writes nothing but one request; and if it leaves a pairing pending, an advertised
  address was connected to, the answer was an acknowledgement, and what is pending shows the
  comparison derived from it, holds an unsent confirmation, and would record exactly the
  device and key of the scanned code.
\<close>

theorem begin_pairing_stops_at_comparison:
  "case begin_pairing d dbg me name qr x of (frames, r) \<Rightarrow>
     (frames = [] \<or> (\<exists>req. frames = [req] \<and> frame_ty req = PairReq)) \<and>
     (case r of
        Inl e \<Rightarrow> True
      | Inr p \<Rightarrow>
          (\<exists>a ack inp confirm. dial (resolve_hosts (qr_hosts qr)) (ex_dial x) = Inr a \<and>
             ex_reply x = NextFrame ack \<and> frame_ty ack = PairAck \<and>
             p = \<lparr> pp_record = PairingRecord_new d (qr_device_id qr) (qr_public_key qr) (qr_display_name qr) (ex_reply_ms x),
                   pp_sas = sas_emoji (sas_digest d inp), pp_confirm_frame = Some confirm \<rparr> \<and>
             confirm \<notin> set frames))"
proof -
  have req: "frame_ty req = PairReq \<and> php_qr fsm = qr"
    if "PhonePairing_start d me name qr rnd = Inr (fsm, req)" for rnd fsm req
    using that by (auto simp: PhonePairing_start_def PhonePairing_start_with_ephemeral_def
        try_r_eq_Inr Frame_new_def)
  have shown: "\<exists>inp f. p = \<lparr> pp_record = PairingRecord_new d (qr_device_id (php_qr fsm)) (qr_public_key (php_qr fsm))
        (qr_display_name (php_qr fsm)) now, pp_sas = sas_emoji (sas_digest d inp), pp_confirm_frame = Some f \<rparr> \<and>
      frame_ty f = PairConfirm"
    if r: "pairing_shown d dbg fsm ack now = Inr p" for fsm ack now p
  proof (cases rule: phone_on_frame_cases [where d = d and p = fsm and f = ack])
    case (failed msg)
    then show ?thesis using r by (simp add: pairing_shown_def)
  next
    case (shown inp)
    let ?p = "fsm\<lparr> php_sas_input := Some inp, php_state := AwaitingUserConfirm \<rparr>"
    show ?thesis
      using r shown
      by (cases rule: confirm_sas_cases [where d = d and p = ?p and now = now])
        (auto simp: pairing_shown_def confirm_sas_def Let_def Frame_new_def split: sum.splits)
  qed
  show ?thesis
  proof (cases "\<exists>a fsm req u. dial (resolve_hosts (qr_hosts qr)) (ex_dial x) = Inr a \<and>
      PhonePairing_start d me name qr (ex_rnd x) = Inr (fsm, req) \<and> send_frame (ex_send_err x) req = Inr u")
    case False
    then have "fst (begin_pairing d dbg me name qr x) = []" "\<nexists>p. snd (begin_pairing d dbg me name qr x) = Inr p"
      by (auto simp: begin_pairing_def from_core_def split: sum.splits)
    then show ?thesis by (auto split: prod.split sum.split)
  next
    case True
    then obtain a fsm req where t: "dial (resolve_hosts (qr_hosts qr)) (ex_dial x) = Inr a"
      "PhonePairing_start d me name qr (ex_rnd x) = Inr (fsm, req)" "send_frame (ex_send_err x) req = Inr ()"
      by auto
    note q = req [OF t(2)]
    show ?thesis
    proof (cases "\<exists>ack. ex_reply x = NextFrame ack \<and> frame_ty ack = PairAck")
      case False
      then show ?thesis using t q
        by (auto simp: begin_pairing_def from_core_def recv_frame_def split: wire_next.split)
    next
      case True
      then obtain ack where k: "ex_reply x = NextFrame ack" "frame_ty ack = PairAck" by blast
      have b: "begin_pairing d dbg me name qr x = ([req], pairing_shown d dbg fsm ack (ex_reply_ms x))"
        using t k by (simp add: begin_pairing_def from_core_def recv_frame_def)
      show ?thesis
      proof (cases "pairing_shown d dbg fsm ack (ex_reply_ms x)")
        case (Inl e)
        then show ?thesis using b q by simp
      next
        case (Inr p)
        from shown [OF Inr] q t(1) k b Inr show ?thesis by auto
      qed
    qed
  qed
qed

end
