(* ===== verification/AgentFacts.thy ===== *)
theory AgentFacts
  imports Agent ServerFacts ClientFacts
begin

text \<open>
  What the agent around the server does: a scanned code leads the phone to the PC's addresses
  with the token of the open window, and a beamed clip is staged again as if it had been
  copied on the PC.
\<close>

section \<open>Advertised hosts\<close>

definition usable :: "Interface \<Rightarrow> bool" where
  "usable i \<longleftrightarrow> \<not> if_loopback i \<and> (case if_ip i of V4 bs \<Rightarrow> \<not> is_link_local bs | V6 ss \<Rightarrow> True)"

fun is_v4 :: "IpAddr \<Rightarrow> bool" where
  "is_v4 (V4 bs) = True"
| "is_v4 (V6 ss) = False"

text \<open>The addresses that can reach the PC, IPv4 first.\<close>

definition advertised :: "Interface list \<Rightarrow> u16 \<Rightarrow> SocketAddr list" where
  "advertised is port =
     (let ips = map if_ip (filter usable is)
      in map (\<lambda>a. (a, port)) (filter is_v4 ips @ filter (Not \<circ> is_v4) ips))"

definition host_text :: "SocketAddr \<Rightarrow> rstr" where
  "host_text a =
     (case fst a of V4 bs \<Rightarrow> IpAddr_to_string (fst a) | V6 ss \<Rightarrow> 91 # IpAddr_to_string (fst a) @ [93]) @
     58 # show_nat (unat (snd a))"

lemma local_hosts_loop_shape:
  "local_hosts_loop port is v4 v6 =
    (v4 @ map (\<lambda>a. host_text (a, port)) (filter is_v4 (map if_ip (filter usable is))),
     v6 @ map (\<lambda>a. host_text (a, port)) (filter (Not \<circ> is_v4) (map if_ip (filter usable is))))"
  by (induction "is" arbitrary: v4 v6) (auto simp: usable_def host_text_def lit_def split: IpAddr.splits)

lemma local_hosts_text: "local_hosts (Some is) port = map host_text (advertised is port)"
  by (simp add: local_hosts_def local_hosts_loop_shape advertised_def Let_def comp_def)

lemma map_filter_parse:
  "\<forall>a \<in> set as. SocketAddr_parse (host_text a) = Some a \<Longrightarrow> List.map_filter SocketAddr_parse (map host_text as) = as"
  by (induction as) (simp_all add: List.map_filter_simps)

lemma hosts_resolve:
  assumes "\<forall>i \<in> set is. ip_wf (if_ip i)"
  shows "resolve_hosts (map host_text (advertised is port)) = advertised is port"
proof -
  have "SocketAddr_parse (host_text a) = Some a" if "a \<in> set (advertised is port)" for a
  proof -
    have "ip_wf (fst a)" using that assms by (auto simp: advertised_def Let_def)
    from socket_addr_read [OF this, of "snd a"] show ?thesis by (simp add: host_text_def)
  qed
  then show ?thesis by (simp add: resolve_hosts_def map_filter_parse)
qed

text \<open>The characters of a host: digits, letters and punctuation, no comma.\<close>

definition host_char :: "rchar \<Rightarrow> bool" where
  "host_char c \<longleftrightarrow> 46 \<le> c \<and> c \<le> 122"

lemma host_char_show:
  "list_all host_char (show_nat n)" "list_all host_char (show_hex n)"
proof -
  show "list_all host_char (show_nat n)"
    using show_nat_digits [of n] by (auto simp: list_all_iff is_digit_def host_char_def)
  show "list_all host_char (show_hex n)"
  proof (induction n rule: show_hex.induct)
    case (1 n)
    have "host_char (hex_digit m)" if "m < 16" for m using that by (simp add: host_char_def hex_digit_def)
    then show ?case using 1 by (subst show_hex.simps) auto
  qed
qed

lemma host_char_join:
  "host_char c \<Longrightarrow> list_all (list_all host_char) ws \<Longrightarrow> list_all host_char (join_with c ws)"
  by (induction c ws rule: join_with.induct) simp_all

lemma host_char_ip: "list_all host_char (IpAddr_to_string a)"
proof -
  have o: "list_all host_char (show_octets bs)" for bs
    unfolding show_octets_def by (rule host_char_join) (simp_all add: host_char_def list_all_iff [of _ "map _ _"] host_char_show)
  have s: "list_all host_char (show_segments ss)" for ss
    unfolding show_segments_def by (rule host_char_join) (simp_all add: host_char_def list_all_iff [of _ "map _ _"] host_char_show)
  show ?thesis
    by (cases a) (simp_all add: IpAddr_to_string_def show_v6_def o s case_prod_unfold Let_def lit_def host_char_def)
qed

lemma host_text_ok: "host_text a \<noteq> [] \<and> 44 \<notin> set (host_text a) \<and> valid_str (host_text a)"
proof -
  have "list_all host_char (host_text a)"
    using host_char_ip [of "fst a"] host_char_show(1)
    by (auto simp: host_text_def host_char_def split: IpAddr.split)
  moreover have "44 \<notin> set s \<and> valid_str s" if "list_all host_char s" for s
    using that by (induction s) (auto simp: host_char_def valid_char_def)
  moreover have "host_text a \<noteq> []" by (simp add: host_text_def)
  ultimately show ?thesis by blast
qed

text \<open>What the opened window shows, as the phone parses it.\<close>

lemma window_url:
  assumes d: "base64_faithful d" "hex_faithful d" "url_faithful d" "fixed_widths d"
    and st: "length (id_public (ag_identity st)) = 32" "valid_str (ag_display_name st)" and token: "length token = 16"
    and opened: "open_pairing_window d (Some is) (Some token) now st port = (st', Inr url)"
  shows "advertised is port \<noteq> []"
    "st' = st\<lparr> ag_pairing := Some \<lparr> offer_token = token, offer_issued_ms = now,
       offer_hosts = map host_text (advertised is port) \<rparr> \<rparr>"
    "QrPayload_parse d url = Inr (PcPairing_qr_payload d (PcPairing_with_token (ag_identity st) (ag_display_name st)
       (map host_text (advertised is port)) token now))"
proof -
  let ?qr = "PcPairing_qr_payload d (PcPairing_with_token (ag_identity st) (ag_display_name st)
       (map host_text (advertised is port)) token now)"
  show "advertised is port \<noteq> []"
    and "st' = st\<lparr> ag_pairing := Some \<lparr> offer_token = token, offer_issued_ms = now,
       offer_hosts = map host_text (advertised is port) \<rparr> \<rparr>"
    using opened by (auto simp: open_pairing_window_def Let_def local_hosts_text split: if_splits)
  have "url = QrPayload_to_url d ?qr"
    using opened
    by (auto simp: open_pairing_window_def Let_def local_hosts_text pairing_url_def PcPairing_qr_payload_def
        PcPairing_with_token_def split: if_splits)
  moreover have "qr_ok d ?qr"
    using st token host_text_ok
    by (auto simp: qr_ok_def IdentityKeypair_device_id_def IdentityKeypair_public_bytes_def PcPairing_qr_payload_def
        PcPairing_with_token_def)
  ultimately show "QrPayload_parse d url = Inr ?qr" using qr_roundtrip_lemma [OF d] by simp
qed

text \<open>
  C27: A scanned code leads the phone to the PC. When the agent opens a pairing window, the window
  holds a fresh token, and the URL it shows parses on the phone to the PC's own identifier, key
  and name and to that token; the hosts in it resolve to exactly the addresses of the usable
  interfaces with the port, IPv4 first, in interface order, and there is at least one.
\<close>

theorem scanned_code_leads_to_pc:
  assumes d: "base64_faithful d" "hex_faithful d" "url_faithful d" "fixed_widths d"
    and st: "length (id_public (ag_identity st)) = 32" "valid_str (ag_display_name st)"
    and ifaces: "\<forall>i \<in> set is. ip_wf (if_ip i)" and token: "length token = 16"
    and opened: "open_pairing_window d (Some is) (Some token) now st port = (st', Inr url)"
  shows "\<exists>qr offer. QrPayload_parse d url = Inr qr \<and>
    qr_device_id qr = IdentityKeypair_device_id d (ag_identity st) \<and>
    qr_public_key qr = id_public (ag_identity st) \<and> qr_display_name qr = ag_display_name st \<and>
    resolve_hosts (qr_hosts qr) = advertised is port \<and> advertised is port \<noteq> [] \<and>
    ag_pairing st' = Some offer \<and> offer_token offer = qr_pair_token qr \<and> offer_issued_ms offer = now \<and>
    qr_pair_token qr = token"
  using window_url [OF d st token opened] hosts_resolve [OF ifaces]
  by (simp add: PcPairing_qr_payload_def PcPairing_with_token_def IdentityKeypair_public_bytes_def)

definition demo_ifaces :: "Interface list" where
  "demo_ifaces =
     [\<lparr> if_loopback = True, if_ip = V4 [127, 0, 0, 1] \<rparr>,
      \<lparr> if_loopback = False, if_ip = V6 [0xfe80, 0, 0, 0, 0, 0, 0, 1] \<rparr>,
      \<lparr> if_loopback = False, if_ip = V4 [192, 168, 4, 20] \<rparr>]"

theorem scanned_code_leads_to_pc_witness:
  "\<exists>url qr. snd (open_pairing_window demo_deps (Some demo_ifaces) (Some (replicate 16 7)) 5 demo_agent 49517) = Inr url \<and>
    QrPayload_parse demo_deps url = Inr qr \<and> qr_pair_token qr = replicate 16 7 \<and>
    resolve_hosts (qr_hosts qr) =
      [(V4 [192, 168, 4, 20], 49517), (V6 [0xfe80, 0, 0, 0, 0, 0, 0, 1], 49517)]"
proof -
  let ?o = "open_pairing_window demo_deps (Some demo_ifaces) (Some (replicate 16 7)) 5 demo_agent 49517"
  have a: "advertised demo_ifaces 49517 =
      [(V4 [192, 168, 4, 20], 49517), (V6 [0xfe80, 0, 0, 0, 0, 0, 0, 1], 49517)]"
    by (simp add: advertised_def demo_ifaces_def usable_def is_link_local_def)
  obtain url where u: "snd ?o = Inr url"
    using a by (auto simp: open_pairing_window_def local_hosts_text Let_def)
  have w: "\<forall>i \<in> set demo_ifaces. ip_wf (if_ip i)" by (simp add: demo_ifaces_def ip_wf_def)
  have i: "length (id_public (ag_identity demo_agent)) = 32" "valid_str (ag_display_name demo_agent)"
    using deps_okD(2) [OF demo_deps_ok]
    by (simp_all add: demo_agent_def AgentState_new_def demo_id_def IdentityKeypair_from_seed_def fixed_widthsD
        valid_str_def lit_def valid_char_def)
  have "?o = (fst ?o, Inr url)" using u by (metis prod.collapse)
  from scanned_code_leads_to_pc [OF demo_text(2,1) demo_url deps_okD(2) [OF demo_deps_ok] i w _ this]
  show ?thesis using u a by auto
qed

section \<open>A beamed clip comes back\<close>

lemma newest_after_push:
  assumes "length body \<le> MAX_TEXT_CLIP"
  shows "StageRing_newest (fst (StageRing_push r ct body now (Some i))) =
    Some \<lparr> sc_stage_id = i, sc_content_type = ct, sc_body = body, sc_copied_at_ms = now \<rparr>"
  using assms
  by (simp add: StageRing_push_def StageRing_push_with_id_def StageRing_newest_def Let_def)

lemma write_went_through:
  assumes "set_text sys cb h t g = (cb', h', r)" "cb_seq cb' = cb_seq cb + 2" "cb_meanwhile sys = (\<lambda>cb. cb)"
  shows "r = Inr (cb_seq cb')"
proof -
  have "cb_seq cb + 1 \<noteq> cb_seq cb + 2" "cb_seq cb \<noteq> cb_seq cb + 2" by simp_all
  then show ?thesis
    using assms by (auto simp: set_text_def Let_def split: sum.splits option.splits if_splits)
qed

text \<open>
  C37: A clip beamed to the PC is staged as if it had been copied there. The event pump writes an
  arrived clip under a guard of its own, and the watcher looks at another one; so once the write
  went through, undisturbed by other programs, the watcher reports the same text as a local copy,
  and the ring's newest clip, which the phone is offered next, is the clip the phone has just sent.
\<close>

theorem beamed_clip_is_staged_again:
  assumes t: "valid_str t" "t \<noteq> []" "0 \<notin> set t" "length (as_bytes t) \<le> MAX_TEXT_CLIP"
    and guards: "watch \<noteq> fresh" "h watch \<noteq> cb_seq cb + 2"
    and event: "handle_agent_event sys tc cb h fresh (AgentClipArrived ct (as_bytes t) source) = (cb', h', toast)"
    and written: "cb_seq cb' = cb_seq cb + 2" "cb_meanwhile sys = (\<lambda>cb. cb)"
    and lock: "ClipboardLock_acquire (cb_open sys') = Inr ()" "cb_get_err sys' = None" "\<not> cb_lock_null sys'"
  shows "\<exists>ev. reader_round sys' cb' h' watch = Some ev \<and>
    StageRing_newest (ag_stage (stage_copied (Some i) now st ev)) =
      Some \<lparr> sc_stage_id = i, sc_content_type = classify t, sc_body = as_bytes t, sc_copied_at_ms = now \<rparr>"
proof -
  obtain r where w: "set_text sys cb (OwnWriteGuard_default h fresh) t fresh = (cb', h', r)"
    using event t(1) by (auto simp: handle_agent_event_def Let_def split: prod.splits)
  have r: "r = Inr (cb_seq cb')" by (rule write_went_through [OF w written])
  note res = set_text_result [OF w [unfolded r], unfolded written(2)]
  have nul: "takeWhile (\<lambda>c. c \<noteq> 0) t = t" using t(3) by (auto simp: takeWhile_eq_all_conv intro: gr0I)
  have "cb_units cb' = Some (to_wide t)" using res by simp
  then have "get_text sys' cb' = Inr (Some t)" using read_back [OF _ t(1) lock, of cb'] nul by simp
  then have "reader_round sys' cb' h' watch = Some \<lparr> ce_content_type = classify t, ce_body = as_bytes t \<rparr>"
    using res guards t(2)
    by (auto simp: reader_round_def OwnWriteGuard_is_own_def OwnWriteGuard_default_def)
  then show ?thesis
    using newest_after_push [OF t(4)] by (auto simp: stage_copied_def case_prod_unfold)
qed

theorem beamed_clip_is_staged_again_witness:
  "\<exists>ev. reader_round demo_calls
     (fst (handle_agent_event demo_calls demo_toasts demo_clipboard (\<lambda>_. 0) 1 (AgentClipArrived Text (as_bytes [72, 105]) [])))
     (fst (snd (handle_agent_event demo_calls demo_toasts demo_clipboard (\<lambda>_. 0) 1 (AgentClipArrived Text (as_bytes [72, 105]) []))))
     0 = Some ev \<and>
   StageRing_newest (ag_stage (stage_copied (Some (replicate 8 5)) 9 demo_agent ev)) =
     Some \<lparr> sc_stage_id = replicate 8 5, sc_content_type = classify [72, 105], sc_body = as_bytes [72, 105],
            sc_copied_at_ms = 9 \<rparr>"
proof -
  let ?e = "handle_agent_event demo_calls demo_toasts demo_clipboard (\<lambda>_. 0) 1 (AgentClipArrived Text (as_bytes [72, 105]) [])"
  have s: "cb_seq (fst ?e) = cb_seq demo_clipboard + 2"
    by (simp add: handle_agent_event_def demo_write Let_def valid_char_def) (simp add: demo_clipboard_def)
  have event: "?e = (fst ?e, fst (snd ?e), snd (snd ?e))" by simp
  have quiet: "cb_meanwhile demo_calls = (\<lambda>cb. cb)" by (simp add: demo_calls_def)
  from beamed_clip_is_staged_again [OF _ _ _ _ _ _ event s quiet demo_lock, of 0 "replicate 8 5" 9 demo_agent]
  show ?thesis
    by (simp add: valid_char_def as_bytes_def utf8_char_def MAX_TEXT_CLIP_def demo_clipboard_def)
qed

section \<open>Restarting the agent\<close>

lemma identity_durable:
  assumes "platform_ok w" "\<forall>seed. rnd = Some seed \<longrightarrow> length seed = 32"
    and "load_or_create_identity d w no_faults fs rnd = (fs', Inr k)"
  shows "fs' PAIRINGS_FILE = fs PAIRINGS_FILE \<and>
    (\<exists>s seed. fs' IDENTITY_FILE = Some s \<and> crypt_unprotect w s = Inr seed \<and> length seed = 32 \<and>
       k = IdentityKeypair_from_seed d seed)"
proof (cases "fs IDENTITY_FILE")
  case None
  obtain seed where seed: "rnd = Some seed" "length seed = 32"
    using assms(2,3) None
    by (cases rnd) (simp_all add: load_or_create_identity_def IdentityKeypair_generate_def)
  obtain s where s: "crypt_protect w seed = Inr s" "s \<noteq> []" "crypt_unprotect w s = Inr seed"
    using assms(1) by (auto simp: platform_ok_def dpapi_faithful_def)
  then show ?thesis
    using assms(3) None seed tmp_names [symmetric]
    by (auto simp: load_or_create_identity_def IdentityKeypair_generate_def IdentityKeypair_secret_bytes_def
        IdentityKeypair_from_seed_def seal_def protect_def write_atomic_def no_faults_def Let_def)
next
  case (Some s)
  then show ?thesis
    using assms(3)
    by (auto simp: load_or_create_identity_def fs_read_def no_faults_def unseal_def unprotect_def context_r_def
        split: sum.splits if_splits)
qed

lemma load_pairings_file:
  "fs PAIRINGS_FILE = fs' PAIRINGS_FILE \<Longrightarrow> load_pairings w no_faults fs = load_pairings w no_faults fs'"
  by (simp add: load_pairings_def fs_read_def no_faults_def)

lemma opened_window_fields:
  assumes "open_pairing_window d is rnd now st port = (st', r)"
  shows "ag_files st' = ag_files st \<and> ag_peers st' = ag_peers st \<and> ag_identity st' = ag_identity st"
  using assms by (auto simp: open_pairing_window_def Let_def split: option.splits if_splits)

lemma started_services:
  assumes "start_services d w su fs op = (fs', calls, Inr (st, view))"
  shows "load_or_create_identity d w (su_io su) fs (su_seed su) = (fs', Inr (ag_identity st)) \<and>
    ag_files st = fs' \<and> ag_peers st = unwrap_or (load_pairings w (su_io su) fs') []"
  using assms
  by (auto simp: start_services_def AgentState_new_def AgentState_set_listen_port_def Let_def
      split: option.splits prod.splits sum.splits if_splits dest!: opened_window_fields)

lemma services_durable:
  assumes "platform_ok w" "su_io su = no_faults" "\<forall>seed. su_seed su = Some seed \<longrightarrow> length seed = 32"
    and "readable w fs" "start_services d w su fs op = (fs', calls, Inr (st, view))"
  shows "durable d w st"
proof -
  note st = started_services [OF assms(5), unfolded assms(2)]
  note i = identity_durable [OF assms(1,3) st [THEN conjunct1]]
  have "load_pairings w no_faults fs' = load_pairings w no_faults fs" using i by (intro load_pairings_file) simp
  moreover obtain rs where "load_pairings w no_faults fs = Inr rs"
    using assms(4) by (cases "load_pairings w no_faults fs") (simp_all add: readable_def)
  ultimately show ?thesis using st i by (auto simp: durable_def)
qed

text \<open>
  Nothing is lost by restarting the agent. Start the services on a directory that is empty or
  readable, serve any connections with any frames, socket errors and file-system faults, and
  start the services again from the files left: the identity and the list of paired devices
  are exactly those the running agent had in memory.
\<close>

theorem restart_restores_agent:
  assumes "platform_ok w" "readable w fs"
    and "su_io su = no_faults" "\<forall>seed. su_seed su = Some seed \<longrightarrow> length seed = 32"
    and "su_io su' = no_faults"
    and "start_services d w su fs op = (fs0, calls, Inr (st0, view))"
    and "\<forall>is \<in> set conns. steady (durable d w) is"
    and "st = foldl (\<lambda>st is. fst (handle_connection d w is st)) st0 conns"
    and "start_services d w su' (ag_files st) op' = (fs1, calls', Inr (st1, view'))"
  shows "ag_identity st1 = ag_identity st \<and> ag_peers st1 = ag_peers st"
proof -
  have one: "durable d w (fst (handle_connection d w is s))" if "is \<in> set conns" "durable d w s" for s "is"
    using disk.connection_keeps [of w d "is" s d] assms(1,7) that
    by (auto simp: steady_def)
  then have run: "durable d w s \<Longrightarrow> durable d w (foldl (\<lambda>st is. fst (handle_connection d w is st)) s conns)" for s
    by (induction conns arbitrary: s) simp_all
  have dur: "durable d w st"
    unfolding assms(8) by (rule run [OF services_durable [OF assms(1,3,4,2,6)]])
  note st1 = started_services [OF assms(9), unfolded assms(5)]
  have "load_or_create_identity d w no_faults (ag_files st) (su_seed su') = (ag_files st, Inr (ag_identity st))"
    using dur by (auto simp: durable_def load_or_create_identity_def fs_read_def no_faults_def unseal_def
        unprotect_def context_r_def)
  then show ?thesis using st1 dur by (simp add: durable_def)
qed

definition demo_startup :: "bytes option \<Rightarrow> startup" where
  "demo_startup seed =
     \<lparr> su_localappdata = Some (lit ''C:/Users/me''), su_home = None, su_create_dir = (\<lambda>p. None), su_io = no_faults, su_seed = seed, su_computername = Some (lit ''PC''),
       su_hostname = None, su_default_err = None, su_ephemeral_err = None, su_local_port = Inr,
       su_mdns = None, su_info_new = Inr, su_register = None, su_ifaces = None, su_token = None,
       su_now = 0 \<rparr>"

definition demo_started :: AgentState where
  "demo_started =
     (case snd (snd (start_services demo_deps demo_platform (demo_startup (Some (replicate 32 5))) Map.empty False)) of
        Inr (st, view) \<Rightarrow> st | Inl e \<Rightarrow> demo_agent)"

definition demo_served :: AgentState where
  "demo_served = foldl (\<lambda>st is. fst (handle_connection demo_deps demo_platform is st)) demo_started [demo_bad_pairing]"

lemma demo_starts:
  "\<exists>fs calls st view. start_services demo_deps demo_platform (demo_startup (Some (replicate 32 5))) Map.empty False =
     (fs, calls, Inr (st, view))"
proof -
  have "is_ok (snd (snd (start_services demo_deps demo_platform (demo_startup (Some (replicate 32 5))) Map.empty False)))"
    by code_simp
  then show ?thesis by (metis is_ok_def prod.collapse sum.case(1) sumE)
qed

theorem restart_restores_agent_witness:
  "\<exists>fs1 calls st1 view. start_services demo_deps demo_platform (demo_startup None) (ag_files demo_served) False =
      (fs1, calls, Inr (st1, view)) \<and>
    ag_identity st1 = ag_identity demo_served \<and> ag_peers st1 = ag_peers demo_served"
proof -
  obtain fs0 calls0 st0 view0 where a: "start_services demo_deps demo_platform (demo_startup (Some (replicate 32 5))) Map.empty False =
      (fs0, calls0, Inr (st0, view0))"
    using demo_starts by blast
  have "is_ok (snd (snd (start_services demo_deps demo_platform (demo_startup None) (ag_files demo_served) False)))"
    by code_simp
  then obtain fs1 calls1 st1 view1 where b:
      "start_services demo_deps demo_platform (demo_startup None) (ag_files demo_served) False = (fs1, calls1, Inr (st1, view1))"
    by (metis is_ok_def prod.collapse sum.case(1) sumE)
  have st: "demo_served = foldl (\<lambda>st is. fst (handle_connection demo_deps demo_platform is st)) st0 [demo_bad_pairing]"
    using a by (simp add: demo_served_def demo_started_def)
  have q: "\<forall>is \<in> set [demo_bad_pairing]. steady (durable demo_deps demo_platform) is"
    by (simp add: steady_def demo_bad_pairing_def plain_input_def)
  show ?thesis
    using restart_restores_agent [OF demo_platform_ok demo_readable _ _ _ a q st b] b by (auto simp: demo_startup_def)
qed

section \<open>The menu and the agent\<close>

definition registry_works :: "reg_calls \<Rightarrow> bool" where
  "registry_works rc \<longleftrightarrow> rc_create rc = None \<and> (\<exists>exe. rc_exe rc = Inr (Some exe)) \<and> rc_set rc = None \<and> rc_remove rc = None"

lemma set_autostart_works:
  "registry_works rc \<Longrightarrow> \<exists>reg'. set_autostart rc reg on = (reg', Inr ()) \<and> (reg' AUTOSTART_VALUE \<noteq> None) = on"
  by (auto simp: registry_works_def set_autostart_def run_key_def)

text \<open>The clicks that count: those before the first on Quit.\<close>

definition before_quit :: "'id \<Rightarrow> 'id list \<Rightarrow> 'id list" where
  "before_quit quit es = takeWhile (\<lambda>e. e \<noteq> quit) es"

lemma menu_run:
  assumes ids: "distinct [pair, pause, autostart, quit]"
    and ins: "length (drain_menu pair pause autostart quit es p a) \<le> length ins"
      "\<forall>i \<in> set ins. registry_works (si_reg i)"
    and start: "ag_paused st = p" "(sh_registry sh AUTOSTART_VALUE \<noteq> None) = a"
    and run: "shell_loop d idle (zip (drain_menu pair pause autostart quit es p a) ins) st sh = (st', sh')"
  shows "ag_paused st' = (p \<noteq> odd (count_list (before_quit quit es) pause)) \<and>
    (sh_registry sh' AUTOSTART_VALUE \<noteq> None) = (a \<noteq> odd (count_list (before_quit quit es) autostart))"
  using ins start run
proof (induction es arbitrary: p a ins st sh)
  case Nil
  then show ?case by (simp add: before_quit_def)
next
  case (Cons e es)
  have ne: "pause \<noteq> pair" "autostart \<noteq> pair" "quit \<noteq> pair" "autostart \<noteq> pause" "quit \<noteq> pause" "quit \<noteq> autostart"
    "pair \<noteq> pause" "pair \<noteq> autostart" "pair \<noteq> quit" "pause \<noteq> autostart" "pause \<noteq> quit" "autostart \<noteq> quit"
    using ids by auto
  show ?case
  proof (cases "e \<in> {pair, pause, autostart, quit}")
    case False
    then show ?thesis using Cons by (simp add: classify_menu_event_def before_quit_def)
  next
    case True
    then obtain i rest where i: "ins = i # rest"
      using Cons.prems(1) ids by (cases ins) (auto simp: classify_menu_event_def split: if_splits)
    have w: "registry_works (si_reg i)" "\<forall>i \<in> set rest. registry_works (si_reg i)" using Cons.prems(2) i by auto
    consider "e = pair" | "e = pause" | "e = autostart" | "e = quit" using True by auto
    then show ?thesis
    proof cases
      case 1
      obtain st1 r where o: "open_pairing_window d (si_ifaces i) (si_rnd i) (si_now i) st (AgentState_listen_port st) = (st1, r)"
        by fastforce
      then have p: "ag_paused st1 = ag_paused st"
        by (auto simp: open_pairing_window_def Let_def split: option.splits if_splits)
      obtain sh1 where "shell_loop d idle (zip (drain_menu pair pause autostart quit es p a) rest) st1 sh1 = (st', sh')"
          "sh_registry sh1 = sh_registry sh"
        using 1 Cons.prems(5) i o ne that [of sh] that [of "sh\<lparr> sh_view := x \<rparr>" for x]
        by (cases r) (simp_all add: classify_menu_event_def)
      then show ?thesis
        using 1 Cons.prems(1-4) Cons.IH [of p a rest st1 sh1] w(2) i p ne
        by (simp add: classify_menu_event_def before_quit_def)
    next
      case 2
      then show ?thesis
        using Cons.prems Cons.IH [of "\<not> p" a rest "st\<lparr> ag_paused := \<not> p \<rparr>"
            "set_status sh (if \<not> p then Paused else idle)"] w(2) i ne
        by (simp add: classify_menu_event_def before_quit_def set_status_def)
    next
      case 3
      obtain reg where "set_autostart (si_reg i) (sh_registry sh) (\<not> a) = (reg, Inr ())"
          "(reg AUTOSTART_VALUE \<noteq> None) = (\<not> a)"
        using set_autostart_works [OF w(1)] by blast
      then show ?thesis
        using 3 Cons.prems Cons.IH [of p "\<not> a" rest st "sh\<lparr> sh_registry := reg \<rparr>"] w(2) i ne
        by (simp add: classify_menu_event_def before_quit_def)
    next
      case 4
      then show ?thesis using Cons.prems i ne by (auto simp: classify_menu_event_def before_quit_def)
    qed
  qed
qed

text \<open>
  C33: The menu's check marks tell the truth. With distinct menu items and a registry that answers,
  whatever the user clicks in whatever order, once the shell has worked through the commands of the tray's rounds
  the agent is paused exactly when the clicks on Pause before the first on Quit, from the
  initial state, say so, and the autostart value exists exactly when the clicks on Autostart
  do; clicks on other items, unknown ones and those after Quit change neither.
\<close>

theorem menu_controls_agent:
  assumes "distinct [pair, pause, autostart, quit]"
    and "spawn_tray None None (ag_paused st) (sh_registry sh AUTOSTART_VALUE \<noteq> None) pair pause autostart quit rounds = Inr (cmds, tip)"
    and "length cmds \<le> length ins" "\<forall>i \<in> set ins. registry_works (si_reg i)"
    and "run_shell d (Inr (zip cmds ins)) False window st sh = ((st', sh'), r)"
  shows "r = Inr () \<and>
    ag_paused st' = (ag_paused st \<noteq> odd (count_list (before_quit quit (clicked_in rounds)) pause)) \<and>
    (sh_registry sh' AUTOSTART_VALUE \<noteq> None) =
      ((sh_registry sh AUTOSTART_VALUE \<noteq> None) \<noteq> odd (count_list (before_quit quit (clicked_in rounds)) autostart))"
proof -
  have c: "cmds = drain_menu pair pause autostart quit (clicked_in rounds) (ag_paused st) (sh_registry sh AUTOSTART_VALUE \<noteq> None)"
    using assms(2) tray_loop_commands [of pair pause autostart quit rounds "ag_paused st" "sh_registry sh AUTOSTART_VALUE \<noteq> None"]
    by (simp add: spawn_tray_def) (metis fst_conv)
  have r: "shell_loop d (idle_status_of st) (zip cmds ins) st (set_status sh (idle_status_of st)) = (st', sh')" "r = Inr ()"
    using assms(5) by (simp_all add: run_shell_def Let_def)
  have s: "sh_registry (set_status sh x) = sh_registry sh" for x by (simp add: set_status_def)
  show ?thesis
    using menu_run [OF assms(1) _ assms(4) _ _ r(1) [unfolded c]] assms(3) r(2) by (simp add: c s)
qed

definition demo_reg :: reg_calls where
  "demo_reg = \<lparr> rc_create = None, rc_exe = Inr (Some (lit ''AirClip.exe'')), rc_set = None, rc_remove = None \<rparr>"

definition demo_shell_in :: shell_in where
  "demo_shell_in = \<lparr> si_ifaces = None, si_rnd = None, si_now = 0, si_reg = demo_reg \<rparr>"

definition demo_shell :: shell where
  "demo_shell = \<lparr> sh_view = ShowQr [], sh_tips = Some [], sh_registry = Map.empty \<rparr>"

theorem menu_controls_agent_witness:
  "case run_shell demo_deps (Inr (zip [SetPaused True, SetAutostart True, SetPaused False, SetPaused True, Quit]
       (replicate 5 demo_shell_in))) False (Inr ()) demo_agent demo_shell of
     ((st', sh'), r) \<Rightarrow> ag_paused st' \<and> sh_registry sh' AUTOSTART_VALUE \<noteq> None"
proof -
  let ?r = "run_shell demo_deps (Inr (zip [SetPaused True, SetAutostart True, SetPaused False, SetPaused True, Quit]
       (replicate 5 demo_shell_in))) False (Inr ()) demo_agent demo_shell"
  have p: "\<not> ag_paused demo_agent" "sh_registry demo_shell = Map.empty"
    by (simp_all add: demo_agent_def AgentState_new_def demo_shell_def)
  have t: "spawn_tray None None (ag_paused demo_agent) (sh_registry demo_shell AUTOSTART_VALUE \<noteq> None) (1 :: nat) 2 3 4
      [\<lparr> tr_events = [2, 3, 9], tr_tips = [], tr_more = True \<rparr>, \<lparr> tr_events = [2, 2, 4, 2], tr_tips = [], tr_more = True \<rparr>] =
      Inr ([SetPaused True, SetAutostart True, SetPaused False, SetPaused True, Quit], Status_tooltip Unpaired None)"
    by (simp add: spawn_tray_def p classify_menu_event_def)
  have w: "\<forall>i \<in> set (replicate 5 demo_shell_in). registry_works (si_reg i)"
    by (simp add: registry_works_def demo_shell_in_def demo_reg_def)
  have "?r = ((fst (fst ?r), snd (fst ?r)), snd ?r)" by simp
  from menu_controls_agent [OF _ t _ w this] show ?thesis by (auto simp: p before_quit_def case_prod_unfold)
qed

section \<open>The command line\<close>

text \<open>
  Only an agent touches the store. Help, the simulated phone, a program without a runtime and a
  second instance leave every file as it was.
\<close>

lemma main_leaves_files:
  assumes "fst (airclip_main d w mi files args) \<noteq> files"
  shows "(classify_args args = ModeAgent \<or> classify_args args = ModePair) \<and>
    (\<exists>inst. snd (SingleInstance_acquire (mi_instance_err mi) (mi_mutexes mi)) = Inr (Some inst))"
  using assms
  by (auto simp: airclip_main_def run_agent_def Let_def split: option.splits Mode.splits prod.splits sum.splits)

end
