(* ===== verification/Ffi.thy ===== *)
theory Ffi
  imports Client Keystore
begin

text \<open>
  The UniFFI boundary (\<open>ffi.rs\<close>): the one object Swift holds, its state, and every command. The
  keychain delegate and the event listener are implemented in Swift: what they hold and have
  been told is part of the handle. JSON is a library, so the two conversions are an argument;
  network input comes as the exchanges of the transport driver, and a command that talks to the
  PC returns the frames it wrote beside its result.
\<close>

section \<open>Types\<close>

datatype FfiContentType = FfiText | FfiUrl

fun FfiContentType_from :: "ContentType \<Rightarrow> FfiContentType" where
  "FfiContentType_from Text = FfiText"
| "FfiContentType_from Url = FfiUrl"

fun ContentType_from_ffi :: "FfiContentType \<Rightarrow> ContentType" where
  "ContentType_from_ffi FfiText = Text"
| "ContentType_from_ffi FfiUrl = Url"

record FfiStageItem =
  fi_stage_id :: rstr
  fi_content_type :: FfiContentType
  fi_preview :: rstr
  fi_size :: u32
  fi_copied_at_ms :: u64

record FfiPeer =
  fp_device_id :: rstr
  fp_display_name :: rstr
  fp_paired_at_ms :: u64

datatype FfiError =
    FfiNotPaired
  | FfiUnreachable
  | FfiTimedOut
  | FfiTooLarge
  | FfiRejected rstr
  | FfiInternal rstr

fun FfiError_from :: "ClientError \<Rightarrow> FfiError" where
  "FfiError_from Unreachable = FfiUnreachable"
| "FfiError_from TimedOut = FfiTimedOut"
| "FfiError_from (TooLarge n) = FfiTooLarge"
| "FfiError_from (Rejected r) = FfiRejected r"
| "FfiError_from (Protocol r) = FfiInternal r"

datatype BeamResult =
    Sent rstr
  | BeamNotPaired
  | BeamUnreachable
  | BeamTimedOut
  | BeamTooLarge u32
  | BeamFailed rstr

datatype CoreEvent =
    CorePairingSas "rstr list"
  | CorePaired rstr rstr
  | CorePairingFailed rstr
  | PeerUnreachable

text \<open>What the keychain holds.\<close>

record KeystoreDelegate =
  kd_seed :: "bytes option"
  kd_pairings :: "rstr option"

record json =
  to_json :: "PairingRecord list \<Rightarrow> rstr option"
  from_json :: "rstr \<Rightarrow> PairingRecord list option"

definition json_ok :: "json \<Rightarrow> bool" where
  "json_ok j \<longleftrightarrow> (\<forall>rs. \<exists>s. to_json j rs = Some s \<and> from_json j s = Some rs)"

record CoreState =
  cs_identity :: IdentityKeypair
  cs_peers :: "PairingRecord list"
  cs_hints :: "SocketAddr list"
  cs_pending :: "PendingPairing option"
  cs_pending_hosts :: "SocketAddr list"

record CoreHandle =
  ch_state :: CoreState
  ch_keystore :: KeystoreDelegate
  ch_events :: "CoreEvent list"

section \<open>Construction and queries\<close>

definition CoreHandle_new ::
  "deps \<Rightarrow> json \<Rightarrow> KeystoreDelegate \<Rightarrow> rstr option \<Rightarrow> bytes option \<Rightarrow> FfiError + CoreHandle" where
  "CoreHandle_new d j keystore runtime_err rnd =
     (case runtime_err of
        Some e \<Rightarrow> Inl (FfiInternal e)
      | None \<Rightarrow>
          try_r (case kd_seed keystore of
                   Some seed \<Rightarrow>
                     if length seed = 32 then Inr (IdentityKeypair_from_seed d seed, keystore)
                     else (case IdentityKeypair_generate d rnd of
                             Inl e \<Rightarrow> Inl (FfiInternal (Error_to_string e))
                           | Inr i \<Rightarrow> Inr (i, keystore\<lparr> kd_seed := Some (IdentityKeypair_secret_bytes i) \<rparr>))
                 | None \<Rightarrow>
                     (case IdentityKeypair_generate d rnd of
                        Inl e \<Rightarrow> Inl (FfiInternal (Error_to_string e))
                      | Inr i \<Rightarrow> Inr (i, keystore\<lparr> kd_seed := Some (IdentityKeypair_secret_bytes i) \<rparr>))) (\<lambda>(identity, keystore).
          let peers = (case kd_pairings keystore of
                         None \<Rightarrow> []
                       | Some js \<Rightarrow> (case from_json j js of None \<Rightarrow> [] | Some rs \<Rightarrow> rs))
          in Inr \<lparr> ch_state = \<lparr> cs_identity = identity, cs_peers = peers, cs_hints = [],
                                cs_pending = None, cs_pending_hosts = [] \<rparr>,
                   ch_keystore = keystore, ch_events = [] \<rparr>))"

definition CoreHandle_device_id :: "deps \<Rightarrow> CoreHandle \<Rightarrow> rstr" where
  "CoreHandle_device_id d h = DeviceId_hex (IdentityKeypair_device_id d (cs_identity (ch_state h)))"

definition CoreHandle_is_paired :: "CoreHandle \<Rightarrow> bool" where
  "CoreHandle_is_paired h \<longleftrightarrow> cs_peers (ch_state h) \<noteq> []"

definition CoreHandle_peers :: "CoreHandle \<Rightarrow> FfiPeer list" where
  "CoreHandle_peers h =
     map (\<lambda>p. \<lparr> fp_device_id = pr_device_id p, fp_display_name = pr_display_name p,
                fp_paired_at_ms = pr_created_at_ms p \<rparr>) (cs_peers (ch_state h))"

section \<open>Hints\<close>

definition push_hint :: "CoreState \<Rightarrow> SocketAddr \<Rightarrow> CoreState" where
  "push_hint st addr =
     (if addr \<notin> set (cs_hints st) then st\<lparr> cs_hints := cs_hints st @ [addr] \<rparr> else st)"

definition add_peer_hint :: "CoreHandle \<Rightarrow> rstr \<Rightarrow> u16 \<Rightarrow> CoreHandle" where
  "add_peer_hint h host port =
     (case IpAddr_parse host of
        None \<Rightarrow> h
      | Some ip \<Rightarrow> h\<lparr> ch_state := push_hint (ch_state h) (ip, port) \<rparr>)"

definition clear_peer_hints :: "CoreHandle \<Rightarrow> CoreHandle" where
  "clear_peer_hints h = h\<lparr> ch_state := (ch_state h)\<lparr> cs_hints := [] \<rparr> \<rparr>"

section \<open>Pairing\<close>

definition on_event :: "CoreHandle \<Rightarrow> CoreEvent \<Rightarrow> CoreHandle" where
  "on_event h e = h\<lparr> ch_events := ch_events h @ [e] \<rparr>"

definition start_pairing ::
  "deps \<Rightarrow> (PairingAction list \<Rightarrow> rstr) \<Rightarrow> CoreHandle \<Rightarrow> rstr \<Rightarrow> rstr \<Rightarrow> exchange
     \<Rightarrow> CoreHandle \<times> Frame list \<times> (FfiError + unit)" where
  "start_pairing d dbg h qr_url display_name x =
     (case QrPayload_parse d qr_url of
        Inl e \<Rightarrow> (h, [], Inl (FfiRejected (Error_to_string e)))
      | Inr qr \<Rightarrow>
          let qr_hosts' = resolve_hosts (qr_hosts qr);
              h = h\<lparr> ch_state := (ch_state h)\<lparr> cs_pending_hosts := qr_hosts' \<rparr> \<rparr>
          in (case begin_pairing d dbg (cs_identity (ch_state h)) display_name qr x of
                (frames, Inl e) \<Rightarrow>
                  let h = (if e = Unreachable then on_event h PeerUnreachable else h);
                      h = on_event h (CorePairingFailed (ClientError_to_string e))
                  in (h, frames, Inl (FfiError_from e))
              | (frames, Inr pending) \<Rightarrow>
                  let h = h\<lparr> ch_state := (ch_state h)\<lparr> cs_pending := Some pending \<rparr> \<rparr>
                  in (on_event h (CorePairingSas (PendingPairing_sas pending)), frames, Inr ())))"

text \<open>Storing the peers after a change; a JSON failure is ignored.\<close>

definition store_peers :: "json \<Rightarrow> CoreHandle \<Rightarrow> CoreHandle" where
  "store_peers j h =
     (case to_json j (cs_peers (ch_state h)) of
        None \<Rightarrow> h
      | Some js \<Rightarrow> h\<lparr> ch_keystore := (ch_keystore h)\<lparr> kd_pairings := Some js \<rparr> \<rparr>)"

definition add_peer :: "json \<Rightarrow> CoreHandle \<Rightarrow> PairingRecord \<Rightarrow> CoreHandle" where
  "add_peer j h record =
     store_peers j (h\<lparr> ch_state := (ch_state h)\<lparr> cs_peers :=
       filter (\<lambda>p. pr_device_id p \<noteq> pr_device_id record) (cs_peers (ch_state h)) @ [record] \<rparr> \<rparr>)"

definition core_confirm_sas :: "json \<Rightarrow> CoreHandle \<Rightarrow> rstr option \<Rightarrow> CoreHandle \<times> Frame list \<times> (FfiError + unit)" where
  "core_confirm_sas j h err =
     (case cs_pending (ch_state h) of
        None \<Rightarrow> (h, [], Inl (FfiInternal (lit ''no pairing in progress'')))
      | Some pending \<Rightarrow>
          let h = h\<lparr> ch_state := (ch_state h)\<lparr> cs_pending := None \<rparr> \<rparr> in
          (case PendingPairing_confirm pending err of
             (frames, Inl e) \<Rightarrow> (h, frames, Inl (FfiError_from e))
           | (frames, Inr record) \<Rightarrow>
               let h = add_peer j h record;
                   st = ch_state h;
                   st = foldl push_hint (st\<lparr> cs_pending_hosts := [] \<rparr>) (cs_pending_hosts st);
                   h = h\<lparr> ch_state := st \<rparr>
               in (on_event h (CorePaired (pr_device_id record) (pr_display_name record)), frames, Inr ())))"

definition cancel_pairing :: "CoreHandle \<Rightarrow> CoreHandle" where
  "cancel_pairing h = h\<lparr> ch_state := (ch_state h)\<lparr> cs_pending := None, cs_pending_hosts := [] \<rparr> \<rparr>"

definition forget_peer :: "json \<Rightarrow> CoreHandle \<Rightarrow> rstr \<Rightarrow> CoreHandle" where
  "forget_peer j h device_id =
     store_peers j (h\<lparr> ch_state := (ch_state h)\<lparr> cs_peers :=
       filter (\<lambda>p. pr_device_id p \<noteq> device_id) (cs_peers (ch_state h)) \<rparr> \<rparr>)"

section \<open>Commands to the PC\<close>

definition connection_params ::
  "deps \<Rightarrow> CoreHandle \<Rightarrow> FfiError + IdentityKeypair \<times> PeerKey \<times> SocketAddr list" where
  "connection_params d h =
     (let st = ch_state h in
      case cs_peers st of
        [] \<Rightarrow> Inl FfiNotPaired
      | record # _ \<Rightarrow>
          (case PairingRecord_device_id_bytes d record of
             Inl e \<Rightarrow> Inl (FfiInternal (Error_to_string e))
           | Inr device_id \<Rightarrow>
          (case PairingRecord_public_key_bytes d record of
             Inl e \<Rightarrow> Inl (FfiInternal (Error_to_string e))
           | Inr public_key \<Rightarrow>
               if cs_hints st = [] then Inl FfiUnreachable
               else Inr (cs_identity st, \<lparr> pk_device_id = device_id, pk_public_key = public_key \<rparr>, cs_hints st))))"

definition ffi_classify :: "rstr \<Rightarrow> ContentType" where
  "ffi_classify text =
     (let t = trim text in
      if \<not> list_ex is_whitespace t \<and> (starts_with t (lit ''http://'') \<or> starts_with t (lit ''https://''))
      then Url else Text)"

definition op_timeout :: "u32 \<Rightarrow> nat" where
  "op_timeout timeout_ms = max (unat timeout_ms) 250"

text \<open>The network input of a command: opening the connection, then the operation's own.\<close>

record command_in =
  cm_open :: exchange
  cm_now :: u64
  cm_rnd :: "bytes option"
  cm_send_err :: "rstr option"
  cm_replies :: "client_in list"

text \<open>
  One operation over a connection of its own, as the asynchronous blocks run it: the frames written
  on the connection, and the result.
\<close>

definition over_connection ::
  "Frame list \<times> Connection client_result \<Rightarrow> (Connection \<Rightarrow> Connection \<times> 'a client_result)
     \<Rightarrow> Frame list \<times> 'a client_result" where
  "over_connection opened operation =
     (case opened of
        (frames, Inl e) \<Rightarrow> (frames, Inl e)
      | (frames, Inr conn) \<Rightarrow> (case operation conn of (conn', r) \<Rightarrow> (cn_wire conn', r)))"

definition beam_exchange ::
  "deps \<Rightarrow> (SessionAction list \<Rightarrow> rstr) \<Rightarrow> IdentityKeypair \<Rightarrow> PeerKey \<Rightarrow> SocketAddr list \<Rightarrow> nat \<Rightarrow> rstr
     \<Rightarrow> command_in \<Rightarrow> Frame list \<times> bytes client_result" where
  "beam_exchange d dbg identity peer addrs timeout text i =
     over_connection (Connection_open d dbg identity peer addrs timeout (cm_open i)) (\<lambda>conn.
       Connection_beam d conn (ffi_classify text) (as_bytes text) (lit ''iPhone'') (cm_now i)
         (cm_rnd i) (cm_send_err i) (cm_replies i))"

definition hex_encode :: "bytes \<Rightarrow> rstr" where
  "hex_encode bs = concat (map fmt_02x bs)"

definition beam_text_await ::
  "deps \<Rightarrow> (SessionAction list \<Rightarrow> rstr) \<Rightarrow> CoreHandle \<Rightarrow> rstr \<Rightarrow> u32 \<Rightarrow> command_in
     \<Rightarrow> CoreHandle \<times> Frame list \<times> BeamResult" where
  "beam_text_await d dbg h text timeout_ms i =
     (case connection_params d h of
        Inl e \<Rightarrow> (h, [], BeamNotPaired)
      | Inr (identity, peer, addrs) \<Rightarrow>
          (case beam_exchange d dbg identity peer addrs (op_timeout timeout_ms) text i of
             (frames, Inr clip_id) \<Rightarrow> (h, frames, Sent (hex_encode clip_id))
           | (frames, Inl Unreachable) \<Rightarrow> (on_event h PeerUnreachable, frames, BeamUnreachable)
           | (frames, Inl TimedOut) \<Rightarrow> (h, frames, BeamTimedOut)
           | (frames, Inl (TooLarge max_bytes)) \<Rightarrow> (h, frames, BeamTooLarge max_bytes)
           | (frames, Inl e) \<Rightarrow> (h, frames, BeamFailed (ClientError_to_string e))))"

definition ffi_stage_item :: "StageMeta \<Rightarrow> FfiStageItem" where
  "ffi_stage_item m =
     \<lparr> fi_stage_id = hex_encode (sm_stage_id m), fi_content_type = FfiContentType_from (sm_content_type m),
       fi_preview = sm_preview m, fi_size = sm_size m, fi_copied_at_ms = sm_copied_at_ms m \<rparr>"

definition from_client :: "'a client_result \<Rightarrow> FfiError + 'a" where
  "from_client r = (case r of Inl e \<Rightarrow> Inl (FfiError_from e) | Inr v \<Rightarrow> Inr v)"

definition fetch_stage_list_await ::
  "deps \<Rightarrow> (SessionAction list \<Rightarrow> rstr) \<Rightarrow> CoreHandle \<Rightarrow> u32 \<Rightarrow> command_in
     \<Rightarrow> Frame list \<times> (FfiError + FfiStageItem list)" where
  "fetch_stage_list_await d dbg h timeout_ms i =
     (case connection_params d h of
        Inl e \<Rightarrow> ([], Inl e)
      | Inr (identity, peer, addrs) \<Rightarrow>
          (case over_connection (Connection_open d dbg identity peer addrs (op_timeout timeout_ms) (cm_open i))
                  (\<lambda>conn. Connection_stage_list d conn (cm_send_err i) (cm_replies i)) of
             (frames, r) \<Rightarrow> (frames, try_r (from_client r) (\<lambda>items. Inr (map ffi_stage_item items)))))"

definition fetch_stage_item_await ::
  "deps \<Rightarrow> (SessionAction list \<Rightarrow> rstr) \<Rightarrow> CoreHandle \<Rightarrow> rstr \<Rightarrow> u32 \<Rightarrow> command_in
     \<Rightarrow> Frame list \<times> (FfiError + rstr)" where
  "fetch_stage_item_await d dbg h stage_id timeout_ms i =
     (case (case hex_decode d stage_id of Some raw \<Rightarrow> if length raw = 8 then Some raw else None | None \<Rightarrow> None) of
        None \<Rightarrow> ([], Inl (FfiInternal (lit ''malformed stage id'')))
      | Some raw \<Rightarrow>
     (case connection_params d h of
        Inl e \<Rightarrow> ([], Inl e)
      | Inr (identity, peer, addrs) \<Rightarrow>
          (case over_connection (Connection_open d dbg identity peer addrs (op_timeout timeout_ms) (cm_open i))
                  (\<lambda>conn. Connection_stage_item d conn raw (cm_send_err i) (cm_replies i)) of
             (frames, r) \<Rightarrow> (frames, try_r (from_client r) (\<lambda>(ct, body). Inr (from_utf8_lossy body))))))"

end
