(* ===== verification/FfiFacts.thy ===== *)
theory FfiFacts
  imports Ffi ClientFacts
begin

text \<open>
  What the boundary guarantees: whatever the app does, a restart from the keychain finds the same
  identity and the same peers, and the peers behave as a map from device identifiers; a beam is
  reported as sent only by a paired phone. Two things it does not: a paired phone with no address
  calls itself unpaired, and a failed second scan leaves its addresses to the first pairing.
\<close>

section \<open>Steps of the app\<close>

inductive core_step :: "deps \<Rightarrow> json \<Rightarrow> CoreHandle \<Rightarrow> CoreHandle \<Rightarrow> bool" for d j where
  hint: "core_step d j h (add_peer_hint h host port)"
| clear: "core_step d j h (clear_peer_hints h)"
| start: "core_step d j h (fst (start_pairing d dbg h url name x))"
| confirm: "core_step d j h (fst (core_confirm_sas j h err))"
| cancel: "core_step d j h (cancel_pairing h)"
| forget: "core_step d j h (forget_peer j h device_id)"
| beam: "core_step d j h (fst (beam_text_await d dbg2 h txt timeout i))"

text \<open>What a restart reads back from the keychain.\<close>

definition restored :: "json \<Rightarrow> KeystoreDelegate \<Rightarrow> PairingRecord list" where
  "restored j ks =
     (case kd_pairings ks of
        None \<Rightarrow> []
      | Some js \<Rightarrow> (case from_json j js of None \<Rightarrow> [] | Some rs \<Rightarrow> rs))"

definition core_inv :: "deps \<Rightarrow> json \<Rightarrow> CoreHandle \<Rightarrow> bool" where
  "core_inv d j h \<longleftrightarrow> distinct (cs_hints (ch_state h)) \<and>
     restored j (ch_keystore h) = cs_peers (ch_state h) \<and>
     (\<exists>seed. kd_seed (ch_keystore h) = Some seed \<and> length seed = 32 \<and>
        cs_identity (ch_state h) = IdentityKeypair_from_seed d seed)"

lemma push_hint_simps [simp]:
  "cs_peers (push_hint st a) = cs_peers st" "cs_identity (push_hint st a) = cs_identity st"
  "cs_pending (push_hint st a) = cs_pending st"
  "distinct (cs_hints st) \<Longrightarrow> distinct (cs_hints (push_hint st a))"
  "set (cs_hints (push_hint st a)) = insert a (set (cs_hints st))"
  by (auto simp: push_hint_def)

lemma push_hints_simps [simp]:
  "cs_peers (foldl push_hint st as) = cs_peers st" "cs_identity (foldl push_hint st as) = cs_identity st"
  "distinct (cs_hints st) \<Longrightarrow> distinct (cs_hints (foldl push_hint st as))"
  "set (cs_hints (foldl push_hint st as)) = set (cs_hints st) \<union> set as"
  by (induction as arbitrary: st) auto

lemma store_peers_simps [simp]:
  assumes "json_ok j"
  shows "ch_state (store_peers j h) = ch_state h"
    "restored j (ch_keystore (store_peers j h)) = cs_peers (ch_state h)"
    "kd_seed (ch_keystore (store_peers j h)) = kd_seed (ch_keystore h)"
proof -
  obtain s where "to_json j (cs_peers (ch_state h)) = Some s" "from_json j s = Some (cs_peers (ch_state h))"
    using assms unfolding json_ok_def by blast
  then show "ch_state (store_peers j h) = ch_state h"
    "restored j (ch_keystore (store_peers j h)) = cs_peers (ch_state h)"
    "kd_seed (ch_keystore (store_peers j h)) = kd_seed (ch_keystore h)"
    by (simp_all add: store_peers_def restored_def)
qed

lemma on_event_simps [simp]:
  "ch_state (on_event h e) = ch_state h" "ch_keystore (on_event h e) = ch_keystore h"
  by (simp_all add: on_event_def)

lemma core_step_inv:
  assumes j: "json_ok j" and "core_step d j h h'" and inv: "core_inv d j h"
  shows "core_inv d j h'"
  using assms(2)
proof cases
  case (hint host port)
  then show ?thesis using inv by (auto simp: core_inv_def add_peer_hint_def split: option.split)
next
  case (start dbg url name x)
  then show ?thesis using inv
    by (auto simp: core_inv_def start_pairing_def Let_def split: sum.splits prod.splits)
next
  case (confirm err)
  then show ?thesis using inv j
    by (auto simp: core_inv_def core_confirm_sas_def add_peer_def Let_def split: option.splits sum.splits prod.splits)
next
  case (forget device_id)
  then show ?thesis using inv j by (simp add: core_inv_def forget_peer_def)
next
  case (beam dbg2 t ms i)
  then show ?thesis using inv
    by (auto simp: core_inv_def beam_text_await_def split: sum.splits prod.splits ClientError.splits)
qed (use inv in \<open>auto simp: core_inv_def clear_peer_hints_def cancel_pairing_def\<close>)

lemma core_steps_inv:
  "(core_step d j)\<^sup>*\<^sup>* h h' \<Longrightarrow> json_ok j \<Longrightarrow> core_inv d j h \<Longrightarrow> core_inv d j h'"
  by (induction rule: rtranclp_induct) (auto intro: core_step_inv)

lemma core_inv_new:
  assumes "CoreHandle_new d j ks err rnd = Inr h" "case rnd of None \<Rightarrow> True | Some r \<Rightarrow> length r = 32"
  shows "core_inv d j h"
  using assms
  by (auto simp: CoreHandle_new_def core_inv_def restored_def try_r_eq_Inr IdentityKeypair_generate_def
      IdentityKeypair_from_seed_def IdentityKeypair_secret_bytes_def Let_def
      split: option.splits if_splits sum.splits)

lemma new_from_inv:
  assumes "core_inv d j h"
  shows "\<exists>h'. CoreHandle_new d j (ch_keystore h) None rnd = Inr h' \<and>
    cs_identity (ch_state h') = cs_identity (ch_state h) \<and> cs_peers (ch_state h') = cs_peers (ch_state h)"
  using assms by (auto simp: core_inv_def CoreHandle_new_def restored_def Let_def)

section \<open>Properties\<close>

text \<open>
  C16: The phone survives a restart. From any start and after any sequence of hints, scans,
  confirmations, cancellations, beams and forgotten peers, a new core over the same keychain
  comes up with the same identity and the same list of peers, in order, without needing
  randomness; and no address is ever held twice.
\<close>

theorem restart_restores_phone:
  assumes j: "json_ok j" and new: "CoreHandle_new d j ks None rnd = Inr h0"
    and rnd: "case rnd of None \<Rightarrow> True | Some r \<Rightarrow> length r = 32"
    and steps: "(core_step d j)\<^sup>*\<^sup>* h0 h"
  shows "distinct (cs_hints (ch_state h)) \<and>
    (\<exists>h'. CoreHandle_new d j (ch_keystore h) None None = Inr h' \<and>
       cs_identity (ch_state h') = cs_identity (ch_state h) \<and> cs_peers (ch_state h') = cs_peers (ch_state h))"
proof -
  have inv: "core_inv d j h" using core_steps_inv [OF steps j core_inv_new [OF new rnd]] .
  then show ?thesis using new_from_inv [OF inv] by (simp add: core_inv_def)
qed

definition demo_json :: json where
  "demo_json = \<lparr> to_json = (\<lambda>rs. Some (map unat (demo_records rs))),
     from_json = (\<lambda>s. Some (demo_read_records (length s) (map of_nat s))) \<rparr>"

lemma demo_json_ok: "json_ok demo_json"
  by (simp add: json_ok_def demo_json_def demo_records_read length_demo_records comp_def)

definition demo_keychain :: KeystoreDelegate where
  "demo_keychain = \<lparr> kd_seed = None, kd_pairings = None \<rparr>"

definition demo_pending :: PendingPairing where
  "demo_pending = \<lparr> pp_record = demo_record 1, pp_sas = [], pp_confirm_frame = Some (Frame_new PairConfirm []) \<rparr>"

definition demo_core :: CoreHandle where
  "demo_core = \<lparr> ch_state = \<lparr> cs_identity = demo_id 1, cs_peers = [], cs_hints = [], cs_pending = None,
       cs_pending_hosts = [] \<rparr>,
     ch_keystore = demo_keychain\<lparr> kd_seed := Some (replicate 32 1) \<rparr>, ch_events = [] \<rparr>"

lemma demo_core_new: "CoreHandle_new demo_deps demo_json demo_keychain None (Some (replicate 32 1)) = Inr demo_core"
  by (simp add: CoreHandle_new_def demo_keychain_def demo_core_def IdentityKeypair_generate_def demo_id_def
      IdentityKeypair_secret_bytes_def IdentityKeypair_from_seed_def)

theorem restart_restores_phone_witness:
  "\<exists>h'. CoreHandle_new demo_deps demo_json
      (ch_keystore (forget_peer demo_json (add_peer_hint demo_core (lit ''10.0.0.2'') 80) (lit ''ab''))) None None = Inr h' \<and>
    cs_identity (ch_state h') = demo_id 1"
proof -
  let ?h = "forget_peer demo_json (add_peer_hint demo_core (lit ''10.0.0.2'') 80) (lit ''ab'')"
  have "(core_step demo_deps demo_json)\<^sup>*\<^sup>* demo_core ?h"
    by (meson core_step.hint core_step.forget rtranclp.rtrancl_into_rtrancl rtranclp.rtrancl_refl)
  from restart_restores_phone [OF demo_json_ok demo_core_new _ this]
  have "\<exists>h'. CoreHandle_new demo_deps demo_json (ch_keystore ?h) None None = Inr h' \<and>
      cs_identity (ch_state h') = cs_identity (ch_state ?h)"
    by auto
  moreover have "cs_identity (ch_state ?h) = demo_id 1"
    by (simp add: forget_peer_def demo_json_ok add_peer_hint_def demo_core_def split: option.split)
  ultimately show ?thesis by simp
qed

text \<open>The peers of a handle, as a store of records.\<close>

interpretation phone_peers: record_store "\<lambda>h. record_for (cs_peers (ch_state h))" "add_peer j" "forget_peer j"
  pr_device_id "\<lambda>h. json_ok j" for j :: json
  by unfold_locales (simp_all add: add_peer_def forget_peer_def record_for_put record_for_del)

text \<open>
  The phone's peers are a map. After any sequence of completed pairings and forgotten devices,
  what the core holds under a device identifier is what a map updated by the same sequence
  holds: the last record paired for it, or nothing once it was forgotten; and a restart finds
  the same.
\<close>

theorem phone_peers_are_a_map:
  assumes j: "json_ok j" and inv: "core_inv d j h"
  shows "let h1 = foldl (store_apply (add_peer j) (forget_peer j)) h ops in
    record_for (cs_peers (ch_state h1)) =
      foldl (map_apply pr_device_id) (record_for (cs_peers (ch_state h))) ops \<and>
    restored j (ch_keystore h1) = cs_peers (ch_state h1)"
proof -
  have "restored j (ch_keystore (foldl (store_apply (add_peer j) (forget_peer j)) h ops)) =
      cs_peers (ch_state (foldl (store_apply (add_peer j) (forget_peer j)) h ops))"
    using inv
  proof (induction ops arbitrary: h)
    case (Cons x ops)
    have "core_inv d j (store_apply (add_peer j) (forget_peer j) h x)"
      using Cons.prems j by (cases x) (simp_all add: core_inv_def add_peer_def forget_peer_def)
    then show ?case using Cons.IH by simp
  qed (simp add: core_inv_def)
  then show ?thesis using phone_peers.refines_map [OF j] by (simp add: Let_def)
qed

theorem phone_peers_are_a_map_witness:
  "record_for (cs_peers (ch_state (foldl (store_apply (add_peer demo_json) (forget_peer demo_json)) demo_core
      [Put (demo_record 1), Put (demo_record 2), Del (pr_device_id (demo_record 1))])))
    (pr_device_id (demo_record 2)) = Some (demo_record 2)"
proof -
  have "core_inv demo_deps demo_json demo_core" using core_inv_new [OF demo_core_new] by simp
  from phone_peers_are_a_map [OF demo_json_ok this,
      of "[Put (demo_record 1), Put (demo_record 2), Del (pr_device_id (demo_record 1))]"]
  show ?thesis by (simp add: demo_record_def Let_def)
qed

section \<open>Where the boundary falls short\<close>

text \<open>
  C38: A paired phone that knows no address calls itself unpaired. With a usable pairing and no
  hints, beaming answers that the phone is not paired and tells the listener nothing, although
  the core says it is paired and fetching the staged list answers, correctly, that the PC
  cannot be reached.
\<close>

theorem paired_phone_without_address:
  assumes "cs_peers (ch_state h) = r # rs" "PairingRecord_device_id_bytes d r = Inr i"
    "PairingRecord_public_key_bytes d r = Inr k" "cs_hints (ch_state h) = []"
  shows "CoreHandle_is_paired h \<and> beam_text_await d dbg h t ms c = (h, [], BeamNotPaired) \<and>
    fetch_stage_list_await d dbg h ms c = ([], Inl FfiUnreachable)"
  using assms
  by (simp add: CoreHandle_is_paired_def beam_text_await_def fetch_stage_list_await_def connection_params_def Let_def)

definition demo_pc_record :: PairingRecord where
  "demo_pc_record = PairingRecord_new demo_deps (IdentityKeypair_device_id demo_deps (demo_id 2))
     (id_public (demo_id 2)) (lit ''PC'') 5"

lemma record_keys:
  assumes "hex_faithful d" "base64_faithful d" "length (device_bytes i) = 16" "length k = 32"
  shows "PairingRecord_device_id_bytes d (PairingRecord_new d i k n t) = Inr i"
    "PairingRecord_public_key_bytes d (PairingRecord_new d i k n t) = Inr k"
  using assms
  by (cases i; simp add: PairingRecord_device_id_bytes_def PairingRecord_public_key_bytes_def PairingRecord_new_def
      to_array_def hex_faithful_def base64_faithful_def DeviceId_hex_def ok_or_def)+

lemma demo_record_keys:
  "PairingRecord_device_id_bytes demo_deps demo_pc_record = Inr (IdentityKeypair_device_id demo_deps (demo_id 2))"
  "PairingRecord_public_key_bytes demo_deps demo_pc_record = Inr (id_public (demo_id 2))"
  unfolding demo_pc_record_def
  by (rule record_keys [OF demo_text],
      simp_all add: IdentityKeypair_device_id_def demo_id_def IdentityKeypair_from_seed_def
        fixed_widthsD [OF deps_okD(2) [OF demo_deps_ok]] deps_okD(2) [OF demo_deps_ok])+

definition demo_exchange :: exchange where
  "demo_exchange = \<lparr> ex_dial = [], ex_start_ms = 0, ex_rnd = None, ex_send_err = None, ex_reply = NextTimeout,
     ex_reply_ms = 0, ex_reply_rnd = None \<rparr>"

definition demo_command :: command_in where
  "demo_command = \<lparr> cm_open = demo_exchange, cm_now = 0, cm_rnd = None, cm_send_err = None, cm_replies = [] \<rparr>"

theorem paired_phone_without_address_witness:
  "snd (beam_text_await demo_deps (\<lambda>_. []) (add_peer demo_json demo_core demo_pc_record) (lit ''hi'') 2000
     demo_command) = ([], BeamNotPaired)"
proof -
  let ?h = "add_peer demo_json demo_core demo_pc_record"
  have "cs_peers (ch_state ?h) = demo_pc_record # []" "cs_hints (ch_state ?h) = []"
    by (simp_all add: add_peer_def demo_json_ok demo_core_def)
  from paired_phone_without_address [OF this(1) demo_record_keys this(2)] show ?thesis by simp
qed

text \<open>
  C39: A failed scan hands its addresses to the pairing before it. When a pairing awaits the
  user's comparison and a second code is scanned whose PC cannot be paired with, the first
  pairing stays pending; confirming it then stores the first PC's record, but the addresses
  that become hints are those of the second code.
\<close>

theorem failed_scan_moves_addresses:
  assumes j: "json_ok j" and pending: "cs_pending (ch_state h) = Some p"
    and qr: "QrPayload_parse d url = Inr qr"
    and failed: "start_pairing d dbg h url name x = (h1, sent1, Inl e)"
    and confirmed: "core_confirm_sas j h1 err = (h2, sent2, Inr ())"
  shows "record_for (cs_peers (ch_state h2)) (pr_device_id (pp_record p)) = Some (pp_record p) \<and>
    set (cs_hints (ch_state h2)) = set (cs_hints (ch_state h)) \<union> set (resolve_hosts (qr_hosts qr))"
proof -
  have h1: "cs_pending (ch_state h1) = Some p" "cs_pending_hosts (ch_state h1) = resolve_hosts (qr_hosts qr)"
    "cs_hints (ch_state h1) = cs_hints (ch_state h)"
    using failed pending qr by (auto simp: start_pairing_def Let_def split: sum.splits if_splits prod.splits)
  have "PendingPairing_confirm p err = (sent2, Inr (pp_record p))"
    using confirmed h1(1)
    by (auto simp: core_confirm_sas_def PendingPairing_confirm_def Let_def split: sum.splits option.splits)
  then have h2: "ch_state h2 = foldl push_hint
      ((ch_state (add_peer j (h1\<lparr> ch_state := (ch_state h1)\<lparr> cs_pending := None \<rparr> \<rparr>) (pp_record p)))
         \<lparr> cs_pending_hosts := [] \<rparr>) (resolve_hosts (qr_hosts qr))"
    using confirmed h1 j by (auto simp: core_confirm_sas_def add_peer_def Let_def)
  show ?thesis
    unfolding h2 by (simp add: add_peer_def j h1(3) record_for_put)
qed

definition demo_qr :: QrPayload where
  "demo_qr = \<lparr> qr_version = PROTOCOL_VERSION, qr_device_id = IdentityKeypair_device_id demo_deps (demo_id 2),
     qr_public_key = id_public (demo_id 2), qr_display_name = lit ''PC'', qr_hosts = [lit ''10.0.0.9:80''],
     qr_pair_token = replicate 16 7 \<rparr>"

lemma demo_qr_parse: "QrPayload_parse demo_deps (QrPayload_to_url demo_deps demo_qr) = Inr demo_qr"
  by (rule qr_roundtrip_lemma [OF demo_text(2,1) demo_url deps_okD(2) [OF demo_deps_ok]])
    (simp add: qr_ok_def demo_qr_def IdentityKeypair_device_id_def IdentityKeypair_public_bytes_def demo_id_def
      IdentityKeypair_from_seed_def fixed_widthsD [OF deps_okD(2) [OF demo_deps_ok]] lit_def valid_char_def)

definition demo_waiting :: CoreHandle where
  "demo_waiting = demo_core\<lparr> ch_state := (ch_state demo_core)\<lparr> cs_pending := Some demo_pending \<rparr> \<rparr>"

theorem failed_scan_moves_addresses_witness:
  "\<exists>h1 e h2. start_pairing demo_deps (\<lambda>_. []) demo_waiting (QrPayload_to_url demo_deps demo_qr) [] demo_exchange =
      (h1, [], Inl e) \<and> core_confirm_sas demo_json h1 None = (h2, [Frame_new PairConfirm []], Inr ()) \<and>
    record_for (cs_peers (ch_state h2)) (pr_device_id (demo_record 1)) = Some (demo_record 1) \<and>
    set (cs_hints (ch_state h2)) = set (resolve_hosts [lit ''10.0.0.9:80''])"
proof -
  have "begin_pairing demo_deps (\<lambda>_. []) i n demo_qr demo_exchange = ([], Inl Unreachable)" for i n
    by (simp add: begin_pairing_def dial_def demo_exchange_def)
  then obtain h1 where s: "start_pairing demo_deps (\<lambda>_. []) demo_waiting (QrPayload_to_url demo_deps demo_qr) []
      demo_exchange = (h1, [], Inl FfiUnreachable)" "cs_pending (ch_state h1) = Some demo_pending"
    by (simp add: start_pairing_def demo_qr_parse Let_def demo_waiting_def)
  have "PendingPairing_confirm demo_pending None = ([Frame_new PairConfirm []], Inr (demo_record 1))"
    by (simp add: PendingPairing_confirm_def demo_pending_def send_frame_def wire_send_def FrameCodec_encode_def)
  then obtain h2 where c: "core_confirm_sas demo_json h1 None = (h2, [Frame_new PairConfirm []], Inr ())"
    using s(2) by (simp add: core_confirm_sas_def Let_def)
  have p: "cs_pending (ch_state demo_waiting) = Some demo_pending" by (simp add: demo_waiting_def)
  show ?thesis
    using failed_scan_moves_addresses [OF demo_json_ok p demo_qr_parse s(1) c] s(1) c
    by (simp add: demo_pending_def demo_waiting_def demo_core_def demo_qr_def)
qed

end
