(* ===== verification/Compose.thy ===== *)
theory Compose
  imports AgentFacts FfiFacts Simulate
begin

text \<open>
  What the end-to-end theorems rest on: an agent that serves a connection, step by step, against
  the phone's own state machines. Each lemma takes the frames one side produces and says what the
  other side does with them.
\<close>

section \<open>Paired devices\<close>

lemma find_peer_key:
  assumes d: "hex_faithful d" "base64_faithful d"
    and ids: "\<forall>r \<in> set rs. \<exists>j. pr_device_id r = DeviceId_hex j"
    and i: "length (device_bytes i) = 16" "length k = 32"
    and r: "record_for rs (DeviceId_hex i) = Some (PairingRecord_new d i k n t)"
  shows "find (\<lambda>p. pk_device_id p = i) (List.map_filter (record_peer_key d) rs) =
    Some \<lparr> pk_device_id = i, pk_public_key = k \<rparr>"
  using ids r
proof (induction rs)
  case (Cons x rs)
  obtain j where j: "pr_device_id x = DeviceId_hex j" using Cons.prems(1) by auto
  show ?case
  proof (cases "j = i")
    case True
    then have "x = PairingRecord_new d i k n t" using Cons.prems(2) j by (simp add: record_for_def)
    then show ?thesis using record_keys [OF d i] by (simp add: List.map_filter_simps record_peer_key_def)
  next
    case False
    have "hex_decode d (pr_device_id x) = Some (device_bytes j)"
      using d(1) j by (simp add: hex_faithful_def DeviceId_hex_def)
    then have "record_peer_key d x = None \<or> (\<exists>k. record_peer_key d x = Some \<lparr> pk_device_id = j, pk_public_key = k \<rparr>)"
      by (auto simp: record_peer_key_def PairingRecord_device_id_bytes_def to_array_def split: sum.split option.split)
    moreover have "record_for rs (DeviceId_hex i) = Some (PairingRecord_new d i k n t)"
      using Cons.prems(2) j False by (simp add: record_for_def)
    ultimately show ?thesis
      using Cons.IH Cons.prems(1) False by (auto simp: List.map_filter_simps)
  qed
qed (simp add: record_for_def)

text \<open>The PC's side: a session that greets, receives one clip and is closed by the peer.\<close>

lemma session_serves_clip:
  assumes hello: "Session_on_frame d (Session_set_paused (Session_new_pc (ag_identity st) (AgentState_peer_keys d st) t2) False)
      hello t2 rf = (pc, [Send ack, Emit (EvEstablished i)])" "frame_ty hello = Hello" "frame_fits ack"
    and push: "Session_on_frame d (Session_set_paused pc False) push t4 r4 =
      (pc2, [Emit (ClipArrived c ct body n t), Send ack2])" "frame_fits ack2"
    and st: "\<not> ag_paused st"
  shows "handle_connection d w [plain_input (NextFrame hello) t2 rf, plain_input (NextFrame push) t4 r4] st =
    (st, [Wrote ack, Event (PeerConnected (DeviceId_hex i)), Event (AgentClipArrived ct body n),
          Wrote ack2, Event (PeerDisconnected (DeviceId_hex i))], Inr ())"
proof -
  have "wire_send None ack = Inr ()" "wire_send None ack2 = Inr ()"
    using hello(3) push(2) by (simp_all add: wire_send_ok frame_fits_def)
  then show ?thesis
    using hello push st
    by (simp add: handle_connection_def run_session_def plain_input_def Let_def Session_set_paused_def
        AgentState_is_paused_def handle_event_def disconnect_def)
qed

text \<open>The phone's side: connecting, then beaming, each decided by the first reply.\<close>

lemma open_then:
  assumes "start_phone d me peer t1 e = Inr (ph, hello)" "frame_fits hello" "dial addrs results = Inr a"
    "Session_on_frame d ph ack t3 r3 = (ph', [Emit (EvEstablished p)])"
  shows "Connection_open d dbg me peer addrs ms
      \<lparr> ex_dial = results, ex_start_ms = t1, ex_rnd = e, ex_send_err = None, ex_reply = NextFrame ack,
        ex_reply_ms = t3, ex_reply_rnd = r3 \<rparr> =
    ([hello], Inr \<lparr> cn_wire = [hello], cn_session = ph', cn_op_timeout = ms \<rparr>)"
proof -
  have "wire_send None hello = Inr ()" using assms(2) by (simp add: wire_send_ok frame_fits_def)
  then show ?thesis using assms by (simp add: Connection_open_def from_core_def send_frame_def recv_frame_def)
qed

text \<open>What pairing leaves on each side, for devices \<open>phone\<close> and \<open>pc\<close>.\<close>

definition phone_paired_with :: "deps \<Rightarrow> CoreHandle \<Rightarrow> IdentityKeypair \<Rightarrow> IdentityKeypair \<Rightarrow> bool" where
  "phone_paired_with d h phone pc \<longleftrightarrow> cs_identity (ch_state h) = phone \<and>
     (\<exists>name t rs. cs_peers (ch_state h) =
        PairingRecord_new d (IdentityKeypair_device_id d pc) (id_public pc) name t # rs)"

definition pc_paired_with :: "deps \<Rightarrow> AgentState \<Rightarrow> IdentityKeypair \<Rightarrow> IdentityKeypair \<Rightarrow> bool" where
  "pc_paired_with d st pc phone \<longleftrightarrow> ag_identity st = pc \<and>
     (\<forall>r \<in> set (ag_peers st). \<exists>j. pr_device_id r = DeviceId_hex j) \<and>
     (\<exists>name t. record_for (ag_peers st) (DeviceId_hex (IdentityKeypair_device_id d phone)) =
        Some (PairingRecord_new d (IdentityKeypair_device_id d phone) (id_public phone) name t))"

definition text_ok :: "rstr \<Rightarrow> bool" where
  "text_ok t \<longleftrightarrow> length (as_bytes t) \<le> MAX_TEXT_CLIP"

lemma new_record:
  "pr_device_id (PairingRecord_new d i k n t) = DeviceId_hex i" "pr_display_name (PairingRecord_new d i k n t) = n"
  by (simp_all add: PairingRecord_new_def)

lemma store_peers_events: "ch_events (store_peers j h) = ch_events h"
  by (simp add: store_peers_def split: option.split)

section \<open>Serving a pairing\<close>

text \<open>The agent's side of a pairing whose two frames are the ones the machine accepts.\<close>

lemma pairing_served:
  assumes "ag_pairing st = Some offer"
    and "p = PcPairing_with_token (ag_identity st) (ag_display_name st) (offer_hosts offer) (offer_token offer) (offer_issued_ms offer)"
    and "PcPairing_on_frame d p req t1 r1 = (p1, [PSend ack, ShowSas sas])" "frame_ty req = PairReq" "frame_fits ack"
    and "PcPairing_on_frame d p1 conf t2 r2 = (p2, [Completed record])"
    and "upsert_pairing w no_faults (ag_files st) record = (fs, Inr all)"
  shows "handle_connection d w [plain_input (NextFrame req) t1 r1, plain_input (NextFrame conf) t2 r2] st =
    (st\<lparr> ag_files := fs, ag_peers := all, ag_pairing := None \<rparr>,
     [Wrote ack, Event (PairingSas sas), Event (Paired record)], Inr ())"
proof -
  have "wire_send None ack = Inr ()" using assms(5) by (simp add: wire_send_ok frame_fits_def)
  then show ?thesis using assms by (simp add: handle_connection_def run_pairing_def plain_input_def)
qed

text \<open>
  Scanning the code of an open window, from both sides: the phone's machine against the agent, whose
  state then holds the phone.
\<close>

lemma pairing_both_sides:
  assumes d: "deps_ok d" "hex_faithful d" "base64_faithful d" "url_faithful d"
    and ids: "phone = IdentityKeypair_from_seed d a" "pc = IdentityKeypair_from_seed d b"
    and lens: "length a = 32" "length b = 32" "length e = 32" "length f = 32" "length token = 16"
    and name: "valid_str name" "str_len name \<le> MAX_TEXT_CLIP"
    and st0: "ag_identity st0 = pc" "valid_str (ag_display_name st0)"
    and files: "platform_ok w" "load_pairings w no_faults (ag_files st0) = Inr rs"
      "\<forall>r \<in> set rs. \<exists>j. pr_device_id r = DeviceId_hex j"
    and opened: "open_pairing_window d (Some is) (Some token) t0 st0 port = (st, Inr url)"
    and ttl: "unat t1 - unat t0 \<le> unat PAIR_TOKEN_TTL_MS"
  obtains qr ph req pack sas ph1 ph2 conf st1 where
    "QrPayload_parse d url = Inr qr" "qr_hosts qr = map host_text (advertised is port)" "advertised is port \<noteq> []"
    "PhonePairing_start d phone name qr (Some e) = Inr (ph, req)" "frame_fits req" "frame_ty pack = PairAck"
    "PhonePairing_on_frame d ph pack = (ph1, [ShowSas sas])"
    "confirm_sas d ph1 t2 = (ph2, [PSend conf, Completed
       (PairingRecord_new d (IdentityKeypair_device_id d pc) (id_public pc) (ag_display_name st0) t2)])" "frame_fits conf"
    "handle_connection d w [plain_input (NextFrame req) t1 (Some f), plain_input (NextFrame conf) t3 None] st =
       (st1, [Wrote pack, Event (PairingSas sas), Event (Paired
          (PairingRecord_new d (IdentityKeypair_device_id d phone) (id_public phone) name t3))], Inr ())"
    "pc_paired_with d st1 pc phone" "ag_paused st1 = ag_paused st0" "ag_stage st1 = ag_stage st0" "ag_pairing st1 = None"
proof -
  let ?hosts = "map host_text (advertised is port)"
  let ?p = "PcPairing_with_token pc (ag_display_name st0) ?hosts token t0"
  let ?rec = "PairingRecord_new d (IdentityKeypair_device_id d phone) (id_public phone) name t3"
  have k: "length (id_public (ag_identity st0)) = 32"
    using deps_okD(2) [OF d(1)] by (simp add: st0(1) ids IdentityKeypair_from_seed_def fixed_widthsD)
  note url = window_url [OF d(3,2,4) deps_okD(2) [OF d(1)] k st0(2) lens(5) opened, unfolded st0(1)]
  have short: "str_len name < 2 ^ 64" using name(2) by (simp add: MAX_TEXT_CLIP_def)
  obtain ph req p1 pack sas ph1 ph2 conf p2 where pr:
    "PhonePairing_start d phone name (PcPairing_qr_payload d ?p) (Some e) = Inr (ph, req)"
    "PcPairing_on_frame d ?p req t1 (Some f) = (p1, [PSend pack, ShowSas sas])"
    "PhonePairing_on_frame d ph pack = (ph1, [ShowSas sas])"
    "confirm_sas d ph1 t2 = (ph2, [PSend conf, Completed
       (PairingRecord_new d (IdentityKeypair_device_id d pc) (id_public pc) (ag_display_name st0) t2)])"
    "PcPairing_on_frame d p1 conf t3 None = (p2, [Completed ?rec])"
    "frame_ty req = PairReq" "frame_ty pack = PairAck" "frame_fits pack" "frame_fits conf" "frame_fits req"
    using pairing_ends [where hosts = ?hosts and pc_name = "ag_display_name st0" and ?t2.0 = t2
        and ?t3.0 = t3 and ?r3.0 = None, OF d(1) ids lens name(1) short ttl refl] name(2)
    by metis
  have readable: "readable w (ag_files st)" using files url(2) by (simp add: readable_def)
  define all where "all = filter (\<lambda>x. pr_device_id x \<noteq> pr_device_id ?rec) rs @ [?rec]"
  obtain fs where up: "upsert_pairing w no_faults (ag_files st) ?rec = (fs, Inr all)"
    using upsert_readable [OF readable, of ?rec] files(2) url(2) by (auto simp: all_def)
  define st1 where "st1 = st\<lparr> ag_files := fs, ag_peers := all, ag_pairing := None \<rparr>"
  have served: "handle_connection d w [plain_input (NextFrame req) t1 (Some f), plain_input (NextFrame conf) t3 None] st =
      (st1, [Wrote pack, Event (PairingSas sas), Event (Paired ?rec)], Inr ())"
    unfolding st1_def
    by (rule pairing_served [where offer = "\<lparr> offer_token = token, offer_issued_ms = t0, offer_hosts = ?hosts \<rparr>",
          OF _ _ pr(2,6,8,5) up]) (simp_all add: url(2) st0(1))
  have "pc_paired_with d st1 pc phone"
    using files(3) record_for_put [of ?rec rs]
    by (auto simp: st1_def all_def url(2) pc_paired_with_def st0(1) PairingRecord_new_def)
  then show ?thesis
    using url(1,3) pr served
    by (intro that [of "PcPairing_qr_payload d ?p" ph req pack ph1 sas ph2 conf st1])
      (simp_all add: PcPairing_qr_payload_def PcPairing_with_token_def st1_def url(2))
qed

text \<open>The app's side of the same scan: the call that shows the comparison, then the confirmation.\<close>

lemma app_side:
  fixes results ts e t2
  assumes j: "json_ok j"
    and h: "cs_identity (ch_state h) = phone" "cs_peers (ch_state h) = []" "cs_hints (ch_state h) = []"
    and qr: "QrPayload_parse d url = Inr qr" "resolve_hosts (qr_hosts qr) = hosts" "dial hosts results = Inr addr"
    and ph: "PhonePairing_start d phone name qr (Some e) = Inr (ph, req)" "frame_fits req" "frame_ty pack = PairAck"
      "PhonePairing_on_frame d ph pack = (ph1, [ShowSas sas])"
      "confirm_sas d ph1 t2 = (ph2, [PSend conf, Completed record])" "frame_fits conf"
  defines "x \<equiv> \<lparr> ex_dial = results, ex_start_ms = ts, ex_rnd = Some e, ex_send_err = None,
      ex_reply = NextFrame pack, ex_reply_ms = t2, ex_reply_rnd = None \<rparr>"
  obtains h1 h2 where
    "start_pairing d dbg h url name x = (h1, [req], Inr ())" "ch_events h1 = ch_events h @ [CorePairingSas sas]"
    "core_confirm_sas j h1 None = (h2, [conf], Inr ())"
    "ch_events h2 = ch_events h1 @ [CorePaired (pr_device_id record) (pr_display_name record)]"
    "cs_identity (ch_state h2) = phone" "cs_peers (ch_state h2) = [record]" "restored j (ch_keystore h2) = [record]"
    "distinct (cs_hints (ch_state h2))" "set (cs_hints (ch_state h2)) = set hosts"
proof -
  let ?pending = "\<lparr> pp_record = record, pp_sas = sas, pp_confirm_frame = Some conf \<rparr>"
  have sends: "send_frame None req = Inr ()" "send_frame None conf = Inr ()"
    using ph(2,6) by (simp_all add: send_frame_def wire_send_ok [THEN iffD2] frame_fits_def)
  have b: "begin_pairing d dbg phone name qr x = ([req], Inr ?pending)"
    using ph(1,3,4,5) sends(1) qr(2,3)
    by (simp add: x_def begin_pairing_def from_core_def recv_frame_def pairing_shown_def)
  define h1 where "h1 = fst (start_pairing d dbg h url name x)"
  have h1: "start_pairing d dbg h url name x = (h1, [req], Inr ())" "ch_events h1 = ch_events h @ [CorePairingSas sas]"
    "ch_state h1 = (ch_state h)\<lparr> cs_pending_hosts := hosts, cs_pending := Some ?pending \<rparr>"
    using b qr(1,2) h(1) by (simp_all add: h1_def start_pairing_def Let_def on_event_def PendingPairing_sas_def)
  define h2 where "h2 = fst (core_confirm_sas j h1 None)"
  have c: "PendingPairing_confirm ?pending None = ([conf], Inr record)"
    using sends(2) by (simp add: PendingPairing_confirm_def)
  have h2: "core_confirm_sas j h1 None = (h2, [conf], Inr ())"
    "ch_events h2 = ch_events h1 @ [CorePaired (pr_device_id record) (pr_display_name record)]"
    "restored j (ch_keystore h2) = [record]"
    "ch_state h2 = foldl push_hint ((ch_state h)\<lparr> cs_pending := None, cs_peers := [record], cs_pending_hosts := [] \<rparr>) hosts"
    using h1(3) h(2) c j
    by (simp_all add: h2_def core_confirm_sas_def add_peer_def on_event_def store_peers_events Let_def)
  then show ?thesis using h1(1,2) h by (intro that [of h1 h2]) simp_all
qed

section \<open>Serving a session\<close>

definition stage_ok :: "StageRing \<Rightarrow> bool" where
  "stage_ok r \<longleftrightarrow> ring_inv r \<and> ring_depth r \<le> 1024 \<and> (\<forall>c \<in> set (ring_items r). length (sc_stage_id c) = 8) \<and>
     distinct (map sc_stage_id (ring_items r))"

lemma get_newest:
  assumes "stage_ok r" "ring_items r \<noteq> []"
  shows "StageRing_get r (sc_stage_id (last (ring_items r))) = Some (last (ring_items r))"
proof -
  let ?c = "last (ring_items r)"
  have c: "?c \<in> set (ring_items r)" using assms(2) by simp
  obtain c' where c': "StageRing_get r (sc_stage_id ?c) = Some c'" using get_known [OF c] by blast
  have "c' = ?c"
    using get_in [OF c'] c assms(1) by (auto simp: stage_ok_def distinct_map inj_on_def)
  with c' show ?thesis by simp
qed

text \<open>
  The exchanges of a visit, seen from both ends: a clip, then the list, then the newest item.
  The agent asks the pause switch before each frame, hence \<^const>\<open>Session_set_paused\<close>.
\<close>

lemma clip_and_list:
  assumes d: "deps_ok d" and p: "paired_sessions d ph pc" "sent ph = 0" "sent pc = 0"
    and body: "length clip_id = 8" "length body \<le> MAX_TEXT_CLIP" "valid_str name" "str_len name \<le> MAX_TEXT_CLIP"
    and r: "stage_ok r"
  shows "\<exists>ph1 push pc1 ack ph2 ph3 req pc2 pc3 reply ph4.
    Session_push_clip d ph ct body name t (Some clip_id) = (ph1, Inr (push, clip_id)) \<and> frame_fits push \<and>
    Session_on_frame d (Session_set_paused pc False) push t2 None =
      (pc1, [Emit (ClipArrived clip_id ct body name t), Send ack]) \<and> frame_fits ack \<and> frame_ty ack = ClipAck \<and>
    Session_on_frame d ph1 ack t3 None = (ph2, [Emit (ClipAcked clip_id 0)]) \<and>
    Session_request_stage_list d ph2 = (ph3, Inr req) \<and> frame_fits req \<and>
    Session_on_frame d (Session_set_paused pc1 False) req t4 None = (pc2, [Emit StageListRequested]) \<and>
    Session_send_stage_list d pc2 (StageRing_list r) = (pc3, Inr reply) \<and> frame_fits reply \<and> frame_ty reply = StageList \<and>
    Session_on_frame d ph3 reply t5 None = (ph4, [Emit (EvStageList (StageRing_list r))]) \<and>
    paired_sessions d ph4 pc3 \<and> sent ph4 = 2 \<and> sent pc3 = 2"
proof -
  have p': "paired_sessions d ph (Session_set_paused pc False)" "\<not> paused (Session_set_paused pc False)"
    using p(1) by simp (simp add: Session_set_paused_def)
  have room: "has_room ph" "has_room (Session_set_paused pc False)"
    using room_sent [OF p(1)] room_sent [OF p(1) [unfolded paired_sym [of d ph]]] p(2,3) by simp_all
  obtain ph1 push pc1 ack ph2 where c:
    "Session_push_clip d ph ct body name t (Some clip_id) = (ph1, Inr (push, clip_id))" "frame_fits push"
    "Session_on_frame d (Session_set_paused pc False) push t2 None = (pc1, [Emit (ClipArrived clip_id ct body name t), Send ack])"
    "frame_fits ack" "Session_on_frame d ph1 ack t3 None = (ph2, [Emit (ClipAcked clip_id 0)])"
    "paired_sessions d ph2 pc1" "frame_ty ack = ClipAck" "exchanged ph (Session_set_paused pc False) ph2 pc1"
    using clip_ends [OF d p' room body] by metis
  have s: "sent ph2 = 1" "sent pc1 = 1" using c(8) p(2,3) by (simp_all add: exchanged_def)
  have p2: "paired_sessions d ph2 (Session_set_paused pc1 False)" using c(6) by simp
  have room2: "has_room ph2" "has_room (Session_set_paused pc1 False)"
    using room_sent [OF c(6)] room_sent [OF c(6) [unfolded paired_sym [of d ph2]]] s by simp_all
  obtain ph3 req pc2 pc3 reply ph4 where l:
    "Session_request_stage_list d ph2 = (ph3, Inr req)" "frame_fits req"
    "Session_on_frame d (Session_set_paused pc1 False) req t4 None = (pc2, [Emit StageListRequested])"
    "Session_send_stage_list d pc2 (StageRing_list r) = (pc3, Inr reply)" "frame_fits reply"
    "Session_on_frame d ph3 reply t5 None = (ph4, [Emit (EvStageList (StageRing_list r))])"
    "paired_sessions d ph4 pc3" "frame_ty reply = StageList" "exchanged ph2 (Session_set_paused pc1 False) ph4 pc3"
    using list_ends [OF d p2 room2, of r t4 None t5 None] r unfolding stage_ok_def by metis
  have "sent ph4 = 2" "sent pc3 = 2" using l(9) s by (simp_all add: exchanged_def)
  then show ?thesis using c l by blast
qed

lemma newest_item:
  assumes d: "deps_ok d" and p: "paired_sessions d ph pc" "sent ph = 2" "sent pc = 2"
    and r: "stage_ok r" "ring_items r \<noteq> []" and c: "c = last (ring_items r)"
  shows "\<exists>ph1 req pc1 pc2 reply ph2.
    Session_request_stage_item d ph (sc_stage_id c) = (ph1, Inr req) \<and> frame_fits req \<and>
    Session_on_frame d (Session_set_paused pc False) req t1 None = (pc1, [Emit (StageItemRequested (sc_stage_id c))]) \<and>
    Session_send_stage_item d pc1 c = (pc2, Inr reply) \<and> frame_fits reply \<and> frame_ty reply = StageItem \<and>
    Session_on_frame d ph1 reply t2 None = (ph2, [Emit (EvStageItem (sc_stage_id c) (sc_content_type c) (sc_body c))])"
proof -
  have p': "paired_sessions d ph (Session_set_paused pc False)" using p(1) by simp
  have room: "has_room ph" "has_room (Session_set_paused pc False)"
    using room_sent [OF p(1)] room_sent [OF p(1) [unfolded paired_sym [of d ph]]] p(2,3) by simp_all
  have i: "length (sc_stage_id c) = 8" "ring_inv r" using r c by (simp_all add: stage_ok_def)
  show ?thesis
    using item_ends [OF d p' room i(2) get_newest [OF r, folded c] i(1), of t1 None t2 None] by metis
qed

text \<open>The agent's side of such a visit, with and without a staged clip.\<close>

lemma visit_served:
  assumes hello: "Session_on_frame d (Session_set_paused (Session_new_pc (ag_identity st) (AgentState_peer_keys d st) t1) False)
      hello t1 rf = (pc, [Send ack, Emit (EvEstablished i)])" "frame_ty hello = Hello" "frame_fits ack"
    and push: "Session_on_frame d (Session_set_paused pc False) push t2 None =
      (pc1, [Emit (ClipArrived c ct body n t), Send ack2])" "frame_fits ack2"
    and req: "Session_on_frame d (Session_set_paused pc1 False) req t3 None = (pc2, [Emit StageListRequested])"
      "Session_send_stage_list d pc2 (StageRing_list (ag_stage st)) = (pc3, Inr reply)" "frame_fits reply"
    and st: "\<not> ag_paused st"
  defines "seen \<equiv> [Wrote ack, Event (PeerConnected (DeviceId_hex i)), Event (AgentClipArrived ct body n), Wrote ack2, Wrote reply]"
  shows "handle_connection d w [plain_input (NextFrame hello) t1 rf, plain_input (NextFrame push) t2 None,
      plain_input (NextFrame req) t3 None] st = (st, seen @ [Event (PeerDisconnected (DeviceId_hex i))], Inr ())"
    and "Session_on_frame d (Session_set_paused pc3 False) get t4 None = (pc4, [Emit (StageItemRequested k)]) \<Longrightarrow>
      StageRing_get (ag_stage st) k = Some clip \<Longrightarrow> Session_send_stage_item d pc4 clip = (pc5, Inr item) \<Longrightarrow>
      frame_fits item \<Longrightarrow>
      handle_connection d w [plain_input (NextFrame hello) t1 rf, plain_input (NextFrame push) t2 None,
        plain_input (NextFrame req) t3 None, plain_input (NextFrame get) t4 None] st =
      (st, seen @ [Wrote item, Event (PeerDisconnected (DeviceId_hex i))], Inr ())"
proof -
  have sends: "frame_fits f \<Longrightarrow> wire_send None f = Inr ()" for f by (simp add: wire_send_ok frame_fits_def)
  note run = handle_connection_def run_session_def plain_input_def Let_def AgentState_is_paused_def handle_event_def
    disconnect_def seen_def
  have again: "Session_set_paused (Session_set_paused s p) q = Session_set_paused s q" for s p q
    by (simp add: Session_set_paused_def)
  show "handle_connection d w [plain_input (NextFrame hello) t1 rf, plain_input (NextFrame push) t2 None,
      plain_input (NextFrame req) t3 None] st = (st, seen @ [Event (PeerDisconnected (DeviceId_hex i))], Inr ())"
    using hello push req st by (simp add: run again sends)
  assume "Session_on_frame d (Session_set_paused pc3 False) get t4 None = (pc4, [Emit (StageItemRequested k)])"
    "StageRing_get (ag_stage st) k = Some clip" "Session_send_stage_item d pc4 clip = (pc5, Inr item)" "frame_fits item"
  then show "handle_connection d w [plain_input (NextFrame hello) t1 rf, plain_input (NextFrame push) t2 None,
        plain_input (NextFrame req) t3 None, plain_input (NextFrame get) t4 None] st =
      (st, seen @ [Wrote item, Event (PeerDisconnected (DeviceId_hex i))], Inr ())"
    using hello push req st by (simp add: run again sends)
qed

section \<open>The simulated peer\<close>

text \<open>The inputs of a run in which every step goes through: seeds, clocks and the agent's answers.\<close>

definition honest_run ::
  "bytes \<Rightarrow> bytes \<Rightarrow> bytes \<Rightarrow> bytes \<Rightarrow> (sim_step \<Rightarrow> u64) \<Rightarrow> (sim_step \<Rightarrow> u64) \<Rightarrow> Frame \<Rightarrow> Frame \<Rightarrow> Frame \<Rightarrow> Frame
     \<Rightarrow> Frame list \<Rightarrow> sim_in" where
  "honest_run seed e1 e2 clip_id now reply_now pair_ack hello_ack clip_ack list_reply items =
     \<lparr> sp_seed = Some seed, sp_connect = Connected_ok, sp_reconnect = Connected_ok,
       sp_rnd = (\<lambda>s. case s of StepPair \<Rightarrow> Some e1 | StepHello \<Rightarrow> Some e2 | StepPush \<Rightarrow> Some clip_id | _ \<Rightarrow> None),
       sp_now = now, sp_send_err = (\<lambda>s. None),
       sp_reply = (\<lambda>s. case s of
          StepPair \<Rightarrow> Some (Inr pair_ack) | StepConfirm \<Rightarrow> None | StepHello \<Rightarrow> Some (Inr hello_ack)
        | StepPush \<Rightarrow> Some (Inr clip_ack) | StepList \<Rightarrow> Some (Inr list_reply)
        | StepGet \<Rightarrow> (case items of [] \<Rightarrow> None | f # _ \<Rightarrow> Some (Inr f))),
       sp_reply_now = reply_now \<rparr>"

lemma sim_sends: "frame_fits f \<Longrightarrow> sim_send None f = Inr ()"
  by (simp add: sim_send_def wire_send_ok [THEN iffD2] frame_fits_def)

lemma sim_pair_done:
  assumes "PhonePairing_start d me SIM_NAME qr (Some e1) = Inr (ph, req)" "frame_fits req" "frame_ty ack = PairAck"
    and "PhonePairing_on_frame d ph ack = (ph1, [ShowSas sas])"
    and "confirm_sas d ph1 (now StepConfirm) = (ph2, [PSend conf, Completed record])" "frame_fits conf"
  shows "sim_pair d (honest_run seed e1 e2 clip_id now rnow ack a2 a3 a4 as) me qr host = Inr (record, [req, conf])"
  using assms by (simp add: sim_pair_def honest_run_def connect_def sim_core_def sim_sends expect_frame_def)

lemma sim_visit_done:
  assumes "PairingRecord_device_id_bytes d record = Inr dev" "PairingRecord_public_key_bytes d record = Inr pk"
    and "start_phone d me \<lparr> pk_device_id = dev, pk_public_key = pk \<rparr> (now StepHello) (Some e2) = Inr (ph, hello)"
    and "frame_fits hello" "frame_ty hack = HelloAck"
    and "Session_on_frame d ph hack (rnow StepHello) None = (ph0, [Emit (EvEstablished peer)])"
    and "Session_push_clip d ph0 Text (as_bytes SIM_TEXT) SIM_NAME (now StepPush) (Some clip_id) = (ph1, Inr (push, clip_id))"
    and "frame_fits push" "frame_ty cack = ClipAck"
    and "Session_on_frame d ph1 cack (rnow StepPush) None = (ph2, [Emit (ClipAcked clip_id 0)])"
    and "Session_request_stage_list d ph2 = (ph3, Inr req)" "frame_fits req" "frame_ty reply = StageList"
    and "Session_on_frame d ph3 reply (rnow StepList) None = (ph4, [Emit (EvStageList metas)])"
  shows "sim_handshake d (honest_run seed e1 e2 clip_id now rnow a1 hack cack reply as) me record host = Inr (ph0, hello)"
    "sim_beam d (honest_run seed e1 e2 clip_id now rnow a1 hack cack reply as) ph0 = Inr (ph2, push)"
    "sim_list d (honest_run seed e1 e2 clip_id now rnow a1 hack cack reply as) ph2 = Inr (ph4, req, metas)"
  using assms
  by (simp_all add: sim_handshake_def sim_beam_def sim_list_def honest_run_def connect_def sim_core_def sim_sends
      expect_frame_def)

lemma sim_get_done:
  "sim_get d i ph [] = Inr None"
  "Session_request_stage_item d ph (sm_stage_id m) = (ph1, Inr req) \<Longrightarrow> frame_fits req \<Longrightarrow> frame_ty item = StageItem \<Longrightarrow>
     Session_on_frame d ph1 item (rnow StepGet) None = (ph2, [Emit (EvStageItem k ct body)]) \<Longrightarrow>
     sim_get d (honest_run seed e1 e2 clip_id now rnow a1 a2 a3 a4 [item]) ph (m # ms) = Inr (Some (req, body))"
  by (simp_all add: sim_get_def honest_run_def sim_core_def sim_sends expect_frame_def)

text \<open>A visit after pairing, from both sides; \<open>gets\<close> and \<open>items\<close> are empty when nothing is staged.\<close>

definition sim_visit ::
  "deps \<Rightarrow> sim_in \<Rightarrow> IdentityKeypair \<Rightarrow> PairingRecord \<Rightarrow> rstr \<Rightarrow> SimError + StageMeta list \<times> bytes option \<times> Frame list" where
  "sim_visit d i me record host =
     try_r (sim_handshake d i me record host) (\<lambda>(session, hello).
     try_r (sim_beam d i session) (\<lambda>(session, push).
     try_r (sim_list d i session) (\<lambda>(session, req, items).
     try_r (sim_get d i session items) (\<lambda>got.
       Inr (items, map_option snd got, [hello, push, req] @ (case got of None \<Rightarrow> [] | Some (f, b) \<Rightarrow> [f]))))))"

lemma simulate_run_visit:
  assumes "QrPayload_parse d url = Inr qr" "sp_seed i = Some seed" "qr_hosts qr = host # hosts"
    and "sim_pair d i (IdentityKeypair_from_seed d seed) qr host = Inr (record, frames)"
    and "sim_visit d i (IdentityKeypair_from_seed d seed) record host = Inr (items, body, out)"
  shows "simulate_run d i url = Inr \<lparr> sd_record = record, sd_items = items, sd_body = body,
    sd_pairing_frames = frames, sd_session_frames = out \<rparr>"
  using assms
  by (auto simp: simulate_run_def sim_visit_def IdentityKeypair_generate_def sim_core_def try_r_eq_Inr split: prod.splits)

lemma paired_handshake:
  assumes d: "deps_ok d" "hex_faithful d" "base64_faithful d"
    and ids: "phone = IdentityKeypair_from_seed d a" "pc = IdentityKeypair_from_seed d b"
    and lens: "length a = 32" "length b = 32" "length e = 32" "length f = 32"
    and st: "pc_paired_with d st pc phone" and skew: "abs_diff t1 t2 \<le> HELLO_TS_WINDOW_MS"
  obtains ph hello pc1 ack ph0 where
    "start_phone d phone (peer_key_of d pc) t1 (Some e) = Inr (ph, hello)"
    "Session_on_frame d (Session_set_paused (Session_new_pc pc (AgentState_peer_keys d st) t2) False) hello t2 (Some f) =
       (pc1, [Send ack, Emit (EvEstablished (IdentityKeypair_device_id d phone))])"
    "Session_on_frame d ph ack t3 None = (ph0, [Emit (EvEstablished (IdentityKeypair_device_id d pc))])"
    "paired_sessions d ph0 pc1" "fresh_channel ph0" "fresh_channel pc1" "frame_fits hello" "frame_fits ack"
    "frame_ty hello = Hello" "frame_ty ack = HelloAck"
proof -
  have w: "length (device_bytes (IdentityKeypair_device_id d phone)) = 16" "length (id_public phone) = 32"
    using deps_okD(2) [OF d(1)]
    by (simp_all add: ids IdentityKeypair_device_id_def IdentityKeypair_from_seed_def fixed_widthsD)
  have known: "find (\<lambda>p. pk_device_id p = IdentityKeypair_device_id d phone) (AgentState_peer_keys d st) = Some (peer_key_of d phone)"
    using st find_peer_key [OF d(2,3) _ w]
    by (auto simp: pc_paired_with_def AgentState_peer_keys_def peer_key_of_def)
  show thesis
    using handshake_run [OF d(1) ids lens known skew, of t2 False t3 None] that by blast
qed

lemma visit_frames:
  assumes d: "deps_ok d" "hex_faithful d" "base64_faithful d"
    and ids: "phone = IdentityKeypair_from_seed d a" "pc = IdentityKeypair_from_seed d b"
    and lens: "length a = 32" "length b = 32" "length e2 = 32" "length f = 32" "length clip_id = 8"
    and st: "pc_paired_with d st pc phone" "\<not> ag_paused st" "stage_ok (ag_stage st)"
    and skew: "abs_diff (now StepHello) (pnow StepHello) \<le> HELLO_TS_WINDOW_MS"
  obtains ph hello pc1 hack ph0 ph1 push pc2 cack ph2 ph3 req pc3 pc4 reply ph4 where
    "start_phone d phone (peer_key_of d pc) (now StepHello) (Some e2) = Inr (ph, hello)"
    "Session_on_frame d (Session_set_paused (Session_new_pc pc (AgentState_peer_keys d st) (pnow StepHello)) False) hello
       (pnow StepHello) (Some f) = (pc1, [Send hack, Emit (EvEstablished (IdentityKeypair_device_id d phone))])"
    "Session_on_frame d ph hack (rnow StepHello) None = (ph0, [Emit (EvEstablished (IdentityKeypair_device_id d pc))])"
    "paired_sessions d ph0 pc1" "fresh_channel ph0" "fresh_channel pc1" "frame_fits hello" "frame_fits hack"
    "frame_ty hello = Hello" "frame_ty hack = HelloAck"
    "Session_push_clip d ph0 Text (as_bytes SIM_TEXT) SIM_NAME (now StepPush) (Some clip_id) = (ph1, Inr (push, clip_id))"
    "frame_fits push" "Session_on_frame d (Session_set_paused pc1 False) push (pnow StepPush) None =
      (pc2, [Emit (ClipArrived clip_id Text (as_bytes SIM_TEXT) SIM_NAME (now StepPush)), Send cack])"
    "frame_fits cack" "frame_ty cack = ClipAck"
    "Session_on_frame d ph1 cack (rnow StepPush) None = (ph2, [Emit (ClipAcked clip_id 0)])"
    "Session_request_stage_list d ph2 = (ph3, Inr req)" "frame_fits req"
    "Session_on_frame d (Session_set_paused pc2 False) req (pnow StepList) None = (pc3, [Emit StageListRequested])"
    "Session_send_stage_list d pc3 (StageRing_list (ag_stage st)) = (pc4, Inr reply)" "frame_fits reply" "frame_ty reply = StageList"
    "Session_on_frame d ph3 reply (rnow StepList) None = (ph4, [Emit (EvStageList (StageRing_list (ag_stage st)))])"
    "paired_sessions d ph4 pc4" "sent ph4 = 2" "sent pc4 = 2"
proof -
  obtain ph hello pc1 hack ph0 where hs:
    "start_phone d phone (peer_key_of d pc) (now StepHello) (Some e2) = Inr (ph, hello)"
    "Session_on_frame d (Session_set_paused (Session_new_pc pc (AgentState_peer_keys d st) (pnow StepHello)) False) hello
       (pnow StepHello) (Some f) = (pc1, [Send hack, Emit (EvEstablished (IdentityKeypair_device_id d phone))])"
    "Session_on_frame d ph hack (rnow StepHello) None = (ph0, [Emit (EvEstablished (IdentityKeypair_device_id d pc))])"
    "paired_sessions d ph0 pc1" "fresh_channel ph0" "fresh_channel pc1" "frame_fits hello" "frame_fits hack"
    "frame_ty hello = Hello" "frame_ty hack = HelloAck"
    by (rule paired_handshake [OF d ids lens(1-4) st(1) skew, of "rnow StepHello"])
  have sizes: "length (as_bytes SIM_TEXT) \<le> MAX_TEXT_CLIP" "valid_str SIM_NAME" "str_len SIM_NAME \<le> MAX_TEXT_CLIP"
    by (simp_all add: SIM_TEXT_def SIM_NAME_def MAX_TEXT_CLIP_def valid_str_def valid_char_def lit_def str_len_def
        as_bytes_def utf8_char_def)
  obtain ph1 push pc2 cack ph2 ph3 req pc3 pc4 reply ph4 where cl:
    "Session_push_clip d ph0 Text (as_bytes SIM_TEXT) SIM_NAME (now StepPush) (Some clip_id) = (ph1, Inr (push, clip_id))"
    "frame_fits push" "Session_on_frame d (Session_set_paused pc1 False) push (pnow StepPush) None =
      (pc2, [Emit (ClipArrived clip_id Text (as_bytes SIM_TEXT) SIM_NAME (now StepPush)), Send cack])"
    "frame_fits cack" "frame_ty cack = ClipAck"
    "Session_on_frame d ph1 cack (rnow StepPush) None = (ph2, [Emit (ClipAcked clip_id 0)])"
    "Session_request_stage_list d ph2 = (ph3, Inr req)" "frame_fits req"
    "Session_on_frame d (Session_set_paused pc2 False) req (pnow StepList) None = (pc3, [Emit StageListRequested])"
    "Session_send_stage_list d pc3 (StageRing_list (ag_stage st)) = (pc4, Inr reply)" "frame_fits reply" "frame_ty reply = StageList"
    "Session_on_frame d ph3 reply (rnow StepList) None = (ph4, [Emit (EvStageList (StageRing_list (ag_stage st)))])"
    "paired_sessions d ph4 pc4" "sent ph4 = 2" "sent pc4 = 2"
    using clip_and_list [OF d(1) hs(4) fresh_sent [OF hs(5)] fresh_sent [OF hs(6)] lens(5) sizes st(3)] by metis
  show thesis by (rule that [OF hs cl])
qed

lemma visit_both_sides:
  assumes d: "deps_ok d" "hex_faithful d" "base64_faithful d"
    and ids: "phone = IdentityKeypair_from_seed d a" "pc = IdentityKeypair_from_seed d b"
    and lens: "length a = 32" "length b = 32" "length e2 = 32" "length f = 32" "length clip_id = 8"
    and st: "pc_paired_with d st pc phone" "\<not> ag_paused st" "stage_ok (ag_stage st)"
    and rcd: "record = PairingRecord_new d (IdentityKeypair_device_id d pc) (id_public pc) n t"
    and skew: "abs_diff (now StepHello) (pnow StepHello) \<le> HELLO_TS_WINDOW_MS"
  shows "\<exists>hello hack push cack req reply gets items.
    handle_connection d w ([plain_input (NextFrame hello) (pnow StepHello) (Some f), plain_input (NextFrame push) (pnow StepPush) None,
        plain_input (NextFrame req) (pnow StepList) None] @ map (\<lambda>g. plain_input (NextFrame g) (pnow StepGet) None) gets) st =
      (st, [Wrote hack, Event (PeerConnected (DeviceId_hex (IdentityKeypair_device_id d phone))),
            Event (AgentClipArrived Text (as_bytes SIM_TEXT) SIM_NAME), Wrote cack, Wrote reply] @ map Wrote items @
           [Event (PeerDisconnected (DeviceId_hex (IdentityKeypair_device_id d phone)))], Inr ()) \<and>
    (\<forall>seed e1 a1. sim_visit d (honest_run seed e1 e2 clip_id now rnow a1 hack cack reply items) phone record host =
      Inr (StageRing_list (ag_stage st), map_option sc_body (StageRing_newest (ag_stage st)), [hello, push, req] @ gets))"
    (is "\<exists>hello hack push cack req reply gets items. ?P hello hack push cack req reply gets items")
proof -
  let ?r = "ag_stage st"
  have w: "length (device_bytes (IdentityKeypair_device_id d pc)) = 16" "length (id_public pc) = 32"
    using deps_okD(2) [OF d(1)] by (simp_all add: ids IdentityKeypair_device_id_def IdentityKeypair_from_seed_def fixed_widthsD)
  have id: "ag_identity st = pc" using st(1) by (simp add: pc_paired_with_def)
  obtain ph hello pc1 hack ph0 ph1 push pc2 cack ph2 ph3 req pc3 pc4 reply ph4 where hs:
    "start_phone d phone (peer_key_of d pc) (now StepHello) (Some e2) = Inr (ph, hello)"
    "Session_on_frame d (Session_set_paused (Session_new_pc pc (AgentState_peer_keys d st) (pnow StepHello)) False) hello
       (pnow StepHello) (Some f) = (pc1, [Send hack, Emit (EvEstablished (IdentityKeypair_device_id d phone))])"
    "Session_on_frame d ph hack (rnow StepHello) None = (ph0, [Emit (EvEstablished (IdentityKeypair_device_id d pc))])"
    "paired_sessions d ph0 pc1" "fresh_channel ph0" "fresh_channel pc1" "frame_fits hello" "frame_fits hack"
    "frame_ty hello = Hello" "frame_ty hack = HelloAck"
    and cl: "Session_push_clip d ph0 Text (as_bytes SIM_TEXT) SIM_NAME (now StepPush) (Some clip_id) = (ph1, Inr (push, clip_id))"
    "frame_fits push" "Session_on_frame d (Session_set_paused pc1 False) push (pnow StepPush) None =
      (pc2, [Emit (ClipArrived clip_id Text (as_bytes SIM_TEXT) SIM_NAME (now StepPush)), Send cack])"
    "frame_fits cack" "frame_ty cack = ClipAck"
    "Session_on_frame d ph1 cack (rnow StepPush) None = (ph2, [Emit (ClipAcked clip_id 0)])"
    "Session_request_stage_list d ph2 = (ph3, Inr req)" "frame_fits req"
    "Session_on_frame d (Session_set_paused pc2 False) req (pnow StepList) None = (pc3, [Emit StageListRequested])"
    "Session_send_stage_list d pc3 (StageRing_list ?r) = (pc4, Inr reply)" "frame_fits reply" "frame_ty reply = StageList"
    "Session_on_frame d ph3 reply (rnow StepList) None = (ph4, [Emit (EvStageList (StageRing_list ?r))])"
    "paired_sessions d ph4 pc4" "sent ph4 = 2" "sent pc4 = 2"
    by (rule visit_frames [where now = now and pnow = pnow and rnow = rnow, OF d ids lens st skew])
  note keys = record_keys [OF d(2,3) w, of n t, folded rcd]
  note phone = sim_visit_done [OF keys, folded peer_key_of_def, OF hs(1,7,10,3) cl(1,2,5,6,7,8,12,13)]
  note agent = visit_served [OF hs(2) [folded id] hs(9,8) cl(3,4,9,10,11) st(2)]
  show ?thesis
  proof (cases "ring_items ?r")
    case Nil
    then have "StageRing_list ?r = []" "StageRing_newest ?r = None"
      by (simp_all add: StageRing_list_def StageRing_newest_def)
    then have "?P hello hack push cack req reply [] []"
      using agent(1) phone by (simp add: sim_visit_def sim_get_done(1))
    then show ?thesis by blast
  next
    case (Cons c0 cs)
    define c where "c = last (ring_items ?r)"
    have ne: "ring_items ?r \<noteq> []" using Cons by simp
    have l: "StageRing_list ?r = meta_of c # map meta_of (tl (rev (ring_items ?r)))" "StageRing_newest ?r = Some c"
      using ne by (simp_all add: StageRing_list_def StageRing_newest_def c_def)
        (metis hd_Cons_tl hd_rev list.simps(9) rev_is_Nil_conv)
    obtain ph5 get pc5 pc6 item ph6 where it:
      "Session_request_stage_item d ph4 (sc_stage_id c) = (ph5, Inr get)" "frame_fits get"
      "Session_on_frame d (Session_set_paused pc4 False) get (pnow StepGet) None = (pc5, [Emit (StageItemRequested (sc_stage_id c))])"
      "Session_send_stage_item d pc5 c = (pc6, Inr item)" "frame_fits item" "frame_ty item = StageItem"
      "Session_on_frame d ph5 item (rnow StepGet) None = (ph6, [Emit (EvStageItem (sc_stage_id c) (sc_content_type c) (sc_body c))])"
      using newest_item [OF d(1) cl(14-16) st(3) ne c_def, of "pnow StepGet" "rnow StepGet"] by blast
    have "sm_stage_id (meta_of c) = sc_stage_id c" by (simp add: meta_of_def)
    then have "?P hello hack push cack req reply [get] [item]"
      using agent(2) [OF it(3) get_newest [OF st(3) ne, folded c_def] it(4,5)] phone l
        sim_get_done(2) [of d ph4 "meta_of c" ph5 get item rnow ph6] it(1,2,6,7)
      by (simp add: sim_visit_def)
    then show ?thesis by blast
  qed
qed

end
