(* ===== verification/Fuzz.thy ===== *)
theory Fuzz
  imports Frame
begin

text \<open>
  The fuzz target of the frame decoder (\<open>fuzz/fuzz_targets/frame.rs\<close>): decode a buffer once as a
  slice, then drain it through the codec, re-encoding each frame and decoding it again. A
  failed assertion is a panic; the theorem says that no input reaches one.
\<close>

datatype fuzz_outcome = Passed | Panicked

function fuzz_loop :: "bytes \<Rightarrow> fuzz_outcome" where
  "fuzz_loop buf =
     (case FrameCodec_decode buf of
        (buf', Inr (Some frame)) \<Rightarrow>
          (case Frame_decode (Frame_encode frame) of
             Inr (Some (again, used)) \<Rightarrow> if again = frame then fuzz_loop buf' else Panicked
           | _ \<Rightarrow> Panicked)
      | _ \<Rightarrow> Passed)"
  by pat_completeness auto

text \<open>Every frame takes at least its header from the buffer.\<close>

lemma decoded_shorter:
  assumes "(buf', Inr (Some f)) = FrameCodec_decode buf"
  shows "length buf' < length buf"
  using codec_decode_some [OF assms [symmetric]] by (simp add: HEADER_LEN_def)

termination fuzz_loop
  by (relation "measure length") (auto dest: decoded_shorter)

declare fuzz_loop.simps [simp del]

definition fuzz_target :: "bytes \<Rightarrow> fuzz_outcome" where
  "fuzz_target data = (case Frame_decode data of _ \<Rightarrow> fuzz_loop data)"

lemma decode_of_encode:
  assumes "frame_fits f"
  obtains used where "Frame_decode (Frame_encode f) = Inr (Some (f, used))"
proof -
  have "Frame_decode_rest (Frame_encode f) = ([], Inr (Some f))"
    using codec_decode_encode [OF assms, of "[]"] by (simp add: Frame_decode_rest_eq)
  then show ?thesis using that by (auto simp: Frame_decode_rest_def split: sum.splits option.splits)
qed

text \<open>
  C31: The fuzz target holds for every input: on any bytes whatever, the drain ends, and each frame
  the codec yields decodes again from its own encoding, so no assertion of the target fails.
\<close>

theorem fuzz_target_never_panics: "fuzz_target data = Passed"
proof -
  have "fuzz_loop buf = Passed" for buf
  proof (induction buf rule: fuzz_loop.induct)
    case (1 buf)
    show ?case
    proof (cases "\<exists>buf' f. FrameCodec_decode buf = (buf', Inr (Some f))")
      case True
      then obtain buf' f where c: "FrameCodec_decode buf = (buf', Inr (Some f))" by blast
      obtain used where e: "Frame_decode (Frame_encode f) = Inr (Some (f, used))"
        by (rule decode_of_encode [OF codec_decode_some [OF c, THEN conjunct1]])
      have "fuzz_loop buf' = Passed" using 1 [OF c [symmetric] refl refl e refl refl refl] by simp
      then show ?thesis by (subst fuzz_loop.simps) (simp add: c e)
    next
      case False
      then show ?thesis by (subst fuzz_loop.simps) (auto split: prod.split sum.split option.split)
    qed
  qed
  then show ?thesis by (simp add: fuzz_target_def split: sum.split option.split)
qed

end
