(* ===== verification/AgentSteps.thy ===== *)
theory AgentSteps
  imports AgentFacts
begin

text \<open>
  The running agent as a transition system. Its shared state is changed by connections, by the
  tray's commands and by the clipboard watcher; whenever a connection's task waits, any of the
  others may run. The relation \<open>agent_reach\<close> is what any number of them, interleaved in any
  way, can do to the state, and the invariant below holds in every state it reaches.
\<close>

section \<open>Steps\<close>

text \<open>
  A connection step runs the task over its inputs; the changes its inputs carry are themselves
  things the agent does meanwhile. A staged clip's identifier is the eight random bytes drawn.
\<close>

inductive agent_reach :: "deps \<Rightarrow> platform \<Rightarrow> AgentState \<Rightarrow> AgentState \<Rightarrow> bool" for d w where
  stay: "agent_reach d w st st"
| connection: "agent_reach d w st st1 \<Longrightarrow> (\<And>i s. i \<in> set is \<Longrightarrow> agent_reach d w s (in_update i s)) \<Longrightarrow>
    agent_reach d w st (fst (serve_accept d w ip now is st1))"
| command: "agent_reach d w st st1 \<Longrightarrow> agent_reach d w st (fst (shell_loop d idle [(cmd, i)] st1 sh))"
| copied: "agent_reach d w st st1 \<Longrightarrow> (\<And>k. rnd = Some k \<Longrightarrow> length k = 8) \<Longrightarrow>
    agent_reach d w st (stage_copied rnd now st1 ev)"

section \<open>The invariant\<close>

definition agent_inv :: "deps \<Rightarrow> platform \<Rightarrow> IdentityKeypair \<Rightarrow> AgentState \<Rightarrow> bool" where
  "agent_inv d w identity st \<longleftrightarrow>
     durable d w st \<and> distinct (map pr_device_id (ag_peers st)) \<and> ag_identity st = identity \<and>
     ring_inv (ag_stage st) \<and> ring_depth (ag_stage st) = STAGE_DEPTH \<and>
     (\<forall>c \<in> set (ring_items (ag_stage st)). length (sc_stage_id c) = 8)"

lemma agent_inv_update [simp]:
  "agent_inv d w k (st\<lparr> ag_rate := l \<rparr>) = agent_inv d w k st"
  "agent_inv d w k (st\<lparr> ag_paused := p \<rparr>) = agent_inv d w k st"
  "agent_inv d w k (st\<lparr> ag_pairing := q \<rparr>) = agent_inv d w k st"
  by (simp_all add: agent_inv_def durable_def)

lemma upsert_distinct:
  assumes "distinct (map pr_device_id rs)" "load_pairings w no_faults fs = Inr rs"
    "upsert_pairing w io fs r = (fs', Inr all)"
  shows "distinct (map pr_device_id all)"
proof -
  have "distinct (map pr_device_id (unwrap_or (load_pairings w io fs) []))"
    using assms(1,2)
    by (cases "io_read io PAIRINGS_FILE") (auto simp: load_pairings_def fs_read_def no_faults_def unwrap_or_def split: sum.splits)
  then show ?thesis
    using assms(3) by (auto simp: upsert_pairing_def Let_def distinct_map_filter split: prod.splits sum.splits)
qed

interpretation agent: shared_invariant w "\<lambda>st. platform_ok w \<and> agent_inv d w k st" for d w k
proof unfold_locales
  fix st io r fs e
  assume st: "platform_ok w \<and> agent_inv d w k st"
  then have dur: "platform_ok w" "durable d w st" by (simp_all add: agent_inv_def)
  show "platform_ok w \<and> agent_inv d w k (st\<lparr> ag_files := fs \<rparr>)"
    if "upsert_pairing w io (ag_files st) r = (fs, Inl e)"
    using upsert_durable(1) [OF dur that] st by (simp add: agent_inv_def)
  fix all
  show "platform_ok w \<and> agent_inv d w k (st\<lparr> ag_files := fs, ag_peers := all, ag_pairing := None \<rparr>)"
    if "upsert_pairing w io (ag_files st) r = (fs, Inr all)"
    using upsert_durable(2) [OF dur that, of None] upsert_distinct [of "ag_peers st", OF _ _ that] st
    by (simp add: agent_inv_def durable_def)
qed

lemma command_keeps:
  "agent_inv d w k st \<Longrightarrow> agent_inv d w k (fst (shell_loop d idle [(cmd, i)] st sh))"
proof (cases cmd)
  case OpenPairing
  assume inv: "agent_inv d w k st"
  obtain st' r where o: "open_pairing_window d (si_ifaces i) (si_rnd i) (si_now i) st (AgentState_listen_port st) = (st', r)"
    by fastforce
  have "st' = st \<or> (\<exists>q. st' = st\<lparr> ag_pairing := q \<rparr>)"
    using o by (auto simp: open_pairing_window_def Let_def split: option.splits if_splits)
  then show ?thesis using inv o OpenPairing by (auto split: sum.split)
qed (auto split: prod.split)

lemma copied_keeps:
  assumes "agent_inv d w k st" "\<And>i. rnd = Some i \<Longrightarrow> length i = 8"
  shows "agent_inv d w k (stage_copied rnd now st ev)"
proof -
  let ?push = "StageRing_push (ag_stage st) (ce_content_type ev) (ce_body ev) now rnd"
  have "ring_inv (fst ?push)" "ring_depth (fst ?push) = ring_depth (ag_stage st)"
    "\<forall>c \<in> set (ring_items (fst ?push)). length (sc_stage_id c) = 8"
    using assms
    by (auto simp: agent_inv_def StageRing_push_def StageRing_push_with_id_def ring_inv_def Let_def not_less
        split: option.splits dest: in_set_dropD)
  then show ?thesis
    using assms(1) by (auto simp: stage_copied_def agent_inv_def durable_def case_prod_unfold)
qed

lemma reach_keeps:
  assumes "platform_ok w" "agent_reach d w st st'" "agent_inv d w k st"
  shows "agent_inv d w k st'"
  using assms(2,3)
proof (induction rule: agent_reach.induct)
  case (connection st st1 "is" ip now)
  have "steady (\<lambda>s. platform_ok w \<and> agent_inv d w k s) is"
    using connection.IH(2) by (simp add: steady_def)
  moreover have "agent_inv d w k (st1\<lparr> ag_rate := l \<rparr>)" for l using connection.IH(1) connection.prems by simp
  ultimately show ?case
    using agent.connection_keeps [of w d k "is"] assms(1)
    by (auto simp: serve_accept_def Let_def case_prod_unfold)
qed (simp_all add: command_keeps copied_keeps del: shell_loop.simps)

text \<open>
  C12: The agent keeps its invariant. Start the services on a readable directory whose pairings are
  of different devices, and let connections, tray commands and copies run in any number and
  order, connections being interleaved with all of them wherever they wait and file
  operations failing at will: the identity never changes, memory and disk agree, no device
  is paired twice, and the ring holds at most its depth of clips, none over the cap, each under
  an eight-byte identifier. So a restart at any moment restores what the agent had.
\<close>

theorem running_agent_keeps_invariant:
  assumes "platform_ok w" "readable w fs" "su_io su = no_faults"
    and "\<forall>seed. su_seed su = Some seed \<longrightarrow> length seed = 32"
    and "start_services d w su fs op = (fs0, calls, Inr (st0, view))"
    and "distinct (map pr_device_id (ag_peers st0))"
    and "agent_reach d w st0 st"
  shows "ag_identity st = ag_identity st0 \<and>
    load_pairings w no_faults (ag_files st) = Inr (ag_peers st) \<and>
    load_or_create_identity d w no_faults (ag_files st) rnd = (ag_files st, Inr (ag_identity st)) \<and>
    distinct (map pr_device_id (ag_peers st)) \<and>
    length (ring_items (ag_stage st)) \<le> STAGE_DEPTH \<and>
    (\<forall>c \<in> set (ring_items (ag_stage st)). length (sc_body c) \<le> MAX_TEXT_CLIP \<and> length (sc_stage_id c) = 8)"
proof -
  have "ag_stage st0 = StageRing_default"
    using assms(5)
    by (auto simp: start_services_def AgentState_new_def AgentState_set_listen_port_def open_pairing_window_def Let_def
        split: option.splits prod.splits sum.splits if_splits)
  then have "agent_inv d w (ag_identity st0) st0"
    using services_durable [OF assms(1,3,4,2,5)] assms(6)
    by (simp add: agent_inv_def StageRing_default_def ring_inv_new) (simp add: StageRing_new_def STAGE_DEPTH_def)
  from reach_keeps [OF assms(1,7) this] have inv: "agent_inv d w (ag_identity st0) st" .
  then have "load_or_create_identity d w no_faults (ag_files st) rnd = (ag_files st, Inr (ag_identity st))"
    by (auto simp: agent_inv_def durable_def load_or_create_identity_def fs_read_def no_faults_def unseal_def
        unprotect_def context_r_def)
  then show ?thesis using inv by (auto simp: agent_inv_def durable_def ring_inv_def)
qed

definition demo_ran :: AgentState where
  "demo_ran = stage_copied (Some (replicate 8 5)) 9
     (fst (serve_accept demo_deps demo_platform demo_ip 7 demo_bad_pairing
       (fst (shell_loop demo_deps Idle [(SetPaused True, demo_shell_in)] demo_started demo_shell))))
     \<lparr> ce_content_type = Text, ce_body = [72, 105] \<rparr>"

theorem running_agent_keeps_invariant_witness:
  "agent_reach demo_deps demo_platform demo_started demo_ran \<and>
   ag_identity demo_ran = ag_identity demo_started \<and>
   load_pairings demo_platform no_faults (ag_files demo_ran) = Inr (ag_peers demo_ran) \<and>
   length (ring_items (ag_stage demo_ran)) \<le> STAGE_DEPTH"
proof -
  obtain fs0 calls0 st0 view0 where a: "start_services demo_deps demo_platform (demo_startup (Some (replicate 32 5))) Map.empty False =
      (fs0, calls0, Inr (st0, view0))"
    using demo_starts by blast
  have st0: "st0 = demo_started" using a by (simp add: demo_started_def)
  have none: "ag_peers st0 = []"
    using started_services [OF a] identity_durable [OF demo_platform_ok, of "Some (replicate 32 5)" demo_deps Map.empty fs0]
    by (auto simp: demo_startup_def load_pairings_def)
  have quiet: "agent_reach demo_deps demo_platform s (in_update i s)" if "i \<in> set demo_bad_pairing" for i s
    using that by (auto simp: demo_bad_pairing_def plain_input_def intro: agent_reach.stay)
  have r: "agent_reach demo_deps demo_platform st0 demo_ran"
    unfolding demo_ran_def st0
    by (intro agent_reach.copied agent_reach.connection agent_reach.command agent_reach.stay quiet) auto
  show ?thesis
    using running_agent_keeps_invariant [OF demo_platform_ok demo_readable _ _ a _ r] r none st0
    by (simp add: demo_startup_def)
qed

end
