(* ===== verification/Network.thy ===== *)
theory Network
  imports SessionTraffic "HOL-Library.Sublist"
begin

text \<open>
  Two established sessions and the network between them. Each end runs any sequence of calls
  and arrivals; the network may lose, delay, reorder and repeat frames and put in frames of its
  own, as long as it cannot make one that opens under the session key. What one end reports is
  then an ordered selection, without repetitions, of what the other end's caller asked for: to
  its client a session is a queue that may lose entries and does nothing else to them.
\<close>

section \<open>One end of a connection\<close>

text \<open>The calls of the driver of a session, and the arrival of a frame.\<close>

datatype Activity =
    PushClip ContentType bytes rstr u64 "bytes option"
  | RequestList
  | RequestItem bytes
  | SendList "StageMeta list"
  | SendItem StagedClip
  | PingPeer
  | SetPaused bool
  | Receive Frame u64 "bytes option"

text \<open>
  The frames among a handler's actions, and the events that carry what the peer asked for: all
  but the handshake's, acknowledgements and errors.
\<close>

definition sends :: "SessionAction list \<Rightarrow> Frame list" where
  "sends acts = List.map_filter (\<lambda>a. case a of Send f \<Rightarrow> Some f | _ \<Rightarrow> None) acts"

fun is_request :: "SessionEvent \<Rightarrow> bool" where
  "is_request (EvEstablished p) = False"
| "is_request (ClipArrived i ct body name t) = True"
| "is_request (ClipAcked i st) = False"
| "is_request StageListRequested = True"
| "is_request (StageItemRequested i) = True"
| "is_request (EvStageList ms) = True"
| "is_request (EvStageItem i ct body) = True"
| "is_request (PeerError code msg) = False"

definition requests :: "SessionAction list \<Rightarrow> SessionEvent list" where
  "requests acts = List.map_filter
     (\<lambda>a. case a of Emit e \<Rightarrow> (if is_request e then Some e else None) | _ \<Rightarrow> None) acts"

text \<open>
  One activity: the session it leaves, the frame it hands to the transport, if any, with the
  event the caller means it to be at the other end, and the requests it reports.
\<close>

type_synonym outcome = "Session \<times> (Frame \<times> SessionEvent option) list \<times> SessionEvent list"

definition issue :: "Session \<times> Frame result \<Rightarrow> SessionEvent option \<Rightarrow> outcome" where
  "issue r what = (case r of (s', Inl e) \<Rightarrow> (s', [], []) | (s', Inr f) \<Rightarrow> (s', [(f, what)], []))"

fun act :: "deps \<Rightarrow> Session \<Rightarrow> Activity \<Rightarrow> outcome" where
  "act d s (PushClip ct body name t rnd) =
     (case Session_push_clip d s ct body name t rnd of
        (s', Inl e) \<Rightarrow> (s', [], [])
      | (s', Inr (f, i)) \<Rightarrow> (s', [(f, Some (ClipArrived i ct body name t))], []))"
| "act d s RequestList = issue (Session_request_stage_list d s) (Some StageListRequested)"
| "act d s (RequestItem i) = issue (Session_request_stage_item d s i) (Some (StageItemRequested i))"
| "act d s (SendList ms) = issue (Session_send_stage_list d s ms) (Some (EvStageList ms))"
| "act d s (SendItem c) = issue (Session_send_stage_item d s c)
     (Some (EvStageItem (sc_stage_id c) (sc_content_type c) (sc_body c)))"
| "act d s PingPeer = issue (Session_ping d s) None"
| "act d s (SetPaused p) = (Session_set_paused s p, [], [])"
| "act d s (Receive f now rnd) =
     (case Session_on_frame d s f now rnd of
        (s', acts) \<Rightarrow> (s', map (\<lambda>g. (g, None)) (sends acts), requests acts))"

fun run_end :: "deps \<Rightarrow> Session \<Rightarrow> Activity list \<Rightarrow> outcome" where
  "run_end d s [] = (s, [], [])"
| "run_end d s (a # as) =
     (case act d s a of (s1, out1, evs1) \<Rightarrow>
      case run_end d s1 as of (s2, out2, evs2) \<Rightarrow> (s2, out1 @ out2, evs1 @ evs2))"

text \<open>What an end asked of its peer, what it was told, and the frames it sent and was given.\<close>

definition asked :: "deps \<Rightarrow> Session \<Rightarrow> Activity list \<Rightarrow> SessionEvent list" where
  "asked d s as = List.map_filter snd (fst (snd (run_end d s as)))"

definition told :: "deps \<Rightarrow> Session \<Rightarrow> Activity list \<Rightarrow> SessionEvent list" where
  "told d s as = snd (snd (run_end d s as))"

definition frames_sent :: "deps \<Rightarrow> Session \<Rightarrow> Activity list \<Rightarrow> Frame list" where
  "frames_sent d s as = map fst (fst (snd (run_end d s as)))"

fun arrivals :: "Activity list \<Rightarrow> Frame list" where
  "arrivals [] = []"
| "arrivals (Receive f now rnd # as) = f # arrivals as"
| "arrivals (a # as) = arrivals as"

text \<open>
  The arguments the types of the source and the callers guarantee: eight-byte identifiers,
  well-formed text, a staged list within its bound.
\<close>

fun activity_ok :: "Activity \<Rightarrow> bool" where
  "activity_ok (PushClip ct body name t rnd) \<longleftrightarrow>
     (\<forall>i. rnd = Some i \<longrightarrow> length i = 8) \<and> valid_str name \<and> str_len name \<le> MAX_TEXT_CLIP"
| "activity_ok (RequestItem i) \<longleftrightarrow> length i = 8"
| "activity_ok (SendList ms) \<longleftrightarrow> list_all meta_wire_ok ms \<and> length ms \<le> 1024"
| "activity_ok (SendItem c) \<longleftrightarrow> length (sc_stage_id c) = 8 \<and> length (sc_body c) \<le> MAX_TEXT_CLIP"
| "activity_ok _ \<longleftrightarrow> True"

text \<open>
  The network's limit: whatever opens under the key an end seals with, among the frames given to
  the other end, is a frame that end sent.
\<close>

definition frame_plain :: "deps \<Rightarrow> bytes \<Rightarrow> Frame \<Rightarrow> bytes option" where
  "frame_plain d k f =
     chacha_decrypt d k (nonce_for (u64_from_le_bytes (take 8 (frame_payload f)))) (aad_for (frame_ty f))
       (drop 8 (frame_payload f))"

definition cannot_forge :: "deps \<Rightarrow> Session \<Rightarrow> Activity list \<Rightarrow> Frame list \<Rightarrow> bool" where
  "cannot_forge d s as arrived \<longleftrightarrow>
     (\<forall>ch f. channel s = Some ch \<and> f \<in> set arrived \<and> frame_plain d (dir_key (tx ch)) f \<noteq> None \<longrightarrow>
        f \<in> set (frames_sent d s as))"

lemma requests_simps [simp]:
  "requests [] = []" "requests (Send f # as) = requests as" "requests (Close w # as) = requests as"
  "requests (Emit e # as) = (if is_request e then e # requests as else requests as)"
  by (simp_all add: requests_def List.map_filter_simps)

lemma sends_simps [simp]:
  "sends [] = []" "sends (Send f # as) = f # sends as" "sends (Close w # as) = sends as"
  "sends (Emit e # as) = sends as"
  by (simp_all add: sends_def List.map_filter_simps)

section \<open>Increasing counters\<close>

lemma increasing_subseq:
  fixes c :: "'a \<Rightarrow> nat"
  assumes "sorted_wrt (<) (map c xs)" "sorted_wrt (<) (map c ys)" "set xs \<subseteq> set ys"
  shows "subseq xs ys"
  using assms
proof (induction ys arbitrary: xs)
  case (Cons y ys)
  show ?case
  proof (cases xs)
    case (Cons x xs')
    have gt: "c x < c z" if "z \<in> set xs'" for z using Cons.prems(1) Cons that by auto
    show ?thesis
    proof (cases "x = y")
      case True
      then have "set xs' \<subseteq> set ys" using Cons.prems(3) Cons gt by fastforce
      then show ?thesis using Cons.IH [of xs'] Cons.prems(1,2) Cons True by simp
    next
      case False
      then have "c y < c x" using Cons.prems(2,3) Cons by auto
      then have "y \<notin> set xs" using Cons gt by fastforce
      then show ?thesis using Cons.IH [of xs] Cons.prems by auto
    qed
  qed simp
qed simp

lemma subseq_map_filter: "subseq xs ys \<Longrightarrow> subseq (List.map_filter f xs) (List.map_filter f ys)"
  by (induction rule: list_emb.induct) (auto simp: List.map_filter_simps split: option.split)


section \<open>What one activity does\<close>

definition wired :: "Session \<Rightarrow> bytes \<Rightarrow> bytes \<Rightarrow> bool" where
  "wired s k l \<longleftrightarrow> sess_state s \<in> {Established, Closed} \<and>
     (\<exists>ch. channel s = Some ch \<and> dir_key (tx ch) = k \<and> dir_key (rx ch) = l)"

text \<open>Frames that reply to a frame: they carry no request.\<close>

definition is_reply :: "FrameType \<Rightarrow> bool" where
  "is_reply ty \<longleftrightarrow> ty \<in> {ClipAck, Ping, Pong, ErrorFrame}"

text \<open>
  From one session to another with at most one frame sealed in between: the keys stay, the
  frame carries the next counter and opens to a known plaintext.
\<close>

definition sealed_step :: "deps \<Rightarrow> bytes \<Rightarrow> bytes \<Rightarrow> Session \<Rightarrow> Session \<Rightarrow> Frame list \<Rightarrow> (FrameType \<Rightarrow> bytes \<Rightarrow> bool) \<Rightarrow> bool"
where
  "sealed_step d k l s s' fs P \<longleftrightarrow> wired s' k l \<and> session_floor s' = session_floor s \<and>
     (fs = [] \<and> sent s' = sent s \<or>
      (\<exists>f m. fs = [f] \<and> frame_counter (frame_payload f) = sent s \<and> sent s' = Suc (sent s) \<and>
         frame_plain d k f = Some m \<and> P (frame_ty f) m))"

lemma wired_simps [simp]:
  "wired (s\<lparr> paused := p \<rparr>) k l \<longleftrightarrow> wired s k l"
  "wired (s\<lparr> last_activity_ms := t \<rparr>) k l \<longleftrightarrow> wired s k l"
  "wired s k l \<Longrightarrow> wired (s\<lparr> sess_state := Closed \<rparr>) k l"
  "session_floor (s\<lparr> sess_state := st \<rparr>) = session_floor s"
  "session_floor (s\<lparr> paused := p \<rparr>) = session_floor s"
  "sent (s\<lparr> sess_state := st \<rparr>) = sent s"
  "sent (s\<lparr> paused := p \<rparr>) = sent s"
  by (auto simp: wired_def session_floor_def sent_def)

lemma sealed_step_stay [simp]: "wired s k l \<Longrightarrow> sealed_step d k l s s [] P"
  by (simp add: sealed_step_def)

lemma sealed_step_closed: "sealed_step d k l s s' fs P \<Longrightarrow> sealed_step d k l s (s'\<lparr> sess_state := Closed \<rparr>) fs P"
  by (auto simp: sealed_step_def)

lemma seal_frame_cases:
  assumes "aead_correct d" "wired s k l" "Session_seal_frame d s ty m = (s', r)"
  obtains (failed) e where "r = Inl e" "s' = s"
    | (sealed) f where "r = Inr f" "frame_ty f = ty" "\<And>P. P ty m \<Longrightarrow> sealed_step d k l s s' [f] P"
proof -
  obtain ch where ch: "channel s = Some ch" "dir_key (tx ch) = k" "dir_key (rx ch) = l"
    "sess_state s \<in> {Established, Closed}"
    using assms(2) by (auto simp: wired_def)
  obtain ch' q where q: "AeadChannel_seal d ch ty m = (ch', q)" by fastforce
  show ?thesis
  proof (cases q)
    case (Inl e)
    with q have "ch' = ch" using seal_Inl by blast
    then have "s\<lparr> channel := Some ch' \<rparr> = s" using ch(1) by simp
    then have "r = Inl e" "s' = s" using assms(3) ch(1) q Inl by (auto simp: Session_seal_frame_def)
    then show ?thesis by (rule failed)
  next
    case (Inr p)
    then have s: "s' = s\<lparr> channel := Some ch' \<rparr>" "r = Inr (Frame_new ty p)"
      using assms(3) ch(1) q by (simp_all add: Session_seal_frame_def)
    obtain ct where ct: "chacha_encrypt d k (nonce_for (dir_ctr (tx ch))) (aad_for ty) m = Some ct"
      and p: "p = u64_to_le_bytes (dir_ctr (tx ch)) @ ct"
      and room: "unat (dir_ctr (tx ch)) + 1 < 2 ^ 64"
      and ch': "ch' = ch\<lparr> tx := (tx ch)\<lparr> dir_ctr := dir_ctr (tx ch) + 1 \<rparr> \<rparr>"
      using q Inr ch(2) by (auto simp: seal_Inr_iff)
    have plain: "frame_plain d k (Frame_new ty p) = Some m"
      using aead_correctD [OF assms(1) ct] by (simp add: frame_plain_def p)
    have floor: "session_floor s' = session_floor s"
      by (rule session_floor_rx) (simp add: s ch(1) ch')
    have "sealed_step d k l s s' [Frame_new ty p] P" if "P ty m" for P
      using that plain floor ch unat_succ_u64 [OF room]
      by (simp add: sealed_step_def wired_def s sent_def ch' p)
    then show ?thesis using sealed [of "Frame_new ty p"] s(2) by simp
  qed
qed

text \<open>A handler seals at most one frame, and it is a reply.\<close>

definition replies :: "deps \<Rightarrow> bytes \<Rightarrow> bytes \<Rightarrow> Session \<Rightarrow> Session \<times> SessionAction list \<Rightarrow> bool" where
  "replies d k l s r \<longleftrightarrow> sealed_step d k l s (fst r) (sends (snd r)) (\<lambda>ty m. is_reply ty)"

lemma replies_stay: "wired s k l \<Longrightarrow> sends acts = [] \<Longrightarrow> replies d k l s (s, acts)"
  by (simp add: replies_def)

lemma replies_fail: "wired s k l \<Longrightarrow> replies d k l s (Session_fail s why)"
  by (simp add: replies_def sealed_step_closed)

lemma reply_seal:
  assumes "aead_correct d" "wired s k l" "Session_seal_frame d s ty m = (s', r)" "is_reply ty"
  shows "replies d k l s (s', case r of Inl e \<Rightarrow> [] | Inr f \<Rightarrow> [Send f])"
proof (rule seal_frame_cases [OF assms(1-3)])
  show ?thesis if "r = Inr f" "\<And>P. P ty m \<Longrightarrow> sealed_step d k l s s' [f] P" for f
    using that(2) [of "\<lambda>ty m. is_reply ty"] assms(4) by (simp add: replies_def that(1))
qed (use assms(2) in \<open>simp add: replies_stay\<close>)

lemma replies_closed:
  "replies d k l s (s', acts) \<Longrightarrow> sends acts' = sends acts \<Longrightarrow>
   replies d k l s (s'\<lparr> sess_state := Closed \<rparr>, acts')"
  by (simp add: replies_def sealed_step_closed)

lemma replies_sealed:
  assumes "aead_correct d" "wired s k l" "Session_seal_frame d s ty m = (s', r)" "is_reply ty"
  shows "r = Inl e \<Longrightarrow> replies d k l s (Session_fail s' why)"
    "r = Inr f \<Longrightarrow> sends acts = [f] \<Longrightarrow> replies d k l s (s', acts)"
  using reply_seal [OF assms] by (auto simp: replies_def intro: sealed_step_closed)

lemma replies_wire_error:
  assumes "aead_correct d" "wired s k l"
  shows "replies d k l s (Session_wire_error d s c msg)"
proof -
  define m where "m = unwrap_or (MapBuilder_to_vec d (build_map
      [MapBuilder_u64 (key ERR_CODE) (ucast (WireErrorCode_as_u16 c)),
       MapBuilder_text (key ERR_MSG) (lit msg)])) []"
  obtain s1 r where s1: "Session_seal_frame d s ErrorFrame m = (s1, r)" by fastforce
  have w: "Session_wire_error d s c msg =
      (s1\<lparr> sess_state := Closed \<rparr>, (case r of Inl e \<Rightarrow> [] | Inr f \<Rightarrow> [Send f]) @ [Close msg])"
    using s1 assms(2) unfolding Session_wire_error_def m_def [symmetric]
    by (auto simp: Session_seal_frame_def Let_def wired_def split: option.splits prod.splits sum.splits)
  have "replies d k l s (s1, case r of Inl e \<Rightarrow> [] | Inr f \<Rightarrow> [Send f])"
    by (rule reply_seal [OF assms s1]) (simp add: is_reply_def)
  then show ?thesis unfolding w by (rule replies_closed) (simp split: sum.split)
qed

lemma on_error_replies: "wired s k l \<Longrightarrow> replies d k l s (on_error d s m)"
  by (auto simp: on_error_def Let_def case_prod_unfold replies_def intro: sealed_step_closed)

lemma dispatch_replies:
  assumes "aead_correct d" "wired s k l"
  shows "replies d k l s (dispatch d ty s m)"
proof -
  note r = replies_stay [OF assms(2)] replies_fail [OF assms(2)] replies_wire_error [OF assms]
    replies_sealed [OF assms] on_error_replies [OF assms(2)]
  have "replies d k l s (on_clip_push d s m)"
    unfolding on_clip_push_def Let_def
    by (auto simp: is_reply_def split: sum.split option.split prod.split intro!: r simp del: key.simps)
  moreover have "replies d k l s (on_clip_ack d s m)" "replies d k l s (on_stage_list d s m)"
    "replies d k l s (on_stage_get d s m)" "replies d k l s (on_stage_item d s m)"
    by (auto simp: on_clip_ack_def on_stage_list_def on_stage_get_def on_stage_item_def
        split: sum.split option.split intro!: r)
  ultimately show ?thesis
    by (cases ty) (auto simp: dispatch_def is_reply_def split: sum.split prod.split intro!: r)
qed

lemma reply_requests:
  "is_reply ty \<Longrightarrow> requests (snd (dispatch d ty s m)) = []"
  by (auto simp: is_reply_def dispatch_def on_clip_ack_def on_error_def Let_def case_prod_unfold
      split: sum.split)

text \<open>What a plaintext conveys: whoever handles it reports the given request or nothing.\<close>

definition conveys :: "deps \<Rightarrow> FrameType \<Rightarrow> bytes \<Rightarrow> SessionEvent option \<Rightarrow> bool" where
  "conveys d ty m what \<longleftrightarrow>
     (\<forall>s. requests (snd (dispatch d ty s m)) = [] \<or>
        (\<exists>e. what = Some e \<and> requests (snd (dispatch d ty s m)) = [e]))"

lemma wire_error_requests [simp]: "requests (snd (Session_wire_error d s c msg)) = []"
  by (auto simp: Session_wire_error_def Let_def split: option.split prod.split sum.split)

lemma reply_conveys: "is_reply ty \<Longrightarrow> conveys d ty m what"
  by (simp add: conveys_def reply_requests)

lemma push_conveys:
  assumes "MapReader_from_slice d m = Inr (field_map (push_fields i ct body t name))" "length i = 8"
  shows "conveys d ClipPush m (Some (ClipArrived i ct body name t))"
  unfolding conveys_def
  by (auto simp: dispatch_def on_clip_push_read [OF assms] simp del: key.simps
      split: sum.split prod.split)

text \<open>The messages a caller can send, with the request each of them is.\<close>

inductive message :: "deps \<Rightarrow> FrameType \<Rightarrow> bytes \<Rightarrow> SessionEvent option \<Rightarrow> bool" for d where
  clip: "MapReader_from_slice d m = Inr (field_map (push_fields i ct body t name)) \<Longrightarrow> length i = 8 \<Longrightarrow>
     length body \<le> MAX_TEXT_CLIP \<Longrightarrow> length m \<le> 1000000 \<Longrightarrow>
     message d ClipPush m (Some (ClipArrived i ct body name t))"
| request: "\<forall>s. dispatch d ty s m = (s, [Emit e]) \<Longrightarrow> is_request e \<Longrightarrow> FrameType_is_encrypted ty \<Longrightarrow>
     length m \<le> 1000000 \<Longrightarrow> message d ty m (Some e)"
| ping: "message d Ping [] None"

lemma message_conveys: "message d ty m what \<Longrightarrow> conveys d ty m what"
proof (induction rule: message.induct)
  case (clip m i ct body t name)
  show ?case by (rule push_conveys [OF clip(1,2)])
next
  case ping
  show ?case by (rule reply_conveys) (simp add: is_reply_def)
qed (simp add: conveys_def)

lemma message_small: "message d ty m what \<Longrightarrow> length m \<le> 1000000 \<and> FrameType_is_encrypted ty"
  by (induction rule: message.induct) simp_all

text \<open>A call changes nothing the peer can see, or seals one message.\<close>

fun is_call :: "Activity \<Rightarrow> bool" where
  "is_call (Receive f now rnd) \<longleftrightarrow> False"
| "is_call _ \<longleftrightarrow> True"

lemma call_form:
  assumes d: "deps_ok d" and ok: "activity_ok a" "is_call a"
  obtains (quiet) p where "act d s a = (s\<lparr> paused := p \<rparr>, [], [])" "p = paused s \<or> a = SetPaused p"
    | (sealed) ty m what where "act d s a = issue (Session_seal_frame d s ty m) what" "message d ty m what"
proof (cases a)
  case (PushClip ct body name t rnd)
  show ?thesis
  proof (cases "rnd = None \<or> length body > MAX_TEXT_CLIP")
    case True
    then have "act d s a = (s\<lparr> paused := paused s \<rparr>, [], [])"
      by (auto simp: PushClip Session_push_clip_def split: option.split)
    then show ?thesis by (rule quiet) simp
  next
    case False
    then obtain i where i: "rnd = Some i" "length i = 8" "length body \<le> MAX_TEXT_CLIP"
      using ok PushClip by auto
    obtain m where m: "MapBuilder_to_vec d (build_map
        [MapBuilder_bytes (key CLIP_ID) i,
         MapBuilder_u64 (key CONTENT_TYPE) (ucast (ContentType_as_u8 ct)),
         MapBuilder_bytes (key BODY) body, MapBuilder_u64 (key CREATED_AT) t,
         MapBuilder_text (key SOURCE_NAME) name]) = Inr m"
      "MapReader_from_slice d m = Inr (field_map (push_fields i ct body t name))" "length m \<le> 524500"
      by (rule push_payload [OF d i(2,3)]) (use ok PushClip in auto)
    have "act d s a = issue (Session_seal_frame d s ClipPush m) (Some (ClipArrived i ct body name t))"
      using i(1,3) m(1)
      by (simp add: PushClip Session_push_clip_def Session_push_clip_with_id_def issue_def not_less
          split: prod.split sum.split)
    moreover have "message d ClipPush m (Some (ClipArrived i ct body name t))"
      by (rule message.clip [OF m(2) i(2,3)]) (use m(3) in simp)
    ultimately show ?thesis by (rule sealed)
  qed
next
  case RequestList
  obtain m where m: "MapBuilder_to_vec d (build_map []) = Inr m" "length m \<le> 100" by (rule empty_payload [OF d])
  have "message d StageListReq m (Some StageListRequested)"
    by (rule message.request) (use m(2) in \<open>simp_all add: dispatch_def\<close>)
  then show ?thesis
    by (intro sealed) (simp_all add: RequestList Session_request_stage_list_def m(1))
next
  case (RequestItem i)
  obtain m where m: "MapBuilder_to_vec d (build_map [MapBuilder_bytes (key STAGE_ID) i]) = Inr m"
    "\<forall>s. on_stage_get d s m = (s, [Emit (StageItemRequested i)])" "length m \<le> 100"
    by (rule get_payload [OF d]) (use ok RequestItem in auto)
  have "message d StageGet m (Some (StageItemRequested i))"
    by (rule message.request) (use m(3) in \<open>simp_all add: dispatch_def m(2)\<close>)
  then show ?thesis
    by (intro sealed) (simp_all add: RequestItem Session_request_stage_item_def m(1) del: key.simps)
next
  case (SendList ms)
  then have ms: "list_all meta_wire_ok ms" "length ms \<le> 1024" using ok by simp_all
  obtain m where m: "MapBuilder_to_vec d (build_map
      [MapBuilder_array (key STAGE_ITEMS) (map stage_entry ms)]) = Inr m"
    "MapReader_from_slice d m = Inr (field_map [(key STAGE_ITEMS, VArray (map stage_entry ms))])" "length m \<le> 620000"
    by (rule list_payload [OF d ms])
  have "message d StageList m (Some (EvStageList ms))"
    by (rule message.request) (use m(3) in \<open>simp_all add: dispatch_def on_stage_list_read [OF m(2) ms(1)]\<close>)
  then show ?thesis
    by (intro sealed) (simp_all add: SendList Session_send_stage_list_def m(1) del: key.simps)
next
  case (SendItem c)
  then have c: "length (sc_stage_id c) = 8" "length (sc_body c) \<le> MAX_TEXT_CLIP" using ok by simp_all
  obtain m where m: "MapBuilder_to_vec d (build_map
      [MapBuilder_bytes (key ITEM_ID) (sc_stage_id c),
       MapBuilder_u64 (key ITEM_TYPE) (ucast (ContentType_as_u8 (sc_content_type c))),
       MapBuilder_bytes (key ITEM_BODY) (sc_body c)]) = Inr m"
    "MapReader_from_slice d m = Inr (field_map (item_fields (sc_stage_id c) (sc_content_type c) (sc_body c)))"
    "length m \<le> 262400"
    by (rule item_payload [OF d c])
  have "message d StageItem m (Some (EvStageItem (sc_stage_id c) (sc_content_type c) (sc_body c)))"
    by (rule message.request) (use m(3) in \<open>simp_all add: dispatch_def on_stage_item_read [OF m(2) c(1)]\<close>)
  then show ?thesis
    by (intro sealed) (simp_all add: SendItem Session_send_stage_item_def m(1) del: key.simps)
next
  case PingPeer
  then show ?thesis using message.ping by (intro sealed) (simp_all add: Session_ping_def)
next
  case (SetPaused p)
  then show ?thesis by (intro quiet [of p]) (simp_all add: Session_set_paused_def)
qed (use ok in simp)

section \<open>The steps of a run\<close>

definition sends_ok ::
  "deps \<Rightarrow> bytes \<Rightarrow> Session \<Rightarrow> Session \<Rightarrow> (Frame \<times> SessionEvent option) list \<Rightarrow> bool" where
  "sends_ok d k s s' out \<longleftrightarrow> out = [] \<and> sent s' = sent s \<or>
     (\<exists>f m what. out = [(f, what)] \<and> frame_counter (frame_payload f) = sent s \<and>
        sent s' = Suc (sent s) \<and> frame_plain d k f = Some m \<and> conveys d (frame_ty f) m what)"

definition reports_ok ::
  "deps \<Rightarrow> bytes \<Rightarrow> Session \<Rightarrow> Session \<Rightarrow> Activity \<Rightarrow> SessionEvent list \<Rightarrow> bool" where
  "reports_ok d l s s' a evs \<longleftrightarrow> evs = [] \<or>
     (\<exists>f now rnd m s0. a = Receive f now rnd \<and> frame_plain d l f = Some m \<and>
        session_floor s \<le> frame_counter (frame_payload f) \<and>
        session_floor s' = Suc (frame_counter (frame_payload f)) \<and>
        evs = requests (snd (dispatch d (frame_ty f) s0 m)))"

definition step_ok :: "deps \<Rightarrow> bytes \<Rightarrow> bytes \<Rightarrow> Session \<Rightarrow> Activity \<Rightarrow> outcome \<Rightarrow> bool" where
  "step_ok d k l s a r \<longleftrightarrow> (case r of (s', out, evs) \<Rightarrow>
     wired s' k l \<and> session_floor s \<le> session_floor s' \<and> sends_ok d k s s' out \<and>
     reports_ok d l s s' a evs)"

lemma step_stay: "wired s k l \<Longrightarrow> step_ok d k l s a (s, [], [])"
  by (simp add: step_ok_def sends_ok_def reports_ok_def)

lemma issue_step:
  assumes "aead_correct d" "wired s k l" "conveys d ty m what"
  shows "step_ok d k l s a (issue (Session_seal_frame d s ty m) what)"
proof -
  obtain s' r where s': "Session_seal_frame d s ty m = (s', r)" by fastforce
  show ?thesis
  proof (rule seal_frame_cases [OF assms(1,2) s'])
    fix f assume f: "r = Inr f" "frame_ty f = ty" "\<And>P. P ty m \<Longrightarrow> sealed_step d k l s s' [f] P"
    have "sealed_step d k l s s' [f] (\<lambda>ty m. conveys d ty m what)" by (rule f(3)) (rule assms(3))
    then show ?thesis
      by (auto simp: s' f(1) issue_def step_ok_def sends_ok_def reports_ok_def sealed_step_def)
  qed (use assms(2) in \<open>simp add: s' issue_def step_stay\<close>)
qed

lemma receive_step:
  assumes d: "aead_correct d" and w: "wired s k l"
  shows "step_ok d k l s (Receive f now rnd) (act d s (Receive f now rnd))"
proof (cases rule: on_frame_cases [where d = d and s = s and f = f and now = now and rnd = rnd])
  case enc
  let ?s = "s\<lparr> last_activity_ms := now \<rparr>"
  obtain ch where ch: "channel s = Some ch" "dir_key (tx ch) = k" "dir_key (rx ch) = l"
    using w by (auto simp: wired_def)
  obtain ch' r where o: "AeadChannel_open d ch (frame_ty f) (frame_payload f) = (ch', r)" by fastforce
  show ?thesis
  proof (cases r)
    case (Inl e)
    then have "ch' = ch" using o open_Inl by blast
    then have "Session_on_frame d s f now rnd = Session_fail (?s\<lparr> channel := Some ch \<rparr>) ''AEAD open failed''"
      using enc(3) o Inl ch(1) by (simp add: on_encrypted_def)
    then show ?thesis
      using ch enc(1)
      by (simp add: Session_fail_def step_ok_def sends_ok_def reports_ok_def wired_def sent_def session_floor_def)
  next
    case (Inr m)
    let ?o = "?s\<lparr> channel := Some ch' \<rparr>"
    have rx: "frame_plain d l f = Some m" "rx_floor ch \<le> frame_counter (frame_payload f)"
      "rx_floor ch' = Suc (frame_counter (frame_payload f))" "dir_key (tx ch') = k" "dir_key (rx ch') = l"
      "tx ch' = tx ch"
      using o ch(2,3) chan.open_seq [OF o [unfolded Inr]]
      by (auto simp: Inr open_Inr_iff frame_plain_def)
    have f: "f = Frame_new (frame_ty f) (frame_payload f)" by (simp add: Frame_new_def)
    have r: "Session_on_frame d s f now rnd = dispatch d (frame_ty f) ?o m"
      using on_frame_opened [OF enc(1) ch(1) enc(2) o [unfolded Inr], of now rnd] f by simp
    obtain s' acts where r': "dispatch d (frame_ty f) ?o m = (s', acts)" by fastforce
    have wo: "wired ?o k l" using rx(4,5) enc(1) by (simp add: wired_def)
    have fl: "session_floor ?o = Suc (frame_counter (frame_payload f))" "session_floor s = rx_floor ch"
      "sent ?o = sent s"
      using rx ch(1) by (simp_all add: session_floor_def sent_def)
    have "sealed_step d k l ?o s' (sends acts) (\<lambda>ty m. is_reply ty)"
      using dispatch_replies [OF d wo, of "frame_ty f" m] by (simp add: replies_def r')
    then have "wired s' k l" "session_floor s' = Suc (frame_counter (frame_payload f))"
      "sends_ok d k s s' (map (\<lambda>g. (g, None)) (sends acts))"
      using fl by (auto simp: sealed_step_def sends_ok_def intro: reply_conveys)
    moreover have "reports_ok d l s s' (Receive f now rnd) (requests acts)"
      unfolding reports_ok_def
      using rx(1,2) fl(2) calculation(2) r' by (metis snd_conv)
    ultimately show ?thesis using rx(2) fl(2) by (simp add: step_ok_def r r')
  qed
qed (use w in \<open>auto simp: step_stay wired_def step_ok_def sends_ok_def reports_ok_def
    Session_fail_def sent_def session_floor_def\<close>)

lemma act_step:
  assumes d: "deps_ok d" and w: "wired s k l" and ok: "activity_ok a"
  shows "step_ok d k l s a (act d s a)"
proof (cases "is_call a")
  case True
  from d ok True show ?thesis
  proof (cases rule: call_form [where s = s])
    case (quiet p)
    then show ?thesis using w by (simp add: step_ok_def sends_ok_def reports_ok_def)
  next
    case (sealed ty m what)
    then show ?thesis using issue_step [OF deps_okD(4) [OF d] w message_conveys] by simp
  qed
next
  case False
  then show ?thesis using receive_step [OF deps_okD(4) [OF d] w] by (cases a) auto
qed

text \<open>What an end reports does not depend on the arguments of its own calls.\<close>

lemma call_shape:
  assumes "is_call a" "act d s a = (s', out, evs)"
  shows "evs = [] \<and> ((\<exists>p. s' = s\<lparr> paused := p \<rparr>) \<or> (\<exists>ty m. s' = fst (Session_seal_frame d s ty m)))"
proof -
  have stay: "\<exists>p. s = s\<lparr> paused := p \<rparr>" by (intro exI [of _ "paused s"]) simp
  have sealed: "\<exists>ty m. s1 = fst (Session_seal_frame d s ty m)"
    if "Session_seal_frame d s ty m = (s1, r)" for s1 r ty m
    using that by (metis fst_conv)
  show ?thesis
  proof (cases a)
    case (PushClip ct body name t rnd)
    then show ?thesis
      using assms(2) stay sealed
      by (auto simp: Session_push_clip_def Session_push_clip_with_id_def
          split: if_splits option.splits prod.splits sum.splits simp del: key.simps)
  next
    case (SetPaused p)
    then show ?thesis using assms(2) by (auto simp: Session_set_paused_def)
  qed (use assms stay sealed in \<open>auto simp: issue_def Session_request_stage_list_def
    Session_request_stage_item_def Session_send_stage_list_def Session_send_stage_item_def
    Session_ping_def simp del: key.simps split: prod.splits sum.splits\<close>)
qed

lemma act_reports:
  assumes d: "aead_correct d" and w: "wired s k l" and a: "act d s a = (s', out, evs)"
  shows "wired s' k l \<and> session_floor s \<le> session_floor s' \<and> reports_ok d l s s' a evs"
proof (cases "is_call a")
  case True
  have "wired s' k l \<and> session_floor s' = session_floor s"
  proof (cases "\<exists>p. s' = s\<lparr> paused := p \<rparr>")
    case False
    then obtain ty m r where s': "Session_seal_frame d s ty m = (s', r)"
      using call_shape [OF True a] by (metis prod.collapse)
    show ?thesis
    proof (rule seal_frame_cases [OF d w s'])
      fix f assume "\<And>P. P ty m \<Longrightarrow> sealed_step d k l s s' [f] P"
      from this [of "\<lambda>_ _. True"] show ?thesis by (simp add: sealed_step_def)
    qed (use w in simp)
  qed (use w in auto)
  then show ?thesis using call_shape [OF True a] by (simp add: reports_ok_def)
next
  case False
  then obtain f now rnd where "a = Receive f now rnd" by (cases a) auto
  then show ?thesis using receive_step [OF d w, of f now rnd] a by (simp add: step_ok_def)
qed

section \<open>Whole runs\<close>

abbreviation frame_no :: "Frame \<times> SessionEvent option \<Rightarrow> nat" where
  "frame_no p \<equiv> frame_counter (frame_payload (fst p))"

definition genuine :: "deps \<Rightarrow> bytes \<Rightarrow> Frame \<times> SessionEvent option \<Rightarrow> bool" where
  "genuine d k p \<longleftrightarrow> (\<exists>m. frame_plain d k (fst p) = Some m \<and> conveys d (frame_ty (fst p)) m (snd p))"

text \<open>What an end sends is numbered in order, and each frame conveys what its caller meant.\<close>

lemma run_sends:
  assumes "deps_ok d" "wired x k l" "list_all activity_ok xs" "run_end d x xs = (x', out, evs)"
  shows "sorted_wrt (<) (map frame_no out) \<and> list_all (genuine d k) out \<and> sent x \<le> sent x' \<and>
    (\<forall>p \<in> set out. sent x \<le> frame_no p \<and> frame_no p < sent x')"
  using assms(2-4)
proof (induction xs arbitrary: x out evs)
  case (Cons a xs)
  obtain x1 out1 evs1 where a: "act d x a = (x1, out1, evs1)" by (metis prod_cases3)
  obtain x2 out2 evs2 where r: "run_end d x1 xs = (x2, out2, evs2)" by (metis prod_cases3)
  have out: "x' = x2" "out = out1 @ out2" using Cons.prems(3) by (simp_all add: a r)
  have s: "wired x1 k l" "sends_ok d k x x1 out1"
    using act_step [OF assms(1) Cons.prems(1), of a] Cons.prems(2) by (simp_all add: a step_ok_def)
  have "sorted_wrt (<) (map frame_no out2) \<and> list_all (genuine d k) out2 \<and> sent x1 \<le> sent x' \<and>
      (\<forall>p \<in> set out2. sent x1 \<le> frame_no p \<and> frame_no p < sent x')"
    by (rule Cons.IH [OF s(1)]) (use Cons.prems(2) r out in auto)
  note IH = this
  from s(2) show ?case
    unfolding sends_ok_def
  proof (elim disjE exE conjE)
    fix f m what
    assume f: "out1 = [(f, what)]" "frame_counter (frame_payload f) = sent x" "sent x1 = Suc (sent x)"
      "frame_plain d k f = Some m" "conveys d (frame_ty f) m what"
    have lt: "\<forall>p \<in> set out2. sent x < frame_no p \<and> frame_no p < sent x'" "sent x < sent x'"
      using IH f(3) by auto
    then have "\<forall>p \<in> set out2. sent x \<le> frame_no p" by auto
    moreover have "genuine d k (f, what)" using f(4,5) by (simp add: genuine_def)
    ultimately show ?thesis using IH lt f(1,2) by (simp add: out(2))
  qed (use IH in \<open>simp add: out(2)\<close>)
qed simp

text \<open>
  What an end reports: the requests of frames the peer sent, each taken once and in the order
  of their numbers.
\<close>

lemma run_reports:
  assumes "aead_correct d" "wired y k l" "run_end d y ys = (y', out, evs)"
    and "\<forall>f \<in> set (arrivals ys). frame_plain d l f \<noteq> None \<longrightarrow> f \<in> fst ` set peer_out"
    and "list_all (genuine d l) peer_out"
  shows "\<exists>L. set L \<subseteq> set peer_out \<and> sorted_wrt (<) (map frame_no L) \<and>
    (\<forall>p \<in> set L. session_floor y \<le> frame_no p) \<and> evs = List.map_filter snd L"
  using assms(2-4)
proof (induction ys arbitrary: y y' out evs)
  case Nil
  then show ?case by (intro exI [of _ "[]"]) (simp add: List.map_filter_simps)
next
  case (Cons a ys)
  obtain y1 out1 evs1 where a: "act d y a = (y1, out1, evs1)" by (metis prod_cases3)
  obtain y2 out2 evs2 where r: "run_end d y1 ys = (y2, out2, evs2)" by (metis prod_cases3)
  have evs: "evs = evs1 @ evs2" using Cons.prems(2) by (simp add: a r)
  have s: "wired y1 k l" "session_floor y \<le> session_floor y1" "reports_ok d l y y1 a evs1"
    using act_reports [OF assms(1) Cons.prems(1) a] by simp_all
  have "set (arrivals ys) \<subseteq> set (arrivals (a # ys))" by (cases a) auto
  then have net: "\<forall>f \<in> set (arrivals ys). frame_plain d l f \<noteq> None \<longrightarrow> f \<in> fst ` set peer_out"
    using Cons.prems(3) by blast
  obtain L where L: "set L \<subseteq> set peer_out" "sorted_wrt (<) (map frame_no L)"
    "\<forall>p \<in> set L. session_floor y1 \<le> frame_no p" "evs2 = List.map_filter snd L"
    using Cons.IH [OF s(1) r net] by blast
  show ?case
  proof (cases "evs1 = []")
    case True
    then show ?thesis using L s(2) evs by (intro exI [of _ L]) fastforce
  next
    case False
    then obtain f now rnd m s0 where f: "a = Receive f now rnd" "frame_plain d l f = Some m"
      "session_floor y \<le> frame_counter (frame_payload f)"
      "session_floor y1 = Suc (frame_counter (frame_payload f))"
      "evs1 = requests (snd (dispatch d (frame_ty f) s0 m))"
      using s(3) by (auto simp: reports_ok_def)
    obtain what where w: "(f, what) \<in> set peer_out" using Cons.prems(3) f(1,2) by auto
    then have "genuine d l (f, what)" using assms(5) by (auto simp: list_all_iff)
    then obtain e where "what = Some e" "evs1 = [e]"
      using False f(2,5) by (auto simp: genuine_def conveys_def)
    then show ?thesis
      using L w f(3,4) evs by (intro exI [of _ "(f, what) # L"]) (fastforce simp: List.map_filter_simps)
  qed
qed

lemma told_subseq:
  assumes d: "deps_ok d" and p: "paired_sessions d x y"
    and ok: "list_all activity_ok xs" and net: "cannot_forge d x xs (arrivals ys)"
  shows "subseq (told d y ys) (asked d x xs)"
proof -
  obtain k l where w: "wired x k l" "wired y l k"
    using p by (auto simp: paired_sessions_def linked_def wired_def split: option.splits)
  obtain x' outx evsx where rx: "run_end d x xs = (x', outx, evsx)" by (metis prod_cases3)
  obtain y' outy evsy where ry: "run_end d y ys = (y', outy, evsy)" by (metis prod_cases3)
  have s: "sorted_wrt (<) (map frame_no outx)" "list_all (genuine d k) outx"
    using run_sends [OF d w(1) ok rx] by simp_all
  have "\<forall>f \<in> set (arrivals ys). frame_plain d k f \<noteq> None \<longrightarrow> f \<in> fst ` set outx"
    using net w(1) by (auto simp: cannot_forge_def frames_sent_def rx wired_def)
  then obtain L where L: "set L \<subseteq> set outx" "sorted_wrt (<) (map frame_no L)"
    "evsy = List.map_filter snd L"
    using run_reports [OF deps_okD(4) [OF d] w(2) ry _ s(2)] by blast
  have "subseq L outx" by (rule increasing_subseq [OF L(2) s(1) L(1)])
  then show ?thesis by (simp add: told_def asked_def rx ry L(3) subseq_map_filter)
qed

text \<open>
  C4: The network cannot alter a conversation. Between established, mirrored ends, let each end
  make any calls and be given any frames in any order, repetitions and strangers included, where
  the only limit is that a frame opening under the sender's key was sent by the sender. Then what
  one end reports (clips with their identifier, type, body, name and time, list and item
  requests, staged lists and items) is a subsequence of what the other end's caller asked for:
  nothing is invented, changed, repeated or moved.
\<close>

theorem network_cannot_alter:
  assumes d: "deps_ok d" and p: "paired_sessions d x y"
    and ok: "list_all activity_ok xs" and net: "cannot_forge d x xs (arrivals ys)"
  shows "subseq (told d y ys) (asked d x xs)"
  by (rule told_subseq [OF assms])

section \<open>A network that loses nothing\<close>

lemma paired_paused [simp]:
  "paired_sessions d (s\<lparr> paused := p \<rparr>) t \<longleftrightarrow> paired_sessions d s t"
  "paired_sessions d s (t\<lparr> paused := p \<rparr>) \<longleftrightarrow> paired_sessions d s t"
  by (simp_all add: paired_sessions_def)

lemma seal_keeps_paired:
  assumes p: "paired_sessions d x y" and s: "Session_seal_frame d x ty m = (x', r)"
  shows "paired_sessions d x' y \<and> sent x' \<le> Suc (sent x) \<and> paused x' = paused x"
proof -
  obtain cx cy where c: "channel x = Some cx" "channel y = Some cy"
    and l: "linked d cx cy" "linked d cy cx"
    and st: "sess_state x = Established" "sess_state y = Established"
    using p by (auto simp: paired_sessions_def split: option.splits)
  have w: "wired x (dir_key (tx cx)) (dir_key (rx cx))" by (simp add: wired_def c(1) st(1))
  obtain cx' q where q: "AeadChannel_seal d cx ty m = (cx', q)" by fastforce
  have x': "x' = x\<lparr> channel := Some cx' \<rparr>"
    using s c(1) q by (auto simp: Session_seal_frame_def split: sum.splits)
  show ?thesis
  proof (cases q)
    case (Inl e)
    then have "cx' = cx" using q seal_Inl by blast
    then show ?thesis using p c(1) by (simp add: x' paired_sessions_def sent_def)
  next
    case (Inr b)
    have "linked d cx' cy" "unat (dir_ctr (tx cx')) = Suc (unat (dir_ctr (tx cx)))"
      using chan.seal_linked [OF l(1) q [unfolded Inr]] chan.seal_seq [OF q [unfolded Inr]] by simp_all
    moreover have "linked d cy cx'" using l(2) rx_floor_cong [OF seal_keeps_rx [OF q]] seal_keeps_rx [OF q] by (simp add: linked_def)
    ultimately show ?thesis using c st by (simp add: x' paired_sessions_def sent_def)
  qed
qed

lemma map_filter_append: "List.map_filter f (xs @ ys) = List.map_filter f xs @ List.map_filter f ys"
  by (simp add: List.map_filter_def)

lemma issue_simps [simp]:
  "fst (issue (s', r) what) = s'" "snd (snd (issue r' what)) = []"
  by (auto simp: issue_def split: prod.split sum.split)

lemma call_keeps_paired:
  assumes "deps_ok d" "paired_sessions d x y" "activity_ok a" "is_call a" "act d x a = (x', out, evs)"
  shows "paired_sessions d x' y \<and> sent x' \<le> Suc (sent x) \<and> evs = [] \<and>
    (a \<noteq> SetPaused True \<longrightarrow> \<not> paused x \<longrightarrow> \<not> paused x')"
  using assms(1,3,4)
proof (cases rule: call_form [where s = x])
  case (quiet p)
  then show ?thesis using assms(2,5) by auto
next
  case (sealed ty m what)
  obtain x1 r where s: "Session_seal_frame d x ty m = (x1, r)" by fastforce
  have "x' = x1" "evs = []"
    using sealed(1) assms(5) s issue_simps(1) [of x1 r what] issue_simps(2) [of "(x1, r)" what]
    by (metis fst_conv, metis snd_conv)
  then show ?thesis using seal_keeps_paired [OF assms(2) s] by simp
qed

text \<open>A message an unpaused peer is given: it reports the request and stays open.\<close>

lemma message_delivered:
  assumes d: "deps_ok d" and p: "paired_sessions d x y" and up: "\<not> paused y"
    and room: "sent x + 1 < 2 ^ 64" "sent y + 1 < 2 ^ 64" and msg: "message d ty m what"
  obtains x' f y' acts where "Session_seal_frame d x ty m = (x', Inr f)"
    "Session_on_frame d y f now rnd = (y', acts)" "requests acts = case_option [] (\<lambda>e. [e]) what"
    "paired_sessions d x' y'" "\<not> paused y'" "sent x' = Suc (sent x)" "sent y' \<le> Suc (sent y)"
proof -
  have m: "FrameType_is_encrypted ty" "length m \<le> 2 ^ 32" using message_small [OF msg] by simp_all
  obtain x' f y1 where r: "Session_seal_frame d x ty m = (x', Inr f)"
    "Session_on_frame d y f now rnd = dispatch d ty y1 m" "paired_sessions d x' y1"
    "paused y1 = paused y" "sent x' = Suc (sent x)" "sent y1 = sent y"
    by (rule sealed_frame_received [OF d p room_sent [OF p room(1)] m])
  have answer: "\<exists>y' g. Session_seal_frame d y1 ty' m' = (y', Inr g) \<and> paired_sessions d x' y' \<and>
      paused y' = paused y1 \<and> sent y' \<le> Suc (sent y)"
    if enc: "FrameType_is_encrypted ty'" "length m' \<le> 2 ^ 32" for ty' m'
  proof -
    have p': "paired_sessions d y1 x'" using r(3) by (simp add: paired_sym)
    have hr: "has_room y1" using room_sent [OF p'] room(2) r(6) by simp
    obtain y' g where "Session_seal_frame d y1 ty' m' = (y', Inr g)"
      by (rule sealed_frame_received [OF d p' hr enc])
    then show ?thesis using seal_keeps_paired [OF p'] r(6) by (metis paired_sym)
  qed
  have "\<exists>y' acts. dispatch d ty y1 m = (y', acts) \<and> requests acts = case_option [] (\<lambda>e. [e]) what \<and>
      paired_sessions d x' y' \<and> paused y' = paused y1 \<and> sent y' \<le> Suc (sent y)"
    using msg
  proof cases
    case (clip i ct body t name)
    obtain k where k: "MapBuilder_to_vec d (build_map
        [MapBuilder_bytes (key ACK_CLIP_ID) i, MapBuilder_u64 (key ACK_STATUS) 0]) = Inr k" "length k \<le> 100"
      by (rule clip_ack_payload [OF d clip(4)])
    obtain y' g where "Session_seal_frame d y1 ClipAck k = (y', Inr g)" "paired_sessions d x' y'"
      "paused y' = paused y1" "sent y' \<le> Suc (sent y)"
      using answer [of ClipAck k] k(2) by auto
    then show ?thesis
      using up r(4) clip k(1)
      by (simp add: dispatch_def on_clip_push_read [OF clip(3,4)] del: key.simps)
  next
    case ping
    then show ?thesis using answer [of Pong "[]"] by (auto simp: dispatch_def)
  qed (use r(3,6) in auto)
  then show ?thesis using that r(1,2,4,5) up by (metis (no_types))
qed

text \<open>The first frame of a run: the calls before it seal nothing.\<close>

lemma first_frame:
  assumes "deps_ok d" "paired_sessions d x y" "list_all (\<lambda>a. activity_ok a \<and> is_call a) xs"
    and "frames_sent d x xs = f # fs"
  shows "\<exists>x0 ty m what x1 xs'. paired_sessions d x0 y \<and> sent x0 = sent x \<and> message d ty m what \<and>
    Session_seal_frame d x0 ty m = (x1, Inr f) \<and> list_all (\<lambda>a. activity_ok a \<and> is_call a) xs' \<and>
    length xs' < length xs \<and> frames_sent d x1 xs' = fs \<and>
    asked d x xs = case_option [] (\<lambda>e. [e]) what @ asked d x1 xs'"
  using assms(2-4)
proof (induction xs arbitrary: x)
  case (Cons a xs)
  obtain x1 out1 evs1 where a: "act d x a = (x1, out1, evs1)" by (metis prod_cases3)
  have split: "frames_sent d x (a # xs) = map fst out1 @ frames_sent d x1 xs"
    "asked d x (a # xs) = List.map_filter snd out1 @ asked d x1 xs"
    by (simp_all add: frames_sent_def asked_def a case_prod_unfold map_filter_append)
  have ok: "activity_ok a" "is_call a" "list_all (\<lambda>a. activity_ok a \<and> is_call a) xs"
    using Cons.prems(2) by simp_all
  note keep = call_keeps_paired [OF assms(1) Cons.prems(1) ok(1,2) a]
  have later: ?case if "out1 = []" "sent x1 = sent x"
  proof -
    have fs: "frames_sent d x1 xs = f # fs" "asked d x (a # xs) = asked d x1 xs"
      using Cons.prems(3) that(1) by (simp_all add: split List.map_filter_simps)
    have "paired_sessions d x1 y" using keep by simp
    from Cons.IH [OF this ok(3) fs(1)] obtain x0 ty m what x2 xs' where
      h: "paired_sessions d x0 y" "sent x0 = sent x1" "message d ty m what"
        "Session_seal_frame d x0 ty m = (x2, Inr f)" "list_all (\<lambda>a. activity_ok a \<and> is_call a) xs'"
        "length xs' < length xs" "frames_sent d x2 xs' = fs"
        "asked d x1 xs = case_option [] (\<lambda>e. [e]) what @ asked d x2 xs'"
      by blast
    show ?thesis
      by (rule exI [of _ x0], rule exI [of _ ty], rule exI [of _ m], rule exI [of _ what],
          rule exI [of _ x2], rule exI [of _ xs']) (use h that(2) fs(2) in simp)
  qed
  from assms(1) ok(1,2) show ?case
  proof (cases rule: call_form [where s = x])
    case (quiet p)
    then show ?thesis using later a by (simp add: sent_def)
  next
    case (sealed ty m what)
    obtain x2 r where s: "Session_seal_frame d x ty m = (x2, r)" by fastforce
    show ?thesis
    proof (cases r)
      case (Inl e)
      obtain k l where w: "wired x k l" using Cons.prems(1)
        by (auto simp: paired_sessions_def wired_def split: option.splits)
      have "x2 = x" by (rule seal_frame_cases [OF deps_okD(4) [OF assms(1)] w s]) (use Inl in simp_all)
      then show ?thesis using later sealed(1) a s Inl by (simp add: issue_def)
    next
      case (Inr g)
      then have o: "x1 = x2" "out1 = [(g, what)]" using sealed(1) a s by (simp_all add: issue_def)
      then show ?thesis
        using Cons.prems(1,3) sealed(2) s Inr ok(3)
        by (intro exI [of _ x] exI [of _ ty] exI [of _ m] exI [of _ what] exI [of _ x2] exI [of _ xs])
          (simp add: split List.map_filter_simps split: option.split)
    qed
  qed
qed (simp add: frames_sent_def)


text \<open>
  C8: A network that loses nothing delivers everything. Between established, mirrored ends, let one
  end make any calls and let the other, never paused, be given exactly the frames they produced, in
  order, with any calls of its own in between and counters far from their end. Then it reports
  exactly what the caller asked for, in the same order.
\<close>

theorem lossless_network_delivers_all:
  assumes d: "deps_ok d" and p: "paired_sessions d x y" and up: "\<not> paused y"
    and xs: "list_all (\<lambda>a. activity_ok a \<and> is_call a) xs"
    and ys: "list_all activity_ok ys" "SetPaused True \<notin> set ys"
    and net: "arrivals ys = frames_sent d x xs"
    and room: "sent x + length ys < 2 ^ 64" "sent y + length ys < 2 ^ 64"
  shows "told d y ys = asked d x xs"
  using p up xs ys net room
proof (induction ys arbitrary: x y xs)
  case Nil
  then show ?case by (auto simp: told_def asked_def frames_sent_def List.map_filter_simps)
next
  case (Cons a ys)
  show ?case
  proof (cases "is_call a")
    case True
    obtain y1 out1 evs1 where a: "act d y a = (y1, out1, evs1)" by (metis prod_cases3)
    have p': "paired_sessions d y x" using Cons.prems(1) by (simp add: paired_sym)
    have k: "paired_sessions d x y1" "sent y1 \<le> Suc (sent y)" "evs1 = []" "\<not> paused y1"
      using call_keeps_paired [OF d p' _ True a] Cons.prems(2,4,5) by (auto simp: paired_sym)
    have "arrivals ys = frames_sent d x xs" using Cons.prems(6) True by (cases a) auto
    then have "told d y1 ys = asked d x xs"
      using Cons.IH [OF k(1,4) Cons.prems(3)] Cons.prems(4,5,7,8) k(2) by simp
    then show ?thesis by (simp add: told_def a k(3) case_prod_unfold)
  next
    case False
    then obtain f now rnd where a: "a = Receive f now rnd" by (cases a) auto
    then have fs: "frames_sent d x xs = f # arrivals ys" using Cons.prems(6) by simp
    obtain x0 ty m what x1 xs' where
      h: "paired_sessions d x0 y" "sent x0 = sent x" "message d ty m what"
        "Session_seal_frame d x0 ty m = (x1, Inr f)" "list_all (\<lambda>a. activity_ok a \<and> is_call a) xs'"
        "frames_sent d x1 xs' = arrivals ys"
        "asked d x xs = case_option [] (\<lambda>e. [e]) what @ asked d x1 xs'"
      using first_frame [OF d Cons.prems(1,3) fs] by blast
    have r: "sent x0 + 1 < 2 ^ 64" "sent y + 1 < 2 ^ 64" using Cons.prems(7,8) h(2) by simp_all
    obtain y1 acts where y1: "Session_on_frame d y f now rnd = (y1, acts)"
      "requests acts = case_option [] (\<lambda>e. [e]) what" "paired_sessions d x1 y1" "\<not> paused y1"
      "sent x1 = Suc (sent x0)" "sent y1 \<le> Suc (sent y)"
      using message_delivered [OF d h(1) Cons.prems(2) r h(3), of now rnd] h(4)
      by (metis (no_types, lifting) Inr_inject prod.inject)
    have "told d y1 ys = asked d x1 xs'"
      using Cons.IH [OF y1(3,4) h(5)] Cons.prems(4,5,7,8) h(2,6) y1(5,6) by simp
    then show ?thesis using y1(1,2) h(7) by (simp add: told_def a case_prod_unfold)
  qed
qed

text \<open>A request for the list, given to the PC twice and once.\<close>

lemma demo_request:
  obtains f where "frames_sent demo_deps demo_phone_end [RequestList] = [f]"
    "asked demo_deps demo_phone_end [RequestList] = [StageListRequested]"
proof -
  obtain m where m: "MapBuilder_to_vec demo_deps (build_map []) = Inr m" "length m \<le> 100"
    by (rule empty_payload [OF demo_deps_ok])
  then have e: "FrameType_is_encrypted StageListReq" "length m \<le> 2 ^ 32" by simp_all
  obtain a f where "Session_seal_frame demo_deps demo_phone_end StageListReq m = (a, Inr f)"
    by (rule sealed_frame_received [OF demo_deps_ok demo_paired demo_room(1) e])
  then show ?thesis
    by (intro that [of f])
      (simp_all add: frames_sent_def asked_def Session_request_stage_list_def m(1) issue_def
        List.map_filter_simps)
qed

theorem network_cannot_alter_witness:
  "\<exists>f. frames_sent demo_deps demo_phone_end [RequestList] = [f] \<and>
     subseq (told demo_deps demo_pc_end [Receive f 1 None, Receive f 2 None, SetPaused True, Receive f 3 None])
       [StageListRequested]"
proof -
  obtain f where f: "frames_sent demo_deps demo_phone_end [RequestList] = [f]"
    "asked demo_deps demo_phone_end [RequestList] = [StageListRequested]"
    by (rule demo_request)
  have "subseq (told demo_deps demo_pc_end [Receive f 1 None, Receive f 2 None, SetPaused True, Receive f 3 None])
      (asked demo_deps demo_phone_end [RequestList])"
    by (rule network_cannot_alter [OF demo_deps_ok demo_paired]) (simp_all add: cannot_forge_def f(1))
  then show ?thesis using f by simp
qed

theorem lossless_network_delivers_all_witness:
  "\<exists>f. frames_sent demo_deps demo_phone_end [RequestList] = [f] \<and>
     told demo_deps demo_pc_end [PingPeer, Receive f 1 None] = [StageListRequested]"
proof -
  obtain f where f: "frames_sent demo_deps demo_phone_end [RequestList] = [f]"
    "asked demo_deps demo_phone_end [RequestList] = [StageListRequested]"
    by (rule demo_request)
  have n: "sent demo_phone_end = 0" "sent demo_pc_end = 0"
    by (simp_all add: sent_def demo_phone_end_def demo_pc_end_def)
  have "told demo_deps demo_pc_end [PingPeer, Receive f 1 None] =
      asked demo_deps demo_phone_end [RequestList]"
    by (rule lossless_network_delivers_all [OF demo_deps_ok demo_paired demo_ends(1)]) (simp_all add: f(1) n)
  then show ?thesis using f by auto
qed

end
