(* ===== verification/ServerNetwork.thy ===== *)
theory ServerNetwork
  imports ServerFacts Network
begin

text \<open>
  The agent's session task on a hostile network. Every run of the task is a run of one end of a
  connection in the sense of \<open>Network\<close>: before each frame the task sets the pause flag from the
  shared state, and it answers list and item requests from the stage. What it reports to the
  agent is therefore bounded by what the phone asked for.
\<close>

section \<open>Clips asked for and clips reported\<close>

type_synonym clip = "ContentType \<times> bytes \<times> rstr"

definition pushed :: "SessionEvent list \<Rightarrow> clip list" where
  "pushed evs = List.map_filter
     (\<lambda>ev. case ev of ClipArrived i ct body name t \<Rightarrow> Some (ct, body, name) | _ \<Rightarrow> None) evs"

definition clips_reported :: "effect list \<Rightarrow> clip list" where
  "clips_reported effs = List.map_filter
     (\<lambda>e. case e of Event (AgentClipArrived ct body name) \<Rightarrow> Some (ct, body, name) | _ \<Rightarrow> None) effs"

text \<open>The frames among the inputs of a connection.\<close>

definition given :: "script list \<Rightarrow> Frame list" where
  "given is = List.map_filter (\<lambda>i. case in_next i of NextFrame f \<Rightarrow> Some f | _ \<Rightarrow> None) is"

lemma pushed_simps [simp]:
  "pushed [] = []" "pushed (as @ bs) = pushed as @ pushed bs"
  by (simp_all add: pushed_def map_filter_append List.map_filter_simps)

lemma clips_reported_simps [simp]:
  "clips_reported [] = []" "clips_reported (as @ bs) = clips_reported as @ clips_reported bs"
  "clips_reported (Wrote f # es) = clips_reported es"
  "clips_reported (disconnect cid) = []"
  by (simp_all add: clips_reported_def disconnect_def map_filter_append List.map_filter_simps
      split: option.split)

lemma given_simps [simp]:
  "given [] = []"
  "in_next i = NextFrame f \<Longrightarrow> given (i # is) = f # given is"
  by (simp_all add: given_def List.map_filter_simps)

lemma subseq_pushed: "subseq as bs \<Longrightarrow> subseq (pushed as) (pushed bs)"
  unfolding pushed_def by (rule subseq_map_filter)

section \<open>Runs end to end\<close>

lemma run_end_append:
  "fst (run_end d s (as @ bs)) = fst (run_end d (fst (run_end d s as)) bs)"
  "told d s (as @ bs) = told d s as @ told d (fst (run_end d s as)) bs"
  by (induction as arbitrary: s) (simp_all add: told_def case_prod_unfold)

lemma arrivals_append [simp]: "arrivals (as @ bs) = arrivals as @ arrivals bs"
  by (induction as rule: arrivals.induct) simp_all

lemma calls_silent: "list_all is_call as \<Longrightarrow> told d s as = [] \<and> arrivals as = []"
proof (induction as arbitrary: s)
  case (Cons a as)
  obtain s1 out evs where a: "act d s a = (s1, out, evs)" by (metis prod_cases3)
  have "evs = []" using call_shape [OF _ a] Cons.prems by simp
  then show ?case using Cons a by (cases a) (auto simp: told_def case_prod_unfold)
qed (simp add: told_def)

section \<open>The session task is a run\<close>

lemma handle_event_calls:
  assumes "handle_event d ev s st cid = (s', cid', effs, r)"
  shows "(\<exists>as. list_all is_call as \<and> fst (run_end d s as) = s') \<and>
    clips_reported effs = pushed (requests [Emit ev])"
proof -
  have one: "\<exists>as. list_all is_call as \<and> fst (run_end d s as) = fst (act d s a)" if "is_call a" for a
    using that by (intro exI [of _ "[a]"]) (simp add: case_prod_unfold)
  have stay: "\<exists>as. list_all is_call as \<and> fst (run_end d s as) = s" by (intro exI [of _ "[]"]) simp
  have issued: "fst (issue r what) = fst r" for r what by (metis issue_simps(1) prod.collapse)
  note sends = one [of "SendList ms" for ms, simplified, unfolded issued]
    one [of "SendItem c" for c, simplified, unfolded issued]
  show ?thesis
    using assms stay sends
    by (cases ev) (auto simp: handle_event_def clips_reported_def pushed_def List.map_filter_simps
      split: prod.splits sum.splits option.splits, (metis fst_conv)+)
qed

lemma session_actions_calls:
  assumes "session_actions d i st s cid acts = (s', cid', effs, r)"
  shows "(\<exists>as. list_all is_call as \<and> fst (run_end d s as) = s') \<and>
    subseq (clips_reported effs) (pushed (requests acts))"
  using assms
proof (induction acts arbitrary: s cid effs)
  case Nil
  then show ?case by (auto intro: exI [of _ "[]"])
next
  case (Cons a acts)
  have stay: "\<exists>as. list_all is_call as \<and> fst (run_end d s as) = s" by (intro exI [of _ "[]"]) simp
  show ?case
  proof (cases a)
    case (Send f)
    then show ?thesis using Cons stay by (auto split: sum.splits prod.splits)
  next
    case (Close why)
    then show ?thesis using Cons.prems stay by auto
  next
    case (Emit ev)
    obtain s1 cid1 effs1 r1 where h: "handle_event d ev s st cid = (s1, cid1, effs1, r1)"
      by (metis prod_cases4)
    obtain as1 where s1: "list_all is_call as1" "fst (run_end d s as1) = s1"
      and c1: "clips_reported effs1 = pushed (requests [Emit ev])"
      using handle_event_calls [OF h] by blast
    have p: "pushed (requests (a # acts)) = clips_reported effs1 @ pushed (requests acts)"
    proof -
      have "requests (a # acts) = requests [Emit ev] @ requests acts" by (simp add: Emit)
      then show ?thesis by (simp add: c1)
    qed
    have early: ?thesis if "s' = s1" "effs = effs1" using that s1 p by auto
    have late: ?thesis if l: "session_actions d i st s1 cid1 acts = (s', cid', effs2, r)"
      "clips_reported effs = clips_reported effs1 @ clips_reported effs2" for effs2
    proof -
      obtain as2 where "list_all is_call as2" "fst (run_end d s1 as2) = s'"
        "subseq (clips_reported effs2) (pushed (requests acts))"
        using Cons.IH [OF l(1)] by blast
      then show ?thesis using s1 p l(2)
        by (auto intro!: exI [of _ "as1 @ as2"] simp: run_end_append subseq_append_iff)
    qed
    show ?thesis
      using Cons.prems early late h
      by (auto simp: Emit split: sum.splits option.splits prod.splits)
  qed
qed

lemma session_task_told:
  assumes "session_wait d s cid is st = (st', effs, r)"
  shows "\<exists>ys. set (arrivals ys) \<subseteq> set (given is) \<and> subseq (clips_reported effs) (pushed (told d s ys))"
  using assms
proof (induction "is" arbitrary: s cid st effs)
  case Nil
  then show ?case by (intro exI [of _ "[]"]) auto
next
  case (Cons i "is")
  show ?case
  proof (cases "in_next i")
    case (NextFrame f)
    let ?s = "Session_set_paused s (AgentState_is_paused (in_update i st))"
    obtain s1 acts where f: "Session_on_frame d ?s f (in_now i) (in_rnd i) = (s1, acts)" by fastforce
    obtain s2 cid2 effs1 r1 where a: "session_actions d i (in_update i st) s1 cid acts = (s2, cid2, effs1, r1)"
      by (metis prod_cases4)
    obtain as where as: "list_all is_call as" "fst (run_end d s1 as) = s2"
      and c: "subseq (clips_reported effs1) (pushed (requests acts))"
      using session_actions_calls [OF a] by blast
    define ys where "ys = [SetPaused (AgentState_is_paused (in_update i st)), Receive f (in_now i) (in_rnd i)] @ as"
    have ys: "arrivals ys = [f]" "fst (run_end d s ys) = s2" "told d s ys = requests acts"
      using as calls_silent [OF as(1), of d s1]
      by (simp_all add: ys_def run_end_append f case_prod_unfold told_def)
    show ?thesis
    proof (cases r1)
      case None
      then obtain effs2 where w: "session_wait d s2 cid2 is (in_update i st) = (st', effs2, r)"
        "effs = effs1 @ effs2"
        using Cons.prems NextFrame f a by (auto simp: session_loop.simps split: prod.splits)
      obtain zs where zs: "set (arrivals zs) \<subseteq> set (given is)"
        "subseq (clips_reported effs2) (pushed (told d s2 zs))"
        using Cons.IH [OF w(1)] by blast
      show ?thesis
        by (intro exI [of _ "ys @ zs"])
          (use zs ys c w(2) NextFrame in \<open>auto simp: run_end_append intro: list_emb_append_mono\<close>)
    next
      case (Some r2)
      then have "effs = effs1" using Cons.prems NextFrame f a by (simp add: session_loop.simps)
      then show ?thesis by (intro exI [of _ ys]) (use ys c NextFrame in auto)
    qed
  qed (use Cons.prems in \<open>auto intro!: exI [of _ "[]"]\<close>)
qed

text \<open>The start of a session task, once the HELLO was accepted.\<close>

lemma clips_reported_connected [simp]:
  "clips_reported (Event (PeerConnected i) # es) = clips_reported es"
  by (simp add: clips_reported_def List.map_filter_simps)

lemma connection_after_hello:
  assumes "handle_connection d w (plain_input (NextFrame hello) t (Some f) # is) st = (st', effs, r)"
    and "Session_on_frame d (Session_set_paused (Session_new_pc pc (AgentState_peer_keys d st) t) False) hello t (Some f) =
       (pc1, [Send ack, Emit (EvEstablished i)])"
    and "frame_fits ack" "frame_ty hello = Hello" "ag_identity st = pc" "\<not> ag_paused st"
  obtains effs2 where "session_wait d pc1 (Some (DeviceId_hex i)) is st = (st', effs2, r)"
    "effs = [Wrote ack, Event (PeerConnected (DeviceId_hex i))] @ effs2"
proof -
  obtain st2 effs2 r2 where w: "session_wait d pc1 (Some (DeviceId_hex i)) is st = (st2, effs2, r2)"
    by (metis prod_cases3)
  have twice: "Session_set_paused (Session_set_paused s p) q = Session_set_paused s q" for s p q
    by (simp add: Session_set_paused_def)
  have "wire_send None ack = Inr ()" using assms(3) by (simp add: wire_send_ok frame_fits_def)
  then have "(st', effs, r) = (st2, [Wrote ack, Event (PeerConnected (DeviceId_hex i))] @ effs2, r2)"
    unfolding assms(1) [symmetric]
    using assms(2-6)
    by (simp add: handle_connection_def plain_input_def run_session_def session_loop.simps w
        AgentState_is_paused_def Let_def handle_event_def twice)
  then show ?thesis using w that by simp
qed

end
