(* ===== verification/Spec2Isabelle.thy ===== *)
theory Spec2Isabelle
  imports Compose Fuzz AgentSteps ServerNetwork
begin

text \<open>
  \<^bold>\<open>AirClip\<close> moves clipboard text between an iPhone and a Windows PC on the same network. The
  repository has a Rust core (\<open>src/crates/airclip-core\<close>), used by both ends, and a Windows agent
  (\<open>src/apps/windows\<close>). This development models both in HOL and proves what makes them correct.

  \<^bold>\<open>The program and its parts.\<close> A phone scans a QR code shown by the agent, both sides run the
  pairing machines and compare four emoji, and each stores the other's identity key. From then on
  the phone dials the PC, both run the session machine (a MACed handshake, then sealed frames),
  and the phone beams clips to the PC or pulls clips staged there. The agent puts an arrived clip
  on the clipboard, and stages what the user copies. The phone's app sees all of this through a
  handle (the FFI).

  \<^bold>\<open>Theories\<close>, in the order of the code:
  \<^item> \<open>Prelude\<close>, \<open>RustStd\<close>: results, little-endian words, strings as lists of scalar values, UTF-8,
    number formatting and splitting, as Rust's standard library has them; \<open>NetAddr\<close>: \<open>IpAddr\<close> and
    \<open>SocketAddr\<close> with their printers and parsers.
  \<^item> \<open>Deps\<close>: the third-party code (ciborium, X25519, HKDF, BLAKE3, ChaCha20-Poly1305, hex, base64,
    url) as one record of functions, and the laws the program relies on as predicates on it
    (\<open>deps_ok\<close> and its parts). \<open>Instance\<close> shows that the laws can hold together; the
    witnesses of the theorems use that instance.
  \<^item> \<open>Core\<close> (\<open>lib.rs\<close>, \<open>error.rs\<close>), \<open>Frame\<close> (\<open>frame.rs\<close>), \<open>Wire\<close> (the framed socket), \<open>CborMap\<close>
    (\<open>cbor.rs\<close>), \<open>Crypto\<close> (\<open>crypto.rs\<close>), \<open>Stage\<close> (\<open>stage.rs\<close>).
  \<^item> \<open>SansIo\<close>: the interface of a machine that is fed inputs and returns outputs, as a locale, with
    what follows for every such machine; \<open>Session\<close> (\<open>session.rs\<close>) and \<open>Pairing\<close> (\<open>pairing.rs\<close>) are
    the two state machines, and \<open>SessionHandshake\<close>, \<open>SessionTraffic\<close> and \<open>PairingFacts\<close> their theorems.
  \<^item> \<open>Network\<close>: two established sessions, the calls of their drivers and the network between them;
    \<open>ServerNetwork\<close>: the agent's session task as one end of such a connection.
  \<^item> \<open>Discovery\<close> (\<open>discovery.rs\<close>), \<open>Client\<close> and \<open>ClientFacts\<close> (\<open>client.rs\<close>), \<open>Ffi\<close> and \<open>FfiFacts\<close> (\<open>ffi.rs\<close>).
  \<^item> \<open>Keystore\<close> (\<open>keystore.rs\<close>), with the locale \<open>record_store\<close> that the pairing file and the
    phone's list of peers both interpret; \<open>Server\<close> and \<open>ServerFacts\<close> (\<open>server.rs\<close>); \<open>Clipboard\<close>
    (\<open>clipboard.rs\<close>); \<open>Toast\<close> (\<open>toast.rs\<close>); \<open>Tray\<close> (\<open>tray.rs\<close>); \<open>PairingWindow\<close> (\<open>pairing_window.rs\<close>);
    \<open>Agent\<close> and \<open>AgentFacts\<close> (\<open>main.rs\<close>).
  \<^item> \<open>AgentSteps\<close>: the running agent as a step relation, with connections, commands of the tray and
    copied clips in any order.
  \<^item> \<open>Simulate\<close> (\<open>simulate.rs\<close>): the phone of \<open>--simulate-peer\<close>; \<open>Fuzz\<close> (\<open>fuzz_targets/frame.rs\<close>): the
    fuzz target of the decoder.
  \<^item> \<open>Compose\<close> and this theory compose them: the theorems below run the phone's and the agent's own
    entry points against each other, and \<open>Compose\<close> holds the lemmas they share.

  \<^bold>\<open>How state and effects are modelled.\<close> A struct is a record, an enum a datatype, a method a
  function from the old state to the new one and its result; \<open>Result\<close> is a sum with the error on
  the left. Integers have the width of the source (\<open>u8\<close> to \<open>u64\<close> are words), and casts, saturating
  and checked operations are written out. What the environment decides is an input: the clock,
  random bytes (\<open>None\<close> when the generator fails), what a wait on the socket returned, whether a
  write, a file operation or a system call failed. A task of the server takes a list of such
  inputs (\<open>script\<close>), and every input carries a change that other tasks make to the shared
  state before it is processed, so the theorems on tasks cover their interleaving at the points
  where the source awaits. A call of the phone returns the frames it wrote to its socket beside its
  result, and the agent's outputs contain the frames it wrote, so the end-to-end theorems give each
  side exactly the frames the other one wrote. What lies in memory behind the clipboard's text, and
  what other programs do to the clipboard during a write, are inputs too. The loops of tasks recurse over that list, so no fuel is needed: every
  loop of the model is a total function, and a loop that would wait for more input ends as the
  source does when the peer closes.

  \<^bold>\<open>What is shown.\<close>
  \<^item> Wire format: frames survive any chunking, the streaming codec agrees with the slice decoder,
    decoding is canonical, no input makes the fuzz target panic or loop; CBOR maps round-trip and their
    reader is strict.
  \<^item> Cryptographic protocol, with the primitives abstract: sealed frames are delivered in order,
    accepted counters strictly increase, nonces never repeat, a replayed frame only closes the session.
    The safety theorems (what a PC or phone accepts) assume nothing about the peer or the
    primitives; the completeness theorems assume the laws of \<open>deps_ok\<close>.
  \<^item> Session and pairing: both complete between honest ends; a PC answers only an authentic HELLO
    and records a device only on proof; a phone confirms only after its user did; every
    reported clip was checked; failures and shutdowns are final.
  \<^item> Hostile network: frames may be lost, repeated, reordered and made up, as long as none is made that
    opens under the session key (\<open>cannot_forge\<close>). What an end reports is then a subsequence of what
    the other end's caller asked for, in both directions, and everything if nothing is lost; what
    the agent reports on a connection is a subsequence of the clips the phone pushed.
  \<^item> Persistence: the pairing file and the phone's peers refine a map; a failed save loses nothing;
    restarting the agent or the phone's core restores identity and peers after any history, and a
    running agent holds in memory what its files hold, whatever steps it took.
  \<^item> Agent: rate limiting, connection reports, the pairing window and what it draws, advertised hosts
    and the advertised service, clipboard round trip, copies reported to the last one, menu and
    autostart.
  \<^item> End to end: a scanned code and a confirmation leave phone and PC paired with each other; a beam
    on a paired phone arrives on the PC exactly, and is reported as sent; the simulated phone
    completes its whole transcript (pair, beam, list, pull) against an agent showing a code.
  Some theorems show where the code falls short of its own documentation: a beamed clip is staged
  again, an open window's token can be tried repeatedly, a failed task does not report the
  disconnection, an unreadable pairing file is overwritten, a paired phone without addresses
  calls itself unpaired, a failed scan hands its addresses to the pairing before it, an
  acknowledgement without a status counts as success, and a copy another program makes while the
  agent writes the clipboard is recorded as the agent's own.

  \<^bold>\<open>Bounds.\<close> The completeness theorems ask for the sizes the code fixes (16-byte identifiers, 32-byte
  keys, clips within \<open>MAX_TEXT_CLIP\<close>) and for counters with room left (\<open>has_room\<close>), which fresh
  channels have. A serialised map is at most a fixed overhead longer than its contents
  (part of \<open>cbor_faithful\<close>), which is what makes every frame fit \<open>MAX_FRAME_LEN\<close>.

  \<^bold>\<open>Not modelled\<close>: the layout, sizes and colours of widgets, the creation of windows, menus and
  icons, logging and console output, which have no effect on the state; the scheduling of tokio
  and of threads inside a step, and real time other than the readings and deadlines above; the
  mDNS daemon, DPAPI, serde\_json, the QR encoder and the operating system, which are parameters;
  builds of the agent for other systems than Windows; the Swift app, the generated bindings, tests
  and build files.
  Lengths and counts that Rust holds in \<open>usize\<close> are natural numbers.
\<close>

section \<open>A beam from end to end\<close>

text \<open>
  C1: A beam arrives, from the app's call to the agent's event. For a paired phone and PC with a
  reachable address, clocks within the window, the PC not paused and a text within the cap,
  there are four frames such that: the agent, serving a connection on which the phone's two
  arrive, writes the other two and reports the phone connected, exactly one clip with exactly
  the text's bytes, the type the phone gave it and its source name, and the phone disconnected;
  and the app's call, receiving the agent's two frames, writes exactly the two frames the agent
  was given, in that order, and answers that the clip was sent under the identifier drawn for it.
\<close>

theorem beam_end_to_end:
  assumes d: "deps_ok d" "hex_faithful d" "base64_faithful d"
    and ids: "phone = IdentityKeypair_from_seed d a" "pc = IdentityKeypair_from_seed d b"
    and lens: "length a = 32" "length b = 32" "length e = 32" "length f = 32" "length clip_id = 8"
    and h: "phone_paired_with d h phone pc" and st: "pc_paired_with d st pc phone" "\<not> ag_paused st"
    and dial: "cs_hints (ch_state h) \<noteq> []" "dial (cs_hints (ch_state h)) results = Inr addr"
    and skew: "abs_diff t1 t2 \<le> HELLO_TS_WINDOW_MS"
    and t: "text_ok t"
  shows "\<exists>hello ack push ack2.
    handle_connection d w [plain_input (NextFrame hello) t2 (Some f), plain_input (NextFrame push) t5 None] st =
      (st, [Wrote ack, Event (PeerConnected (DeviceId_hex (IdentityKeypair_device_id d phone))),
            Event (AgentClipArrived (ffi_classify t) (as_bytes t) (lit ''iPhone'')), Wrote ack2,
            Event (PeerDisconnected (DeviceId_hex (IdentityKeypair_device_id d phone)))], Inr ()) \<and>
    beam_text_await d dbg h t ms
      \<lparr> cm_open = \<lparr> ex_dial = results, ex_start_ms = t1, ex_rnd = Some e, ex_send_err = None,
                    ex_reply = NextFrame ack, ex_reply_ms = t3, ex_reply_rnd = None \<rparr>,
        cm_now = t4, cm_rnd = Some clip_id, cm_send_err = None,
        cm_replies = [\<lparr> ci_next = NextFrame ack2, ci_now = t6, ci_rnd = None \<rparr>] \<rparr> =
      (h, [hello, push], Sent (hex_encode clip_id))"
proof -
  let ?i = "IdentityKeypair_device_id d phone" and ?j = "IdentityKeypair_device_id d pc"
  have w: "length (device_bytes ?j) = 16" "length (id_public pc) = 32"
    using deps_okD(2) [OF d(1)] by (simp_all add: ids IdentityKeypair_device_id_def IdentityKeypair_from_seed_def fixed_widthsD)
  obtain ph hello pc1 ack ph1 where hs: "start_phone d phone (peer_key_of d pc) t1 (Some e) = Inr (ph, hello)"
    "Session_on_frame d (Session_set_paused (Session_new_pc pc (AgentState_peer_keys d st) t2) False) hello t2 (Some f) =
       (pc1, [Send ack, Emit (EvEstablished ?i)])"
    "Session_on_frame d ph ack t3 None = (ph1, [Emit (EvEstablished ?j)])"
    "paired_sessions d ph1 pc1" "fresh_channel ph1" "fresh_channel pc1" "frame_fits hello" "frame_fits ack"
    "frame_ty hello = Hello"
    by (rule paired_handshake [OF d ids lens(1-4) st(1) skew, of t3])
  have ends: "paired_sessions d ph1 (Session_set_paused pc1 False)" "\<not> paused (Session_set_paused pc1 False)"
    "has_room ph1" "has_room (Session_set_paused pc1 False)"
    using hs(4-6) by (simp_all add: fresh_has_room) (simp add: Session_set_paused_def)
  have name: "valid_str (lit ''iPhone'')" "str_len (lit ''iPhone'') \<le> MAX_TEXT_CLIP"
    by (simp_all add: MAX_TEXT_CLIP_def valid_str_def valid_char_def lit_def str_len_def as_bytes_def utf8_char_def)
  obtain ph2 push pc2 ack2 ph3 where cl:
    "Session_push_clip d ph1 (ffi_classify t) (as_bytes t) (lit ''iPhone'') t4 (Some clip_id) = (ph2, Inr (push, clip_id))"
    "frame_fits push" "Session_on_frame d (Session_set_paused pc1 False) push t5 None =
      (pc2, [Emit (ClipArrived clip_id (ffi_classify t) (as_bytes t) (lit ''iPhone'') t4), Send ack2])"
    "frame_fits ack2" "Session_on_frame d ph2 ack2 t6 None = (ph3, [Emit (ClipAcked clip_id 0)])"
    using clip_ends [OF d(1) ends lens(5) t [unfolded text_ok_def] name, of "ffi_classify t" t4 t5 None t6 None] by blast
  have server: "handle_connection d w [plain_input (NextFrame hello) t2 (Some f), plain_input (NextFrame push) t5 None] st =
      (st, [Wrote ack, Event (PeerConnected (DeviceId_hex ?i)),
            Event (AgentClipArrived (ffi_classify t) (as_bytes t) (lit ''iPhone'')), Wrote ack2,
            Event (PeerDisconnected (DeviceId_hex ?i))], Inr ())"
    using hs(2,8,9) cl(3,4) st by (intro session_serves_clip) (simp_all add: pc_paired_with_def)
  have params: "connection_params d h = Inr (phone, peer_key_of d pc, cs_hints (ch_state h))"
    using h dial(1) record_keys [OF d(2,3) w]
    by (auto simp: connection_params_def phone_paired_with_def peer_key_of_def Let_def)
  have "beam_text_await d dbg h t ms
      \<lparr> cm_open = \<lparr> ex_dial = results, ex_start_ms = t1, ex_rnd = Some e, ex_send_err = None,
                    ex_reply = NextFrame ack, ex_reply_ms = t3, ex_reply_rnd = None \<rparr>,
        cm_now = t4, cm_rnd = Some clip_id, cm_send_err = None,
        cm_replies = [\<lparr> ci_next = NextFrame ack2, ci_now = t6, ci_rnd = None \<rparr>] \<rparr> =
      (h, [hello, push], Sent (hex_encode clip_id))"
    using open_then [OF hs(1,7) dial(2) hs(3)]
      beam_acknowledged [OF _ cl(2,5) t [unfolded text_ok_def], of
        "\<lparr> cn_wire = [hello], cn_session = ph1, cn_op_timeout = op_timeout ms \<rparr>" "ffi_classify t" "lit ''iPhone''" t4 "Some clip_id"]
      cl(1)
    by (simp add: beam_text_await_def params beam_exchange_def over_connection_def)
  with server show ?thesis by blast
qed

definition demo_paired_phone :: CoreHandle where
  "demo_paired_phone = demo_core\<lparr> ch_state := (ch_state demo_core)\<lparr> cs_peers := [demo_pc_record],
     cs_hints := [(V4 [10, 0, 0, 2], 47800)] \<rparr> \<rparr>"

definition demo_paired_agent :: AgentState where
  "demo_paired_agent = demo_agent\<lparr> ag_peers := [PairingRecord_new demo_deps
     (IdentityKeypair_device_id demo_deps (demo_id 1)) (id_public (demo_id 1)) (lit ''iPhone'') 5] \<rparr>"

lemma demo_pairing_held:
  "phone_paired_with demo_deps demo_paired_phone (demo_id 1) (demo_id 2)"
  "pc_paired_with demo_deps demo_paired_agent (demo_id 2) (demo_id 1)"
  by (auto simp: phone_paired_with_def pc_paired_with_def demo_paired_phone_def demo_paired_agent_def demo_core_def
      demo_pc_record_def demo_agent_def AgentState_new_def record_for_def PairingRecord_new_def)

theorem beam_end_to_end_witness:
  "\<exists>hello ack push ack2.
    handle_connection demo_deps demo_platform
      [plain_input (NextFrame hello) 1000 (Some (replicate 32 4)), plain_input (NextFrame push) 1100 None] demo_paired_agent =
      (demo_paired_agent, [Wrote ack, Event (PeerConnected (DeviceId_hex (IdentityKeypair_device_id demo_deps (demo_id 1)))),
         Event (AgentClipArrived Text (as_bytes (lit ''Hi'')) (lit ''iPhone'')), Wrote ack2,
         Event (PeerDisconnected (DeviceId_hex (IdentityKeypair_device_id demo_deps (demo_id 1))))], Inr ()) \<and>
    beam_text_await demo_deps (\<lambda>_. []) demo_paired_phone (lit ''Hi'') 0
      \<lparr> cm_open = \<lparr> ex_dial = [((V4 [10, 0, 0, 2], 47800), True)], ex_start_ms = 900, ex_rnd = Some (replicate 32 3),
                    ex_send_err = None, ex_reply = NextFrame ack, ex_reply_ms = 1001, ex_reply_rnd = None \<rparr>,
        cm_now = 1002, cm_rnd = Some (replicate 8 9), cm_send_err = None,
        cm_replies = [\<lparr> ci_next = NextFrame ack2, ci_now = 1101, ci_rnd = None \<rparr>] \<rparr> =
      (demo_paired_phone, [hello, push], Sent (hex_encode (replicate 8 9)))"
proof -
  have p: "\<not> ag_paused demo_paired_agent" "cs_hints (ch_state demo_paired_phone) = [(V4 [10, 0, 0, 2], 47800)]"
    by (simp_all add: demo_paired_agent_def demo_agent_def AgentState_new_def demo_paired_phone_def)
  have t: "text_ok (lit ''Hi'')" "ffi_classify (lit ''Hi'') = Text" "abs_diff 900 1000 \<le> HELLO_TS_WINDOW_MS"
    by (simp_all add: text_ok_def MAX_TEXT_CLIP_def as_bytes_def utf8_char_def lit_def ffi_classify_def
        trim_def is_whitespace_def starts_with_def abs_diff_def HELLO_TS_WINDOW_MS_def)
  have a: "dial (cs_hints (ch_state demo_paired_phone)) [((V4 [10, 0, 0, 2], 47800), True)] = Inr (V4 [10, 0, 0, 2], 47800)"
    by (simp add: p dial_def)
  show ?thesis
    using beam_end_to_end [OF demo_deps_ok demo_text demo_id_def demo_id_def _ _ _ _ _ demo_pairing_held p(1) _ a t(3) t(1),
        of "replicate 32 3" "replicate 32 4" "replicate 8 9"] p(2) t(2)
    by simp
qed

section \<open>The agent on a hostile network\<close>

text \<open>
  C3: The network cannot make the agent report a clip. For a paired phone and PC with clocks within the
  window and the PC not paused when the phone connects, let the phone's HELLO reach the agent and the
  answer reach the phone. Whatever the phone's caller then does and whatever inputs follow on the
  connection (frames lost, repeated, reordered or made up, timeouts, failed writes, and any changes
  other tasks make to the agent), as long as nothing opens under the phone's key that the phone did
  not send: the agent first answers and reports the phone connected, and the clips it ever reports on
  that connection are a subsequence of those the phone's caller pushed, each with its type, body and
  source name.
\<close>

theorem agent_reports_only_pushed_clips:
  assumes d: "deps_ok d" "hex_faithful d" "base64_faithful d"
    and ids: "phone = IdentityKeypair_from_seed d a" "pc = IdentityKeypair_from_seed d b"
    and lens: "length a = 32" "length b = 32" "length e = 32" "length f = 32"
    and st: "pc_paired_with d st pc phone" "\<not> ag_paused st"
    and skew: "abs_diff t1 t2 \<le> HELLO_TS_WINDOW_MS"
  shows "\<exists>ph hello ack ph1.
    start_phone d phone (peer_key_of d pc) t1 (Some e) = Inr (ph, hello) \<and>
    Session_on_frame d ph ack t3 None = (ph1, [Emit (EvEstablished (IdentityKeypair_device_id d pc))]) \<and>
    (\<forall>xs is st' effs r. list_all activity_ok xs \<and> cannot_forge d ph1 xs (given is) \<and>
       handle_connection d w (plain_input (NextFrame hello) t2 (Some f) # is) st = (st', effs, r) \<longrightarrow>
       take 2 effs = [Wrote ack, Event (PeerConnected (DeviceId_hex (IdentityKeypair_device_id d phone)))] \<and>
       subseq (clips_reported effs) (pushed (asked d ph1 xs)))"
proof -
  obtain ph hello pc1 ack ph1 where hs: "start_phone d phone (peer_key_of d pc) t1 (Some e) = Inr (ph, hello)"
    "Session_on_frame d (Session_set_paused (Session_new_pc pc (AgentState_peer_keys d st) t2) False) hello t2 (Some f) =
       (pc1, [Send ack, Emit (EvEstablished (IdentityKeypair_device_id d phone))])"
    "Session_on_frame d ph ack t3 None = (ph1, [Emit (EvEstablished (IdentityKeypair_device_id d pc))])"
    "paired_sessions d ph1 pc1" "frame_fits ack" "frame_ty hello = Hello"
    by (rule paired_handshake [OF d ids lens st(1) skew, of t3])
  have agent: "ag_identity st = pc" using st(1) by (simp add: pc_paired_with_def)
  have "take 2 effs = [Wrote ack, Event (PeerConnected (DeviceId_hex (IdentityKeypair_device_id d phone)))] \<and>
      subseq (clips_reported effs) (pushed (asked d ph1 xs))"
    if run: "list_all activity_ok xs" "cannot_forge d ph1 xs (given is)"
      "handle_connection d w (plain_input (NextFrame hello) t2 (Some f) # is) st = (st', effs, r)"
    for xs "is" st' effs r
  proof -
    let ?cid = "Some (DeviceId_hex (IdentityKeypair_device_id d phone))"
    obtain effs2 where w: "session_wait d pc1 ?cid is st = (st', effs2, r)"
      and effs: "effs = [Wrote ack, Event (PeerConnected (DeviceId_hex (IdentityKeypair_device_id d phone)))] @ effs2"
      using run(3) hs(2,5,6) agent st(2) by (rule connection_after_hello)
    obtain ys where ys: "set (arrivals ys) \<subseteq> set (given is)"
      "subseq (clips_reported effs2) (pushed (told d pc1 ys))"
      using session_task_told [OF w] by blast
    have "cannot_forge d ph1 xs (arrivals ys)" using run(2) ys(1) by (auto simp: cannot_forge_def)
    then have "subseq (pushed (told d pc1 ys)) (pushed (asked d ph1 xs))"
      by (intro subseq_pushed told_subseq [OF d(1) hs(4) run(1)])
    with ys(2) have "subseq (clips_reported effs2) (pushed (asked d ph1 xs))"
      by (rule subseq_order.trans)
    then show ?thesis by (simp add: effs clips_reported_connected)
  qed
  with hs(1,3) show ?thesis by blast
qed

lemma push_once: "subseq (pushed (asked d s [PushClip ct body name t rnd])) [(ct, body, name)]"
  by (auto simp: asked_def pushed_def List.map_filter_simps split: prod.split sum.split)

theorem agent_reports_only_pushed_clips_witness:
  "\<exists>hello ph1. \<forall>fs. fs = frames_sent demo_deps ph1 [PushClip Text [72, 105] (lit ''iPhone'') 7 (Some (replicate 8 9))] \<longrightarrow>
    subseq (clips_reported (fst (snd (handle_connection demo_deps demo_platform
        (plain_input (NextFrame hello) 1000 (Some (replicate 32 4)) #
         map (\<lambda>g. plain_input (NextFrame g) 1100 None) (fs @ fs)) demo_paired_agent))))
      [(Text, [72, 105], lit ''iPhone'')]"
proof -
  let ?xs = "[PushClip Text [72, 105] (lit ''iPhone'') 7 (Some (replicate 8 9))]"
  have p: "\<not> ag_paused demo_paired_agent" "abs_diff 900 1000 \<le> HELLO_TS_WINDOW_MS"
    by (simp_all add: demo_paired_agent_def demo_agent_def AgentState_new_def abs_diff_def HELLO_TS_WINDOW_MS_def)
  have ok: "list_all activity_ok ?xs"
    by (simp add: MAX_TEXT_CLIP_def valid_str_def valid_char_def lit_def str_len_def as_bytes_def utf8_char_def)
  have l: "length (replicate 32 (x :: byte)) = 32" for x by simp
  obtain ph hello ack ph1 where r: "\<forall>xs is st' effs r. list_all activity_ok xs \<and> cannot_forge demo_deps ph1 xs (given is) \<and>
      handle_connection demo_deps demo_platform (plain_input (NextFrame hello) 1000 (Some (replicate 32 4)) # is)
        demo_paired_agent = (st', effs, r) \<longrightarrow>
      take 2 effs = [Wrote ack, Event (PeerConnected (DeviceId_hex (IdentityKeypair_device_id demo_deps (demo_id 1))))] \<and>
      subseq (clips_reported effs) (pushed (asked demo_deps ph1 xs))"
    using agent_reports_only_pushed_clips [OF demo_deps_ok demo_text demo_id_def demo_id_def l l l l
        demo_pairing_held(2) p, where w = demo_platform] by blast
  have g: "set (given (map (\<lambda>g. plain_input (NextFrame g) 1100 None) gs)) \<subseteq> set gs" for gs
    by (auto simp: given_def plain_input_def map_filter_def)
  have r': "subseq (clips_reported (fst (snd (handle_connection demo_deps demo_platform
        (plain_input (NextFrame hello) 1000 (Some (replicate 32 4)) # is) demo_paired_agent))))
      (pushed (asked demo_deps ph1 ?xs))" if "cannot_forge demo_deps ph1 ?xs (given is)" for "is"
  proof (cases "handle_connection demo_deps demo_platform
      (plain_input (NextFrame hello) 1000 (Some (replicate 32 4)) # is) demo_paired_agent")
    case (fields st' effs u)
    then show ?thesis using r [rule_format, OF conjI [OF ok conjI [OF that fields]]] by simp
  qed
  have "cannot_forge demo_deps ph1 ?xs (given (map (\<lambda>g. plain_input (NextFrame g) 1100 None)
      (frames_sent demo_deps ph1 ?xs @ frames_sent demo_deps ph1 ?xs)))"
    using g [of "frames_sent demo_deps ph1 ?xs @ frames_sent demo_deps ph1 ?xs"] by (auto simp: cannot_forge_def)
  from subseq_order.trans [OF r' [OF this] push_once] show ?thesis
    by (intro exI [of _ hello] exI [of _ ph1] allI impI) (simp only:)
qed

section \<open>A first visit from end to end\<close>

text \<open>
  C11: The acceptance run succeeds. An agent with readable files opens a pairing window; a simulated
  phone is given the URL it shows. Provided the phone's request arrives within the token's
  lifetime, the clocks agree within the window and the agent is not paused, there are frames
  such that: the agent, serving a connection on which the phone's two pairing frames arrive,
  shows the emoji and records the phone; serving a second one on which the session frames
  arrive, it reports the phone, exactly the beamed text, and its departure; and the phone,
  receiving the agent's answers, runs to the end: it has recorded the PC, seen exactly the
  agent's staged list, and pulled the body of the newest staged clip if there is one.
\<close>

theorem simulated_peer_passes:
  assumes d: "deps_ok d" "hex_faithful d" "base64_faithful d" "url_faithful d"
    and lens: "length a = 32" "length b = 32" "length e1 = 32" "length e2 = 32" "length f1 = 32" "length f2 = 32"
      "length clip_id = 8" "length token = 16"
    and st0: "ag_identity st0 = IdentityKeypair_from_seed d b" "valid_str (ag_display_name st0)" "\<not> ag_paused st0"
      "stage_ok (ag_stage st0)"
    and files: "platform_ok w" "load_pairings w no_faults (ag_files st0) = Inr rs"
      "\<forall>r \<in> set rs. \<exists>j. pr_device_id r = DeviceId_hex j"
    and opened: "open_pairing_window d (Some is) (Some token) t0 st0 port = (st, Inr url)"
    and clocks: "unat (pnow StepPair) - unat t0 \<le> unat PAIR_TOKEN_TTL_MS"
      "abs_diff (now StepHello) (pnow StepHello) \<le> HELLO_TS_WINDOW_MS"
    and ids: "phone = IdentityKeypair_from_seed d a" "pc = IdentityKeypair_from_seed d b"
  shows "\<exists>req pack sas conf st1 hello hack push cack lreq reply gets items.
    handle_connection d w [plain_input (NextFrame req) (pnow StepPair) (Some f1),
        plain_input (NextFrame conf) (pnow StepConfirm) None] st =
      (st1, [Wrote pack, Event (PairingSas sas), Event (Paired (PairingRecord_new d
         (IdentityKeypair_device_id d phone) (id_public phone) SIM_NAME (pnow StepConfirm)))], Inr ()) \<and>
    handle_connection d w ([plain_input (NextFrame hello) (pnow StepHello) (Some f2), plain_input (NextFrame push) (pnow StepPush) None,
        plain_input (NextFrame lreq) (pnow StepList) None] @ map (\<lambda>g. plain_input (NextFrame g) (pnow StepGet) None) gets) st1 =
      (st1, [Wrote hack, Event (PeerConnected (DeviceId_hex (IdentityKeypair_device_id d phone))),
             Event (AgentClipArrived Text (as_bytes SIM_TEXT) SIM_NAME), Wrote cack, Wrote reply] @ map Wrote items @
            [Event (PeerDisconnected (DeviceId_hex (IdentityKeypair_device_id d phone)))], Inr ()) \<and>
    simulate_run d (honest_run a e1 e2 clip_id now rnow pack hack cack reply items) url =
      Inr \<lparr> sd_record = PairingRecord_new d (IdentityKeypair_device_id d pc) (id_public pc) (ag_display_name st0) (now StepConfirm),
            sd_items = StageRing_list (ag_stage st0), sd_body = map_option sc_body (StageRing_newest (ag_stage st0)),
            sd_pairing_frames = [req, conf], sd_session_frames = [hello, push, lreq] @ gets \<rparr>"
proof -
  let ?pcrec = "PairingRecord_new d (IdentityKeypair_device_id d pc) (id_public pc) (ag_display_name st0) (now StepConfirm)"
  have name: "valid_str SIM_NAME" "str_len SIM_NAME \<le> MAX_TEXT_CLIP"
    by (simp_all add: SIM_NAME_def MAX_TEXT_CLIP_def valid_str_def valid_char_def lit_def str_len_def as_bytes_def utf8_char_def)
  obtain qr ph req pack sas ph1 ph2 conf st1 where pr:
    "QrPayload_parse d url = Inr qr" "qr_hosts qr = map host_text (advertised is port)" "advertised is port \<noteq> []"
    "PhonePairing_start d phone SIM_NAME qr (Some e1) = Inr (ph, req)" "frame_fits req" "frame_ty pack = PairAck"
    "PhonePairing_on_frame d ph pack = (ph1, [ShowSas sas])"
    "confirm_sas d ph1 (now StepConfirm) = (ph2, [PSend conf, Completed ?pcrec])" "frame_fits conf"
    "handle_connection d w [plain_input (NextFrame req) (pnow StepPair) (Some f1),
        plain_input (NextFrame conf) (pnow StepConfirm) None] st =
       (st1, [Wrote pack, Event (PairingSas sas), Event (Paired (PairingRecord_new d
         (IdentityKeypair_device_id d phone) (id_public phone) SIM_NAME (pnow StepConfirm)))], Inr ())"
    "pc_paired_with d st1 pc phone" "ag_paused st1 = ag_paused st0" "ag_stage st1 = ag_stage st0"
    by (rule pairing_both_sides [where ?t2.0 = "now StepConfirm" and ?t3.0 = "pnow StepConfirm",
          OF d ids lens(1,2,3,5,8) name st0(1) [folded ids(2)] st0(2) files opened clocks(1)])
  obtain host hosts where h: "qr_hosts qr = host # hosts" using pr(2,3) by (cases "advertised is port") auto
  have st1: "\<not> ag_paused st1" "stage_ok (ag_stage st1)" using pr(12,13) st0 by simp_all
  obtain hello hack push cack lreq reply gets items where v:
    "handle_connection d w ([plain_input (NextFrame hello) (pnow StepHello) (Some f2), plain_input (NextFrame push) (pnow StepPush) None,
        plain_input (NextFrame lreq) (pnow StepList) None] @ map (\<lambda>g. plain_input (NextFrame g) (pnow StepGet) None) gets) st1 =
      (st1, [Wrote hack, Event (PeerConnected (DeviceId_hex (IdentityKeypair_device_id d phone))),
             Event (AgentClipArrived Text (as_bytes SIM_TEXT) SIM_NAME), Wrote cack, Wrote reply] @ map Wrote items @
            [Event (PeerDisconnected (DeviceId_hex (IdentityKeypair_device_id d phone)))], Inr ())"
    "sim_visit d (honest_run a e1 e2 clip_id now rnow pack hack cack reply items) phone ?pcrec host =
      Inr (StageRing_list (ag_stage st0), map_option sc_body (StageRing_newest (ag_stage st0)), [hello, push, lreq] @ gets)"
    using visit_both_sides [where now = now and pnow = pnow and rnow = rnow and host = host and w = w,
        OF d(1-3) ids lens(1,2,4,6,7) pr(11) st1 refl clocks(2)] pr(13) by metis
  note paired = sim_pair_done [where now = now and seed = a and ?e2.0 = e2 and clip_id = clip_id and rnow = rnow
      and ?a2.0 = hack and ?a3.0 = cack and ?a4.0 = reply and as = items and host = host, OF pr(4-9)]
  have seed: "sp_seed (honest_run a e1 e2 clip_id now rnow pack hack cack reply items) = Some a"
    by (simp add: honest_run_def)
  show ?thesis
    using simulate_run_visit [OF pr(1) seed h paired [unfolded ids(1)] v(2) [unfolded ids(1)]] pr(10) v(1) by metis
qed

lemma demo_opened:
  "\<exists>st url. open_pairing_window demo_deps (Some demo_ifaces) (Some (replicate 16 7)) 5 demo_agent 49517 = (st, Inr url)"
proof -
  have "advertised demo_ifaces 49517 \<noteq> []"
    by (simp add: advertised_def demo_ifaces_def usable_def is_link_local_def)
  then show ?thesis by (auto simp: open_pairing_window_def local_hosts_text Let_def)
qed

lemma demo_agent_facts:
  "ag_identity demo_agent = IdentityKeypair_from_seed demo_deps (replicate 32 2)" "valid_str (ag_display_name demo_agent)"
  "\<not> ag_paused demo_agent" "stage_ok (ag_stage demo_agent)" "StageRing_list (ag_stage demo_agent) = []"
  "load_pairings demo_platform no_faults (ag_files demo_agent) = Inr []"
  by (simp_all add: demo_agent_def AgentState_new_def demo_id_def valid_str_def lit_def valid_char_def stage_ok_def
      StageRing_default_def StageRing_new_def ring_inv_def STAGE_DEPTH_def StageRing_list_def load_pairings_def)

theorem simulated_peer_passes_witness:
  "\<exists>st url i out. open_pairing_window demo_deps (Some demo_ifaces) (Some (replicate 16 7)) 5 demo_agent 49517 = (st, Inr url) \<and>
     simulate_run demo_deps i url = Inr out \<and> sd_items out = [] \<and>
     pr_device_id (sd_record out) = DeviceId_hex (IdentityKeypair_device_id demo_deps (demo_id 2))"
proof -
  obtain st url where o: "open_pairing_window demo_deps (Some demo_ifaces) (Some (replicate 16 7)) 5 demo_agent 49517 = (st, Inr url)"
    using demo_opened by blast
  have t: "unat (9 :: u64) - unat (5 :: u64) \<le> unat PAIR_TOKEN_TTL_MS" "abs_diff 9 (9 :: u64) \<le> HELLO_TS_WINDOW_MS"
    by (simp_all add: PAIR_TOKEN_TTL_MS_def)
  obtain i out where "simulate_run demo_deps i url = Inr out" "sd_items out = []"
    "sd_record out = PairingRecord_new demo_deps
       (IdentityKeypair_device_id demo_deps (IdentityKeypair_from_seed demo_deps (replicate 32 2)))
       (id_public (IdentityKeypair_from_seed demo_deps (replicate 32 2))) (ag_display_name demo_agent) 9"
    using simulated_peer_passes [where rs = "[]" and now = "\<lambda>s. 9" and pnow = "\<lambda>s. 9" and rnow = "\<lambda>s. 9", OF demo_deps_ok demo_text demo_url
        _ _ _ _ _ _ _ _ demo_agent_facts(1-4) demo_platform_ok demo_agent_facts(6) _ o t refl refl,
        of "replicate 32 1" "replicate 32 3" "replicate 32 4" "replicate 32 5" "replicate 32 6" "replicate 8 9"]
      demo_agent_facts(5)
    by auto
  then show ?thesis using o new_record(1) unfolding demo_id_def by metis
qed

section \<open>Pairing from the app\<close>

text \<open>
  C2: Pairing from the app leaves both sides ready. A phone core with no peers is given the URL of
  an agent's open window, reaches one of its addresses, and its user confirms. There are two
  frames, a request and a confirmation, such that the call that starts the pairing writes exactly
  the request and the call that confirms it writes exactly the confirmation; and the agent, given
  these two frames, answers with the frame the app receives, shows the same four emoji the app
  was told, records the phone and closes the window. The app is told it is paired. Afterwards each side holds the other's true
  identity, the app's addresses are exactly those the agent advertised, each once, and the
  keychain restores the new peer: the state every later beam starts from.
\<close>

theorem app_pairs_with_agent:
  assumes d: "deps_ok d" "hex_faithful d" "base64_faithful d" "url_faithful d" "json_ok j"
    and ids: "phone = IdentityKeypair_from_seed d a" "pc = IdentityKeypair_from_seed d b"
    and lens: "length a = 32" "length b = 32" "length e = 32" "length f = 32" "length token = 16"
    and name: "valid_str name" "str_len name \<le> MAX_TEXT_CLIP"
    and h: "cs_identity (ch_state h) = phone" "cs_peers (ch_state h) = []" "cs_hints (ch_state h) = []"
    and st0: "ag_identity st0 = pc" "valid_str (ag_display_name st0)"
    and files: "platform_ok w" "load_pairings w no_faults (ag_files st0) = Inr rs"
      "\<forall>r \<in> set rs. \<exists>j. pr_device_id r = DeviceId_hex j"
    and ifaces: "\<forall>i \<in> set is. ip_wf (if_ip i)"
    and opened: "open_pairing_window d (Some is) (Some token) t0 st0 port = (st, Inr url)"
    and ttl: "unat t1 - unat t0 \<le> unat PAIR_TOKEN_TTL_MS"
    and dial: "dial (advertised is port) results = Inr addr"
  shows "\<exists>req pack sas conf st1 h1 h2.
    handle_connection d w [plain_input (NextFrame req) t1 (Some f), plain_input (NextFrame conf) t3 None] st =
      (st1, [Wrote pack, Event (PairingSas sas), Event (Paired
         (PairingRecord_new d (IdentityKeypair_device_id d phone) (id_public phone) name t3))], Inr ()) \<and>
    start_pairing d dbg h url name \<lparr> ex_dial = results, ex_start_ms = ts, ex_rnd = Some e, ex_send_err = None,
      ex_reply = NextFrame pack, ex_reply_ms = t2, ex_reply_rnd = None \<rparr> = (h1, [req], Inr ()) \<and>
    ch_events h1 = ch_events h @ [CorePairingSas sas] \<and>
    core_confirm_sas j h1 None = (h2, [conf], Inr ()) \<and>
    ch_events h2 = ch_events h1 @ [CorePaired (DeviceId_hex (IdentityKeypair_device_id d pc)) (ag_display_name st0)] \<and>
    phone_paired_with d h2 phone pc \<and> restored j (ch_keystore h2) = cs_peers (ch_state h2) \<and>
    distinct (cs_hints (ch_state h2)) \<and> set (cs_hints (ch_state h2)) = set (advertised is port) \<and>
    pc_paired_with d st1 pc phone \<and> ag_pairing st1 = None"
proof -
  let ?pcrec = "PairingRecord_new d (IdentityKeypair_device_id d pc) (id_public pc) (ag_display_name st0) t2"
  obtain qr ph req pack sas ph1 ph2 conf st1 where pr:
    "QrPayload_parse d url = Inr qr" "qr_hosts qr = map host_text (advertised is port)"
    "PhonePairing_start d phone name qr (Some e) = Inr (ph, req)" "frame_fits req" "frame_ty pack = PairAck"
    "PhonePairing_on_frame d ph pack = (ph1, [ShowSas sas])"
    "confirm_sas d ph1 t2 = (ph2, [PSend conf, Completed ?pcrec])" "frame_fits conf"
    "handle_connection d w [plain_input (NextFrame req) t1 (Some f), plain_input (NextFrame conf) t3 None] st =
      (st1, [Wrote pack, Event (PairingSas sas), Event (Paired
         (PairingRecord_new d (IdentityKeypair_device_id d phone) (id_public phone) name t3))], Inr ())"
    "pc_paired_with d st1 pc phone" "ag_pairing st1 = None"
    by (rule pairing_both_sides [where ?t2.0 = t2 and ?t3.0 = t3, OF d(1-4) ids lens name st0 files opened ttl])
  have hosts: "resolve_hosts (qr_hosts qr) = advertised is port"
    using hosts_resolve [OF ifaces] by (simp add: pr(2))
  obtain h1 h2 where app: "start_pairing d dbg h url name \<lparr> ex_dial = results, ex_start_ms = ts, ex_rnd = Some e,
      ex_send_err = None, ex_reply = NextFrame pack, ex_reply_ms = t2, ex_reply_rnd = None \<rparr> = (h1, [req], Inr ())"
    "ch_events h1 = ch_events h @ [CorePairingSas sas]" "core_confirm_sas j h1 None = (h2, [conf], Inr ())"
    "ch_events h2 = ch_events h1 @ [CorePaired (pr_device_id ?pcrec) (pr_display_name ?pcrec)]"
    "cs_identity (ch_state h2) = phone" "cs_peers (ch_state h2) = [?pcrec]" "restored j (ch_keystore h2) = [?pcrec]"
    "distinct (cs_hints (ch_state h2))" "set (cs_hints (ch_state h2)) = set (advertised is port)"
    by (rule app_side [OF d(5) h pr(1) hosts dial pr(3-8)])
  have "phone_paired_with d h2 phone pc" using app(5,6) by (auto simp: phone_paired_with_def)
  then show ?thesis using pr(9-11) app unfolding new_record by metis
qed

theorem app_pairs_with_agent_witness:
  "\<exists>st url x req pack sas conf st1 h1 h2.
     open_pairing_window demo_deps (Some demo_ifaces) (Some (replicate 16 7)) 5 demo_agent 49517 = (st, Inr url) \<and>
     handle_connection demo_deps demo_platform
       [plain_input (NextFrame req) 9 (Some (replicate 32 4)), plain_input (NextFrame conf) 11 None] st =
       (st1, [Wrote pack, Event (PairingSas sas), Event (Paired (PairingRecord_new demo_deps
         (IdentityKeypair_device_id demo_deps (demo_id 1)) (id_public (demo_id 1)) (lit ''iPhone'') 11))], Inr ()) \<and>
     ex_reply x = NextFrame pack \<and>
     start_pairing demo_deps (\<lambda>_. []) demo_core url (lit ''iPhone'') x = (h1, [req], Inr ()) \<and>
     core_confirm_sas demo_json h1 None = (h2, [conf], Inr ()) \<and> phone_paired_with demo_deps h2 (demo_id 1) (demo_id 2) \<and>
     set (cs_hints (ch_state h2)) = {(V4 [192, 168, 4, 20], 49517), (V6 [0xfe80, 0, 0, 0, 0, 0, 0, 1], 49517)}"
proof -
  obtain st url where o: "open_pairing_window demo_deps (Some demo_ifaces) (Some (replicate 16 7)) 5 demo_agent 49517 = (st, Inr url)"
    using demo_opened by blast
  have t: "unat (9 :: u64) - unat (5 :: u64) \<le> unat PAIR_TOKEN_TTL_MS" by (simp add: PAIR_TOKEN_TTL_MS_def)
  have name: "valid_str (lit ''iPhone'')" "str_len (lit ''iPhone'') \<le> MAX_TEXT_CLIP"
    by (simp_all add: MAX_TEXT_CLIP_def valid_str_def valid_char_def lit_def str_len_def as_bytes_def utf8_char_def)
  have h: "cs_identity (ch_state demo_core) = demo_id 1" "cs_peers (ch_state demo_core) = []" "cs_hints (ch_state demo_core) = []"
    by (simp_all add: demo_core_def)
  have ad: "advertised demo_ifaces 49517 = [(V4 [192, 168, 4, 20], 49517), (V6 [0xfe80, 0, 0, 0, 0, 0, 0, 1], 49517)]"
    by (simp add: advertised_def demo_ifaces_def usable_def is_link_local_def)
  have w: "\<forall>i \<in> set demo_ifaces. ip_wf (if_ip i)" by (simp add: demo_ifaces_def ip_wf_def)
  have dl: "dial (advertised demo_ifaces 49517) [((V4 [192, 168, 4, 20], 49517), True)] = Inr (V4 [192, 168, 4, 20], 49517)"
    by (simp add: ad dial_def)
  have files: "\<forall>r \<in> set []. \<exists>j. pr_device_id r = DeviceId_hex j" by simp
  let ?x = "\<lambda>pack. \<lparr> ex_dial = [((V4 [192, 168, 4, 20], 49517), True)], ex_start_ms = 7, ex_rnd = Some (replicate 32 3),
      ex_send_err = None, ex_reply = NextFrame pack, ex_reply_ms = 10, ex_reply_rnd = None \<rparr>"
  obtain req pack sas conf st1 h1 h2 where r:
    "handle_connection demo_deps demo_platform
       [plain_input (NextFrame req) 9 (Some (replicate 32 4)), plain_input (NextFrame conf) 11 None] st =
       (st1, [Wrote pack, Event (PairingSas sas), Event (Paired (PairingRecord_new demo_deps
         (IdentityKeypair_device_id demo_deps (demo_id 1)) (id_public (demo_id 1)) (lit ''iPhone'') 11))], Inr ())"
    "start_pairing demo_deps (\<lambda>_. []) demo_core url (lit ''iPhone'') (?x pack) = (h1, [req], Inr ())"
    "core_confirm_sas demo_json h1 None = (h2, [conf], Inr ())" "phone_paired_with demo_deps h2 (demo_id 1) (demo_id 2)"
    "set (cs_hints (ch_state h2)) = set (advertised demo_ifaces 49517)"
    using app_pairs_with_agent [OF demo_deps_ok demo_text demo_url demo_json_ok demo_id_def demo_id_def _ _ _ _ _ name h
        demo_agent_facts(1) [folded demo_id_def] demo_agent_facts(2) demo_platform_ok demo_agent_facts(6) files w o t dl,
        of "replicate 32 3" "replicate 32 4" 11 "\<lambda>_. []" 7 10] by auto
  show ?thesis
    using o r by (intro exI [of _ st] exI [of _ url] exI [of _ "?x pack"] exI [of _ req] exI [of _ pack] exI [of _ sas]
      exI [of _ conf] exI [of _ st1] exI [of _ h1] exI [of _ h2]) (simp add: ad)
qed

end
